theory Spec2Isabelle
  imports Main "HOL-Library.Word"
begin

section \<open>Kubernetes objects\<close>

text \<open>
  The reconciler of \<^verbatim>\<open>controller/coroot_controller.go\<close> works on typed Kubernetes objects
  through \<^verbatim>\<open>client.Client\<close>. The Go static type of an object is its \<open>kind\<close>; it is passed
  explicitly wherever Go passes a typed pointer. All object types share one record holding
  the metadata and the kind-specific fields this program reads or writes.
\<close>

datatype kind = Secret | ServiceAccount | Role | RoleBinding | ClusterRole | ClusterRoleBinding
  | Deployment | DaemonSet | StatefulSet | PersistentVolumeClaim | Service | Ingress

text \<open>\<^verbatim>\<open>metav1.OwnerReference\<close>; the API version is kept as its parsed group.\<close>

record ownerReference =
  refGroup :: string
  refKind :: string
  refName :: string
  refUID :: string
  refController :: "bool option"
  refBlockOwnerDeletion :: "bool option"

record claimTemplate =
  ctName :: string
  ctNamespace :: string
  ctSpec :: string

record servicePort =
  spName :: string
  spProtocol :: string
  spPort :: "32 word"
  spTargetPort :: string
  spNodePort :: "32 word"

record ingressRule =
  irHost :: string
  irPath :: string
  irPathType :: string
  irServiceName :: string
  irServicePort :: string

text \<open>
  The \<^verbatim>\<open>Spec\<close> structs of the workload, service, claim and ingress types, as one record.
  Pod templates and the remaining fields are opaque strings: no function modelled here
  looks into them.
\<close>

record objectSpec =
  specReplicas :: "32 word option"
  specSelector :: "(string \<times> string) list"
  specVolumeClaimTemplates :: "claimTemplate list"
  specTemplate :: string
  specType :: string
  specPorts :: "servicePort list"
  specIngressClassName :: "string option"
  specRules :: "ingressRule list"
  specTLS :: "string list"
  specAccessModes :: "string list"
  specStorageRequest :: nat
  specStorageClassName :: "string option"
  specOther :: string

text \<open>
  Maps of the Go structs are HOL maps, so a nil map and an empty map are the same value,
  as they are for \<^verbatim>\<open>equality.Semantic.DeepEqual\<close>.
\<close>

record object =
  objNamespace :: string
  objName :: string
  objLabels :: "(string \<times> string) list"
  objAnnotations :: "string \<rightharpoonup> string"
  ownerReferences :: "ownerReference list"
  secretData :: "string \<rightharpoonup> string"
  roleRules :: "string list"
  objSpec :: objectSpec

definition emptySpec :: objectSpec where
  "emptySpec = \<lparr>specReplicas = None, specSelector = [], specVolumeClaimTemplates = [],
     specTemplate = [], specType = [], specPorts = [], specIngressClassName = None,
     specRules = [], specTLS = [], specAccessModes = [], specStorageRequest = 0,
     specStorageClassName = None, specOther = []\<rparr>"

definition emptyObject :: object where
  "emptyObject = \<lparr>objNamespace = [], objName = [], objLabels = [], objAnnotations = Map.empty,
     ownerReferences = [], secretData = Map.empty, roleRules = [], objSpec = emptySpec\<rparr>"

section \<open>The custom resource\<close>

text \<open>The fields of \<^verbatim>\<open>corootv1.Coroot\<close> that the modelled functions read.\<close>

record storageSpec =
  storageSize :: nat
  storageClassName :: "string option"
  storageReclaimPolicy :: string

record serviceSpec =
  serviceType :: string
  servicePortNumber :: "32 word"
  serviceNodePort :: "32 word"

record ingressSpec =
  ingressClassName :: "string option"
  ingressHost :: string
  ingressPath :: string
  ingressTLS :: "string option"
  ingressAnnotations :: "string \<rightharpoonup> string"

text \<open>
  \<open>Replicas\<close> is a Go \<^verbatim>\<open>int\<close>, 64 bits wide on the platforms the operator is built for
  (amd64 and arm64).
\<close>

record corootSpec =
  AgentsOnly :: "string option"
  Replicas :: "64 word"
  ServiceCfg :: serviceSpec
  IngressCfg :: "ingressSpec option"
  Storage :: storageSpec
  PrometheusStorage :: storageSpec
  ClickhouseStorage :: storageSpec
  ClickhouseKeeperStorage :: storageSpec
  ExternalPrometheus :: "string option"
  ExternalClickhouse :: "string option"

record coroot =
  crNamespace :: string
  crName :: string
  crUID :: string
  crSpec :: corootSpec

type_synonym request = "string \<times> string"

section \<open>The API client\<close>

datatype error = NotFound | AlreadyExists | Conflict | Transport string
  | AlreadyOwned | OwnerInvalid string | MutateFailed string

datatype call =
    CallGetCoroot request
  | CallGet kind string string
  | CallCreate kind object
  | CallUpdate kind object
  | CallDelete kind string string

text \<open>
  The cluster behind \<^verbatim>\<open>client.Client\<close>: the live objects, the custom resources, and the
  environment's script of failures. Every client call takes the next entry of \<open>faults\<close>:
  \<open>Some e\<close> makes the call fail with \<open>e\<close> and leave the cluster alone, \<open>None\<close> (or an
  exhausted script) lets it run. \<open>calls\<close> records every call issued, oldest first. The
  server stores an object as it was written.
\<close>

record cluster =
  objects :: "kind \<times> string \<times> string \<rightharpoonup> object"
  coroots :: "request \<rightharpoonup> coroot"
  faults :: "error option list"
  calls :: "call list"

definition nextFault :: "cluster \<Rightarrow> error option" where
  "nextFault k = (case faults k of [] \<Rightarrow> None | f # _ \<Rightarrow> f)"

definition advance :: "call \<Rightarrow> cluster \<Rightarrow> cluster" where
  "advance c k = k\<lparr>faults := tl (faults k), calls := calls k @ [c]\<rparr>"

definition issue :: "call \<Rightarrow> cluster \<Rightarrow> error option \<times> cluster" where
  "issue c k = (nextFault k, advance c k)"

definition client_GetCoroot :: "request \<Rightarrow> cluster \<Rightarrow> (error + coroot) \<times> cluster" where
  "client_GetCoroot req k = (case issue (CallGetCoroot req) k of
       (Some e, k') \<Rightarrow> (Inl e, k')
     | (None, k') \<Rightarrow> (case coroots k' req of
           None \<Rightarrow> (Inl NotFound, k')
         | Some cr \<Rightarrow> (Inr cr, k')))"

definition client_Get :: "kind \<Rightarrow> string \<Rightarrow> string \<Rightarrow> cluster \<Rightarrow> (error + object) \<times> cluster" where
  "client_Get t ns n k = (case issue (CallGet t ns n) k of
       (Some e, k') \<Rightarrow> (Inl e, k')
     | (None, k') \<Rightarrow> (case objects k' (t, ns, n) of
           None \<Rightarrow> (Inl NotFound, k')
         | Some ob \<Rightarrow> (Inr ob, k')))"

definition client_Create :: "kind \<Rightarrow> object \<Rightarrow> cluster \<Rightarrow> error option \<times> cluster" where
  "client_Create t ob k = (case issue (CallCreate t ob) k of
       (Some e, k') \<Rightarrow> (Some e, k')
     | (None, k') \<Rightarrow> (case objects k' (t, objNamespace ob, objName ob) of
           Some _ \<Rightarrow> (Some AlreadyExists, k')
         | None \<Rightarrow> (None, k'\<lparr>objects := (objects k')((t, objNamespace ob, objName ob) \<mapsto> ob)\<rparr>)))"

definition client_Update :: "kind \<Rightarrow> object \<Rightarrow> cluster \<Rightarrow> error option \<times> cluster" where
  "client_Update t ob k = (case issue (CallUpdate t ob) k of
       (Some e, k') \<Rightarrow> (Some e, k')
     | (None, k') \<Rightarrow> (case objects k' (t, objNamespace ob, objName ob) of
           None \<Rightarrow> (Some NotFound, k')
         | Some _ \<Rightarrow> (None, k'\<lparr>objects := (objects k')((t, objNamespace ob, objName ob) \<mapsto> ob)\<rparr>)))"

definition client_Delete :: "kind \<Rightarrow> object \<Rightarrow> cluster \<Rightarrow> error option \<times> cluster" where
  "client_Delete t ob k = (case issue (CallDelete t (objNamespace ob) (objName ob)) k of
       (Some e, k') \<Rightarrow> (Some e, k')
     | (None, k') \<Rightarrow> (case objects k' (t, objNamespace ob, objName ob) of
           None \<Rightarrow> (Some NotFound, k')
         | Some _ \<Rightarrow> (None, k'\<lparr>objects := (objects k')((t, objNamespace ob, objName ob) := None)\<rparr>)))"

section \<open>The library functions of controllerutil\<close>

text \<open>
  \<^verbatim>\<open>sigs.k8s.io/controller-runtime/pkg/controller/controllerutil\<close> is a dependency, not
  part of the repository. The three functions the reconciler calls are embedded from the
  library's published source. The owner is always the \<^verbatim>\<open>Coroot\<close> resource, of group
  \<^verbatim>\<open>coroot.com\<close>.
\<close>

definition referSameObject :: "ownerReference \<Rightarrow> ownerReference \<Rightarrow> bool" where
  "referSameObject a b \<longleftrightarrow> refGroup a = refGroup b \<and> refKind a = refKind b \<and> refName a = refName b"

fun indexOwnerRef :: "ownerReference list \<Rightarrow> ownerReference \<Rightarrow> nat option" where
  "indexOwnerRef [] ref = None"
| "indexOwnerRef (r # rs) ref =
     (if referSameObject r ref then Some 0 else map_option Suc (indexOwnerRef rs ref))"

definition isController :: "ownerReference \<Rightarrow> bool" where
  "isController r \<longleftrightarrow> refController r = Some True"

definition GetControllerOf :: "object \<Rightarrow> ownerReference option" where
  "GetControllerOf ob = List.find isController (ownerReferences ob)"

definition HasControllerReference :: "object \<Rightarrow> bool" where
  "HasControllerReference ob \<longleftrightarrow> list_ex isController (ownerReferences ob)"

definition validateOwner :: "coroot \<Rightarrow> object \<Rightarrow> error option" where
  "validateOwner owner ob =
     (if crNamespace owner \<noteq> [] then
        (if objNamespace ob = [] then Some (OwnerInvalid ''cluster-scoped resource must not have a namespace-scoped owner'')
         else if crNamespace owner \<noteq> objNamespace ob then Some (OwnerInvalid ''cross-namespace owner references are disallowed'')
         else None)
      else None)"

definition controllerRef :: "coroot \<Rightarrow> ownerReference" where
  "controllerRef owner = \<lparr>refGroup = ''coroot.com'', refKind = ''Coroot'', refName = crName owner,
     refUID = crUID owner, refController = Some True, refBlockOwnerDeletion = Some True\<rparr>"

definition upsertOwnerRef :: "ownerReference \<Rightarrow> object \<Rightarrow> object" where
  "upsertOwnerRef ref ob = (case indexOwnerRef (ownerReferences ob) ref of
       None \<Rightarrow> ob\<lparr>ownerReferences := ownerReferences ob @ [ref]\<rparr>
     | Some idx \<Rightarrow> ob\<lparr>ownerReferences := (ownerReferences ob)[idx := ref]\<rparr>)"

definition SetControllerReference :: "coroot \<Rightarrow> object \<Rightarrow> error option \<times> object" where
  "SetControllerReference owner ob = (case validateOwner owner ob of
       Some e \<Rightarrow> (Some e, ob)
     | None \<Rightarrow> (case GetControllerOf ob of
           Some existing \<Rightarrow>
             (if \<not> referSameObject existing (controllerRef owner) then (Some AlreadyOwned, ob)
              else (None, upsertOwnerRef (controllerRef owner) ob))
         | None \<Rightarrow> (None, upsertOwnerRef (controllerRef owner) ob)))"

definition RemoveControllerReference :: "coroot \<Rightarrow> object \<Rightarrow> error option \<times> object" where
  "RemoveControllerReference owner ob =
     (if \<not> HasControllerReference ob then (Some (OwnerInvalid ''no controller reference''), ob)
      else (case indexOwnerRef (ownerReferences ob) (controllerRef owner) of
          None \<Rightarrow> (Some (OwnerInvalid ''no controller reference for the owner''), ob)
        | Some idx \<Rightarrow>
            (if \<not> isController (ownerReferences ob ! idx)
             then (Some (OwnerInvalid ''owner is not the controller reference''), ob)
             else (None, ob\<lparr>ownerReferences :=
                     take idx (ownerReferences ob) @ drop (Suc idx) (ownerReferences ob)\<rparr>))))"

datatype operationResult = OperationResultNone | OperationResultCreated | OperationResultUpdated

text \<open>
  A \<^verbatim>\<open>MutateFn\<close> is a closure over the object and over variables of the caller. It is a
  function of the object and of the captured variables \<open>'v\<close>, returning the error, the
  object and the variables as it leaves them.
\<close>

type_synonym 'v mutateFn = "object \<Rightarrow> 'v \<Rightarrow> error option \<times> object \<times> 'v"

text \<open>\<^verbatim>\<open>mutate\<close>: run the closure, then refuse a changed name or namespace.\<close>

definition mutate :: "'v mutateFn \<Rightarrow> object \<Rightarrow> 'v \<Rightarrow> error option \<times> object \<times> 'v" where
  "mutate f ob v = (case f ob v of
       (Some e, ob', v') \<Rightarrow> (Some e, ob', v')
     | (None, ob', v') \<Rightarrow>
         (if (objNamespace ob', objName ob') \<noteq> (objNamespace ob, objName ob)
          then (Some (MutateFailed ''MutateFn cannot mutate object name and/or object namespace''), ob', v')
          else (None, ob', v')))"

text \<open>
  \<^verbatim>\<open>controllerutil.CreateOrUpdate\<close>: fetch into \<open>ob\<close>; when the object is absent, mutate the
  caller's object and create it; otherwise mutate the fetched object and update it only
  if the mutation changed it.
\<close>

definition controllerutil_CreateOrUpdate ::
  "kind \<Rightarrow> object \<Rightarrow> 'v mutateFn \<Rightarrow> 'v \<Rightarrow> cluster \<Rightarrow> ((error + operationResult) \<times> 'v) \<times> cluster" where
  "controllerutil_CreateOrUpdate t ob f v k =
     (case client_Get t (objNamespace ob) (objName ob) k of
        (Inl e, k1) \<Rightarrow>
          (if e \<noteq> NotFound then ((Inl e, v), k1)
           else (case mutate f ob v of
               (Some e', ob', v') \<Rightarrow> ((Inl e', v'), k1)
             | (None, ob', v') \<Rightarrow> (case client_Create t ob' k1 of
                   (Some e', k2) \<Rightarrow> ((Inl e', v'), k2)
                 | (None, k2) \<Rightarrow> ((Inr OperationResultCreated, v'), k2))))
      | (Inr live, k1) \<Rightarrow>
          (case mutate f live v of
             (Some e', ob', v') \<Rightarrow> ((Inl e', v'), k1)
           | (None, ob', v') \<Rightarrow>
               (if live = ob' then ((Inr OperationResultNone, v'), k1)
                else (case client_Update t ob' k1 of
                    (Some e', k2) \<Rightarrow> ((Inl e', v'), k2)
                  | (None, k2) \<Rightarrow> ((Inr OperationResultUpdated, v'), k2)))))"

section \<open>The reconciler\<close>

datatype logEntry = LogInfo string | LogError error string

text \<open>
  \<^verbatim>\<open>CorootReconciler\<close>: the embedded client, the registry of instances, the flag of the
  legacy deployment. \<open>logs\<close> is what was written to the logger, \<open>entropy\<close> counts the
  random strings drawn so far.
\<close>

record CorootReconciler =
  Client :: cluster
  instances :: "request \<rightharpoonup> bool"
  deploymentDeleted :: bool
  logs :: "logEntry list"
  entropy :: nat

text \<open>
  Functions of the repository that are not among the source files at hand are taken as
  parameters: the templating functions of the other components, \<^verbatim>\<open>MergeSpecs\<close>,
  \<^verbatim>\<open>RandomString\<close> (the string it returns at the n-th draw for a requested length) and
  \<^verbatim>\<open>corootValidate\<close> (the validation errors it finds). \<^verbatim>\<open>MergeSpecs\<close> receives the
  object, whose spec it merges in place, the desired spec and the desired annotations,
  and returns its error along with the object as it leaves it.
\<close>

record collaborators =
  MergeSpecs :: "object \<Rightarrow> objectSpec \<Rightarrow> (string \<rightharpoonup> string) \<Rightarrow> error option \<times> object"
  RandomString :: "nat \<Rightarrow> int \<Rightarrow> string"
  corootValidate :: "coroot \<Rightarrow> string list"
  openshiftSCCRole :: "coroot \<Rightarrow> string \<Rightarrow> object"
  openshiftSCCRoleBinding :: "coroot \<Rightarrow> string \<Rightarrow> string \<Rightarrow> object"
  clusterAgentClusterRole :: "coroot \<Rightarrow> object"
  clusterAgentClusterRoleBinding :: "coroot \<Rightarrow> object"
  clusterAgentDeployment :: "coroot \<Rightarrow> object"
  nodeAgentPodTemplate :: "coroot \<Rightarrow> string"
  corootPodTemplate :: "coroot \<Rightarrow> string"
  prometheusPVC :: "coroot \<Rightarrow> object"
  prometheusDeployment :: "coroot \<Rightarrow> object"
  prometheusService :: "coroot \<Rightarrow> object"
  clickhouseKeeperServiceHeadless :: "coroot \<Rightarrow> object"
  clickhouseKeeperPVCs :: "coroot \<Rightarrow> object list"
  clickhouseKeeperStatefulSet :: "coroot \<Rightarrow> object"
  clickhouseServiceHeadless :: "coroot \<Rightarrow> object"
  clickhousePVCs :: "coroot \<Rightarrow> object list"
  clickhouseStatefulSets :: "coroot \<Rightarrow> object list"
  clickhouseService :: "coroot \<Rightarrow> object"

definition sccNonroot :: string where "sccNonroot = ''nonroot''"
definition sccPrivileged :: string where "sccPrivileged = ''privileged''"

definition Labels :: "coroot \<Rightarrow> string \<Rightarrow> (string \<times> string) list" where
  "Labels cr component =
     [(''app.kubernetes.io/managed-by'', ''coroot-operator''),
      (''app.kubernetes.io/part-of'', crName cr),
      (''app.kubernetes.io/component'', component)]"

definition string_of_result :: "operationResult \<Rightarrow> string" where
  "string_of_result res = (case res of OperationResultNone \<Rightarrow> ''unchanged''
     | OperationResultCreated \<Rightarrow> ''created'' | OperationResultUpdated \<Rightarrow> ''updated'')"

text \<open>The closure \<open>f\<close> of \<^verbatim>\<open>CreateOrUpdate\<close>; both owner-reference errors are discarded.\<close>

definition ownerStep :: "coroot \<Rightarrow> bool \<Rightarrow> object \<Rightarrow> object" where
  "ownerStep cr retain ob =
     (if retain then snd (RemoveControllerReference cr ob) else snd (SetControllerReference cr ob))"

definition applyF :: "coroot \<Rightarrow> bool \<Rightarrow> 'v mutateFn option \<Rightarrow> 'v mutateFn" where
  "applyF cr retain mutateF ob v =
     (case mutateF of
        Some m \<Rightarrow> m (ownerStep cr retain ob) v
      | None \<Rightarrow> (None, ownerStep cr retain ob, v))"

definition CreateOrUpdate ::
  "coroot \<Rightarrow> kind \<Rightarrow> object \<Rightarrow> bool \<Rightarrow> bool \<Rightarrow> 'v mutateFn option \<Rightarrow> 'v \<Rightarrow> CorootReconciler
     \<Rightarrow> 'v \<times> CorootReconciler" where
  "CreateOrUpdate cr t ob delete retain mutateF v r =
     (if delete then
        (case client_Delete t ob (Client r) of
           (None, k) \<Rightarrow> (v, r\<lparr>Client := k, logs := logs r @ [LogInfo ''deleted'']\<rparr>)
         | (Some err, k) \<Rightarrow> (v, r\<lparr>Client := k\<rparr>))
      else
        (case controllerutil_CreateOrUpdate t ob (applyF cr retain mutateF) v (Client r) of
           ((Inl err, v'), k) \<Rightarrow>
             (v', r\<lparr>Client := k, logs := logs r @ [LogError err ''failed to create or update'']\<rparr>)
         | ((Inr res, v'), k) \<Rightarrow>
             (if res \<noteq> OperationResultNone
              then (v', r\<lparr>Client := k, logs := logs r @ [LogInfo (string_of_result res)]\<rparr>)
              else (v', r\<lparr>Client := k\<rparr>))))"

text \<open>
  \<^verbatim>\<open>CreateOrUpdateSecret\<close>. The closure captures \<open>data\<close>; the draw counter travels with
  it, since the closure is where \<^verbatim>\<open>RandomString\<close> is called.
\<close>

definition secretMutate :: "collaborators \<Rightarrow> string \<Rightarrow> int \<Rightarrow> (string \<times> nat) mutateFn" where
  "secretMutate c key len s v =
     (case secretData s key of
        Some d \<Rightarrow> (None, s, (d, snd v))
      | None \<Rightarrow> (let d = RandomString c (snd v) len
                 in (None, s\<lparr>secretData := (secretData s)(key \<mapsto> d)\<rparr>, (d, Suc (snd v)))))"

definition CreateOrUpdateSecret ::
  "collaborators \<Rightarrow> coroot \<Rightarrow> string \<Rightarrow> string \<Rightarrow> string \<Rightarrow> int \<Rightarrow> CorootReconciler
     \<Rightarrow> string \<times> CorootReconciler" where
  "CreateOrUpdateSecret c cr component name key len r =
     (let s = emptyObject\<lparr>objName := name, objNamespace := crNamespace cr,
                objLabels := Labels cr component\<rparr>
      in case CreateOrUpdate cr Secret s False False (Some (secretMutate c key len)) ([], entropy r) r of
           ((data, n), r') \<Rightarrow> (data, r'\<lparr>entropy := n\<rparr>))"

text \<open>The typed wrappers. Each saves the desired fields before the fetch overwrites the object.\<close>

definition mergeMutate :: "collaborators \<Rightarrow> objectSpec \<Rightarrow> (string \<rightharpoonup> string) \<Rightarrow> unit mutateFn" where
  "mergeMutate c spec annotations ob v = (case MergeSpecs c ob spec annotations of (err, ob') \<Rightarrow> (err, ob', v))"

definition CreateOrUpdateDeployment :: "collaborators \<Rightarrow> coroot \<Rightarrow> object \<Rightarrow> CorootReconciler \<Rightarrow> CorootReconciler" where
  "CreateOrUpdateDeployment c cr d r =
     (let spec = objSpec d
      in snd (CreateOrUpdate cr Deployment d False False (Some (mergeMutate c spec Map.empty)) () r))"

definition CreateOrUpdateDaemonSet :: "collaborators \<Rightarrow> coroot \<Rightarrow> object \<Rightarrow> CorootReconciler \<Rightarrow> CorootReconciler" where
  "CreateOrUpdateDaemonSet c cr ds r =
     (let spec = objSpec ds
      in snd (CreateOrUpdate cr DaemonSet ds False False (Some (mergeMutate c spec Map.empty)) () r))"

definition statefulSetMutate :: "collaborators \<Rightarrow> objectSpec \<Rightarrow> unit mutateFn" where
  "statefulSetMutate c spec ss v =
     (let volumeClaimTemplates = specVolumeClaimTemplates (objSpec ss)
      in case MergeSpecs c ss spec Map.empty of
           (err, ss') \<Rightarrow>
             (err, ss'\<lparr>objSpec := (objSpec ss')\<lparr>specVolumeClaimTemplates := volumeClaimTemplates\<rparr>\<rparr>, v))"

definition CreateOrUpdateStatefulSet :: "collaborators \<Rightarrow> coroot \<Rightarrow> object \<Rightarrow> CorootReconciler \<Rightarrow> CorootReconciler" where
  "CreateOrUpdateStatefulSet c cr ss r =
     (let spec = objSpec ss
      in snd (CreateOrUpdate cr StatefulSet ss False False (Some (statefulSetMutate c spec)) () r))"

definition CreateOrUpdatePVC :: "collaborators \<Rightarrow> coroot \<Rightarrow> object \<Rightarrow> string \<Rightarrow> CorootReconciler \<Rightarrow> CorootReconciler" where
  "CreateOrUpdatePVC c cr pvc reclaimPolicy r =
     (let spec = objSpec pvc;
          retain = (reclaimPolicy = ''Retain'')
      in snd (CreateOrUpdate cr PersistentVolumeClaim pvc False retain (Some (mergeMutate c spec Map.empty)) () r))"

definition serviceMutate :: "collaborators \<Rightarrow> objectSpec \<Rightarrow> (string \<rightharpoonup> string) \<Rightarrow> unit mutateFn" where
  "serviceMutate c spec annotations s v =
     (case MergeSpecs c s spec annotations of
        (err, s') \<Rightarrow> (err, s'\<lparr>objSpec := (objSpec s')\<lparr>specPorts := specPorts spec\<rparr>\<rparr>, v))"

definition CreateOrUpdateService :: "collaborators \<Rightarrow> coroot \<Rightarrow> object \<Rightarrow> CorootReconciler \<Rightarrow> CorootReconciler" where
  "CreateOrUpdateService c cr s r =
     (let spec = objSpec s;
          annotations = objAnnotations s
      in snd (CreateOrUpdate cr Service s False False (Some (serviceMutate c spec annotations)) () r))"

definition CreateOrUpdateServiceAccount ::
  "collaborators \<Rightarrow> coroot \<Rightarrow> string \<Rightarrow> string \<Rightarrow> CorootReconciler \<Rightarrow> CorootReconciler" where
  "CreateOrUpdateServiceAccount c cr component scc r =
     (let sa = emptyObject\<lparr>objName := crName cr @ ''-'' @ component, objNamespace := crNamespace cr,
                 objLabels := Labels cr component\<rparr>;
          r1 = snd (CreateOrUpdate cr ServiceAccount sa False False (None :: unit mutateFn option) () r)
      in snd (CreateOrUpdate cr RoleBinding (openshiftSCCRoleBinding c cr component scc) False False
                (None :: unit mutateFn option) () r1))"

definition rulesMutate :: "string list \<Rightarrow> unit mutateFn" where
  "rulesMutate rules role v = (None, role\<lparr>roleRules := rules\<rparr>, v)"

definition CreateOrUpdateRole :: "coroot \<Rightarrow> object \<Rightarrow> CorootReconciler \<Rightarrow> CorootReconciler" where
  "CreateOrUpdateRole cr role r =
     (let rules = roleRules role
      in snd (CreateOrUpdate cr Role role False False (Some (rulesMutate rules)) () r))"

definition CreateOrUpdateClusterRole :: "coroot \<Rightarrow> object \<Rightarrow> CorootReconciler \<Rightarrow> CorootReconciler" where
  "CreateOrUpdateClusterRole cr role r =
     (let rules = roleRules role
      in snd (CreateOrUpdate cr ClusterRole role False True (Some (rulesMutate rules)) () r))"

definition CreateOrUpdateClusterRoleBinding :: "coroot \<Rightarrow> object \<Rightarrow> CorootReconciler \<Rightarrow> CorootReconciler" where
  "CreateOrUpdateClusterRoleBinding cr b r =
     snd (CreateOrUpdate cr ClusterRoleBinding b False True (None :: unit mutateFn option) () r)"

definition CreateOrUpdateIngress ::
  "collaborators \<Rightarrow> coroot \<Rightarrow> object \<Rightarrow> bool \<Rightarrow> CorootReconciler \<Rightarrow> CorootReconciler" where
  "CreateOrUpdateIngress c cr i delete r =
     (let spec = objSpec i;
          annotations = objAnnotations i
      in snd (CreateOrUpdate cr Ingress i delete False (Some (mergeMutate c spec annotations)) () r))"

section \<open>Templating of the coroot component and of the node agent\<close>

definition digit :: "nat \<Rightarrow> char" where
  "digit n = ''0123456789'' ! n"

fun showNat :: "nat \<Rightarrow> string" where
  "showNat n = (if n < 10 then [digit n] else showNat (n div 10) @ [digit (n mod 10)])"

declare showNat.simps [simp del]

definition corootService :: "coroot \<Rightarrow> object" where
  "corootService cr =
     (let ls = Labels cr ''coroot'';
          port = servicePortNumber (ServiceCfg (crSpec cr));
          port = (if port = 0 then 8080 else port)
      in emptyObject\<lparr>objName := crName cr @ ''-coroot'', objNamespace := crNamespace cr, objLabels := ls,
           objSpec := emptySpec\<lparr>specSelector := ls, specType := serviceType (ServiceCfg (crSpec cr)),
             specPorts := [\<lparr>spName = ''http'', spProtocol = ''TCP'', spPort = port,
               spTargetPort = ''http'', spNodePort = serviceNodePort (ServiceCfg (crSpec cr))\<rparr>]\<rparr>\<rparr>)"

text \<open>
  \<^verbatim>\<open>corootPVCs\<close>: one claim per replica index below \<open>replicas\<close>, the loop counter being a
  signed 64-bit \<^verbatim>\<open>int\<close>; only the value 0 is replaced by 1.
\<close>

definition corootPVCs :: "coroot \<Rightarrow> object list" where
  "corootPVCs cr =
     (let ls = Labels cr ''coroot'';
          size = storageSize (Storage (crSpec cr));
          size = (if size = 0 then 10 * 2 ^ 30 else size);
          replicas = Replicas (crSpec cr);
          replicas = (if replicas = 0 then 1 else replicas)
      in map (\<lambda>replica.
            emptyObject\<lparr>objName := ''data-'' @ crName cr @ ''-coroot-'' @ showNat replica,
              objNamespace := crNamespace cr, objLabels := ls,
              objSpec := emptySpec\<lparr>specAccessModes := [''ReadWriteOnce''], specStorageRequest := size,
                specStorageClassName := storageClassName (Storage (crSpec cr))\<rparr>\<rparr>)
           [0 ..< nat (sint replicas)])"

definition hasSlashPrefix :: "string \<Rightarrow> bool" where
  "hasSlashPrefix path = (case path of [] \<Rightarrow> False | ch # _ \<Rightarrow> ch = CHR ''/'')"

definition corootIngress :: "coroot \<Rightarrow> object" where
  "corootIngress cr =
     (let ls = Labels cr ''ingress'';
          i = emptyObject\<lparr>objName := crName cr, objNamespace := crNamespace cr, objLabels := ls\<rparr>
      in case IngressCfg (crSpec cr) of
           None \<Rightarrow> i
         | Some ing \<Rightarrow>
             (let path = ingressPath ing;
                  path = (if \<not> hasSlashPrefix path then ''/'' @ path else path)
              in i\<lparr>objAnnotations := ingressAnnotations ing,
                   objSpec := emptySpec\<lparr>specIngressClassName := ingressClassName ing,
                     specRules := [\<lparr>irHost = ingressHost ing, irPath = path, irPathType = ''Prefix'',
                       irServiceName = crName cr @ ''-coroot'', irServicePort = ''http''\<rparr>],
                     specTLS := (case ingressTLS ing of None \<Rightarrow> [] | Some tls \<Rightarrow> [tls])\<rparr>\<rparr>))"

definition corootDeployment :: "coroot \<Rightarrow> object" where
  "corootDeployment cr =
     emptyObject\<lparr>objName := crName cr @ ''-coroot'', objNamespace := crNamespace cr,
       objLabels := Labels cr ''coroot''\<rparr>"

text \<open>
  \<^verbatim>\<open>corootStatefulSet\<close>. The pod template (environment, image, containers) does not read
  \<open>Replicas\<close> and is the opaque \<open>corootPodTemplate\<close>. The replica count is the \<^verbatim>\<open>int\<close>
  converted to \<^verbatim>\<open>int32\<close>, which keeps the low 32 bits, and then defaulted.
\<close>

definition corootStatefulSet :: "collaborators \<Rightarrow> coroot \<Rightarrow> object" where
  "corootStatefulSet c cr =
     (let ls = Labels cr ''coroot'';
          replicas = (ucast (Replicas (crSpec cr)) :: 32 word);
          replicas = (if sint replicas \<le> 0 then 1 else replicas)
      in emptyObject\<lparr>objName := crName cr @ ''-coroot'', objNamespace := crNamespace cr, objLabels := ls,
           objSpec := emptySpec\<lparr>specSelector := ls, specReplicas := Some replicas,
             specVolumeClaimTemplates := [\<lparr>ctName = ''data'', ctNamespace = crNamespace cr, ctSpec = []\<rparr>],
             specTemplate := corootPodTemplate c cr\<rparr>\<rparr>)"

definition nodeAgentDaemonSet :: "collaborators \<Rightarrow> coroot \<Rightarrow> object" where
  "nodeAgentDaemonSet c cr =
     (let ls = Labels cr ''coroot-node-agent''
      in emptyObject\<lparr>objName := crName cr @ ''-node-agent'', objNamespace := crNamespace cr, objLabels := ls,
           objSpec := emptySpec\<lparr>specSelector := ls, specTemplate := nodeAgentPodTemplate c cr\<rparr>\<rparr>)"

section \<open>Reconcile\<close>

record result =
  Requeue :: bool
  RequeueAfter :: nat

definition emptyResult :: result where
  "emptyResult = \<lparr>Requeue = False, RequeueAfter = 0\<rparr>"

definition emptyStorage :: storageSpec where
  "emptyStorage = \<lparr>storageSize = 0, storageClassName = None, storageReclaimPolicy = []\<rparr>"

definition emptyCoroot :: coroot where
  "emptyCoroot = \<lparr>crNamespace = [], crName = [], crUID = [],
     crSpec = \<lparr>AgentsOnly = None, Replicas = 0,
       ServiceCfg = \<lparr>serviceType = [], servicePortNumber = 0, serviceNodePort = 0\<rparr>,
       IngressCfg = None, Storage = emptyStorage, PrometheusStorage = emptyStorage,
       ClickhouseStorage = emptyStorage, ClickhouseKeeperStorage = emptyStorage,
       ExternalPrometheus = None, ExternalClickhouse = None\<rparr>\<rparr>"

text \<open>A sequence of statements, each a change of the reconciler.\<close>

definition run :: "('s \<Rightarrow> 's) list \<Rightarrow> 's \<Rightarrow> 's" where
  "run steps s = fold (\<lambda>step. step) steps s"

text \<open>\<^verbatim>\<open>_ = r.Delete(ctx, obj)\<close>: the error is dropped.\<close>

definition Delete :: "kind \<Rightarrow> object \<Rightarrow> CorootReconciler \<Rightarrow> CorootReconciler" where
  "Delete t ob r = r\<lparr>Client := snd (client_Delete t ob (Client r))\<rparr>"

text \<open>A request is the pair of namespace and name.\<close>

definition Reconcile ::
  "collaborators \<Rightarrow> request \<Rightarrow> CorootReconciler \<Rightarrow> (result \<times> error option) \<times> CorootReconciler" where
  "Reconcile c req r =
     (case client_GetCoroot req (Client r) of
        (Inl err, k) \<Rightarrow>
          (if err = NotFound then
             ((emptyResult, None),
              run [
                (\<lambda>r. if instances r req = Some True
                      then r\<lparr>logs := logs r @ [LogInfo ''Coroot has been deleted''],
                             instances := (instances r)(req := None)\<rparr>
                      else r),
                (\<lambda>r. if dom (instances r) = {}
                      then (let cr = emptyCoroot\<lparr>crName := snd req, crNamespace := fst req\<rparr>
                            in run [
                                 Delete ClusterRoleBinding (clusterAgentClusterRoleBinding c cr),
                                 Delete ClusterRole (clusterAgentClusterRole c cr)] r)
                      else r)]
                (r\<lparr>Client := k\<rparr>))
           else ((emptyResult, Some err), r\<lparr>Client := k\<rparr>))
      | (Inr cr, k) \<Rightarrow>
          (let r1 = run [
                 (\<lambda>r. r\<lparr>instances := (instances r)(req \<mapsto> True)\<rparr>),
                 CreateOrUpdateRole cr (openshiftSCCRole c cr sccNonroot),
                 CreateOrUpdateRole cr (openshiftSCCRole c cr sccPrivileged),
                 CreateOrUpdateServiceAccount c cr ''node-agent'' sccPrivileged,
                 CreateOrUpdateDaemonSet c cr (nodeAgentDaemonSet c cr),
                 CreateOrUpdateServiceAccount c cr ''cluster-agent'' sccNonroot,
                 CreateOrUpdateClusterRole cr (clusterAgentClusterRole c cr),
                 CreateOrUpdateClusterRoleBinding cr (clusterAgentClusterRoleBinding c cr),
                 CreateOrUpdateDeployment c cr (clusterAgentDeployment c cr)]
                (r\<lparr>Client := k\<rparr>)
           in if AgentsOnly (crSpec cr) \<noteq> None then ((emptyResult, None), r1)
              else
                (let validationErrors = corootValidate c cr
                 in ((emptyResult, None),
                     run [
                       CreateOrUpdateServiceAccount c cr ''coroot'' sccNonroot,
                       run (map (\<lambda>pvc. CreateOrUpdatePVC c cr pvc (storageReclaimPolicy (Storage (crSpec cr))))
                              (corootPVCs cr)),
                       CreateOrUpdateStatefulSet c cr (corootStatefulSet c cr),
                       CreateOrUpdateService c cr (corootService cr),
                       (\<lambda>r. if \<not> deploymentDeleted r
                             then (Delete Deployment (corootDeployment cr) r)\<lparr>deploymentDeleted := True\<rparr>
                             else r),
                       CreateOrUpdateIngress c cr (corootIngress cr) (IngressCfg (crSpec cr) = None),
                       (\<lambda>r. if ExternalPrometheus (crSpec cr) = None
                             then run [
                               CreateOrUpdateServiceAccount c cr ''prometheus'' sccNonroot,
                               CreateOrUpdatePVC c cr (prometheusPVC c cr)
                                 (storageReclaimPolicy (PrometheusStorage (crSpec cr))),
                               CreateOrUpdateDeployment c cr (prometheusDeployment c cr),
                               CreateOrUpdateService c cr (prometheusService c cr)] r
                             else r),
                       (\<lambda>r. if ExternalClickhouse (crSpec cr) = None
                             then run [
                               (\<lambda>r. snd (CreateOrUpdateSecret c cr ''clickhouse'' (crName cr @ ''-clickhouse'')
                                            ''password'' 16 r)),
                               CreateOrUpdateServiceAccount c cr ''clickhouse-keeper'' sccNonroot,
                               CreateOrUpdateService c cr (clickhouseKeeperServiceHeadless c cr),
                               run (map (\<lambda>pvc. CreateOrUpdatePVC c cr pvc
                                             (storageReclaimPolicy (ClickhouseKeeperStorage (crSpec cr))))
                                      (clickhouseKeeperPVCs c cr)),
                               CreateOrUpdateStatefulSet c cr (clickhouseKeeperStatefulSet c cr),
                               CreateOrUpdateServiceAccount c cr ''clickhouse'' sccNonroot,
                               CreateOrUpdateService c cr (clickhouseServiceHeadless c cr),
                               run (map (\<lambda>pvc. CreateOrUpdatePVC c cr pvc
                                             (storageReclaimPolicy (ClickhouseStorage (crSpec cr))))
                                      (clickhousePVCs c cr)),
                               run (map (CreateOrUpdateStatefulSet c cr) (clickhouseStatefulSets c cr)),
                               CreateOrUpdateService c cr (clickhouseService c cr)] r
                             else r)]
                       r1))))"

text \<open>The object that \<^verbatim>\<open>CreateOrUpdateSecret\<close> hands to \<^verbatim>\<open>CreateOrUpdate\<close>.\<close>

definition secretObject :: "coroot \<Rightarrow> string \<Rightarrow> string \<Rightarrow> object" where
  "secretObject cr component name = emptyObject\<lparr>objName := name, objNamespace := crNamespace cr,
                objLabels := Labels cr component\<rparr>"

section \<open>Observations on a run\<close>

text \<open>The failures a run has logged.\<close>

fun isLogError :: "logEntry \<Rightarrow> bool" where
  "isLogError (LogError e m) = True"
| "isLogError (LogInfo m) = False"

definition failures :: "CorootReconciler \<Rightarrow> logEntry list" where
  "failures r = filter isLogError (logs r)"

text \<open>
  The client calls issued between two states of the reconciler, and the write that a
  non-deleting \<^verbatim>\<open>CreateOrUpdate\<close> attempts after its fetch.
\<close>

definition issued :: "CorootReconciler \<Rightarrow> CorootReconciler \<Rightarrow> call list" where
  "issued r r' = drop (length (calls (Client r))) (calls (Client r'))"

definition attemptedWrite ::
  "coroot \<Rightarrow> kind \<Rightarrow> object \<Rightarrow> bool \<Rightarrow> 'v mutateFn option \<Rightarrow> 'v \<Rightarrow> cluster \<Rightarrow> call list" where
  "attemptedWrite cr t ob retain mf v k =
     (case fst (client_Get t (objNamespace ob) (objName ob) k) of
        Inl e \<Rightarrow>
          (if e = NotFound
           then (case mutate (applyF cr retain mf) ob v of
                   (None, w, v') \<Rightarrow> [CallCreate t w]
                 | (Some e', w, v') \<Rightarrow> [])
           else [])
      | Inr live \<Rightarrow>
          (case mutate (applyF cr retain mf) live v of
             (None, w, v') \<Rightarrow> (if live = w then [] else [CallUpdate t w])
           | (Some e', w, v') \<Rightarrow> []))"

text \<open>At most one owner reference of the object names the instance.\<close>

definition singleOwnerRef :: "coroot \<Rightarrow> object \<Rightarrow> bool" where
  "singleOwnerRef cr ob \<longleftrightarrow>
     length (filter (\<lambda>x. referSameObject x (controllerRef cr)) (ownerReferences ob)) \<le> 1"


text \<open>
  \<^verbatim>\<open>SetControllerReference\<close> accepts the owner when the object passes \<^verbatim>\<open>validateOwner\<close> and
  is not controlled by another owner. An object is controlled by the instance when one of
  its references is a controller reference that names the instance. The foreign
  references of an object are those that name another owner, in their order.
\<close>

definition ownerAccepted :: "coroot \<Rightarrow> object \<Rightarrow> bool" where
  "ownerAccepted cr ob \<longleftrightarrow>
     validateOwner cr ob = None
     \<and> (case GetControllerOf ob of None \<Rightarrow> True | Some e \<Rightarrow> referSameObject e (controllerRef cr))"

definition controlledBy :: "coroot \<Rightarrow> object \<Rightarrow> bool" where
  "controlledBy cr ob \<longleftrightarrow>
     list_ex (\<lambda>x. isController x \<and> referSameObject x (controllerRef cr)) (ownerReferences ob)"

definition foreignRefs :: "coroot \<Rightarrow> object \<Rightarrow> ownerReference list" where
  "foreignRefs cr ob = filter (\<lambda>x. \<not> referSameObject x (controllerRef cr)) (ownerReferences ob)"

text \<open>A mutate function that hands the owner references back as it received them.\<close>

definition keepsOwnerRefs :: "'v mutateFn option \<Rightarrow> bool" where
  "keepsOwnerRefs mf \<longleftrightarrow>
     (case mf of
        None \<Rightarrow> True
      | Some m \<Rightarrow> (\<forall>ob u. ownerReferences (fst (snd (m ob u))) = ownerReferences ob))"

text \<open>
  The reconciler after a non-deleting \<^verbatim>\<open>CreateOrUpdate\<close>, and the result that
  \<^verbatim>\<open>controllerutil.CreateOrUpdate\<close> hands back to it.
\<close>

definition applied ::
  "coroot \<Rightarrow> kind \<Rightarrow> object \<Rightarrow> bool \<Rightarrow> 'v mutateFn option \<Rightarrow> 'v \<Rightarrow> CorootReconciler \<Rightarrow> CorootReconciler" where
  "applied cr t ob retain mf v r = snd (CreateOrUpdate cr t ob False retain mf v r)"

definition outcome ::
  "coroot \<Rightarrow> kind \<Rightarrow> object \<Rightarrow> bool \<Rightarrow> 'v mutateFn option \<Rightarrow> 'v \<Rightarrow> CorootReconciler
     \<Rightarrow> error + operationResult" where
  "outcome cr t ob retain mf v r =
     fst (fst (controllerutil_CreateOrUpdate t ob (applyF cr retain mf) v (Client r)))"


text \<open>
  The deletes of one kind among the calls. A change of the reconciler is quiet when it
  keeps the registry, the flag of the legacy deployment and the instances of the cluster,
  only adds calls, and deletes no Deployment, ClusterRole or ClusterRoleBinding.
\<close>

fun deletes :: "kind \<Rightarrow> call \<Rightarrow> bool" where
  "deletes t (CallDelete t' ns n) = (t' = t)"
| "deletes t (CallGetCoroot q) = False"
| "deletes t (CallGet t' ns n) = False"
| "deletes t (CallCreate t' ob) = False"
| "deletes t (CallUpdate t' ob) = False"

definition guarded :: "call \<Rightarrow> bool" where
  "guarded x \<longleftrightarrow> deletes Deployment x \<or> deletes ClusterRole x \<or> deletes ClusterRoleBinding x"

definition quiet :: "CorootReconciler \<Rightarrow> CorootReconciler \<Rightarrow> bool" where
  "quiet r r' \<longleftrightarrow>
     instances r' = instances r \<and> deploymentDeleted r' = deploymentDeleted r
     \<and> coroots (Client r') = coroots (Client r)
     \<and> (\<exists>xs. calls (Client r') = calls (Client r) @ xs \<and> filter guarded xs = [])"

text \<open>
  The statements of \<^verbatim>\<open>Reconcile\<close> after the instance is fetched, in groups: those for the
  agents, those for coroot before the legacy deployment is deleted, the delete of the
  legacy deployment, and the statements after it.
\<close>

definition agentSteps :: "collaborators \<Rightarrow> coroot \<Rightarrow> (CorootReconciler \<Rightarrow> CorootReconciler) list" where
  "agentSteps c cr =
     [CreateOrUpdateRole cr (openshiftSCCRole c cr sccNonroot),
      CreateOrUpdateRole cr (openshiftSCCRole c cr sccPrivileged),
      CreateOrUpdateServiceAccount c cr ''node-agent'' sccPrivileged,
      CreateOrUpdateDaemonSet c cr (nodeAgentDaemonSet c cr),
      CreateOrUpdateServiceAccount c cr ''cluster-agent'' sccNonroot,
      CreateOrUpdateClusterRole cr (clusterAgentClusterRole c cr),
      CreateOrUpdateClusterRoleBinding cr (clusterAgentClusterRoleBinding c cr),
      CreateOrUpdateDeployment c cr (clusterAgentDeployment c cr)]"

definition corootSteps :: "collaborators \<Rightarrow> coroot \<Rightarrow> (CorootReconciler \<Rightarrow> CorootReconciler) list" where
  "corootSteps c cr =
     [CreateOrUpdateServiceAccount c cr ''coroot'' sccNonroot,
      run (map (\<lambda>pvc. CreateOrUpdatePVC c cr pvc (storageReclaimPolicy (Storage (crSpec cr))))
             (corootPVCs cr)),
      CreateOrUpdateStatefulSet c cr (corootStatefulSet c cr),
      CreateOrUpdateService c cr (corootService cr)]"

definition legacyStep :: "coroot \<Rightarrow> CorootReconciler \<Rightarrow> CorootReconciler" where
  "legacyStep cr r =
     (if \<not> deploymentDeleted r
      then (Delete Deployment (corootDeployment cr) r)\<lparr>deploymentDeleted := True\<rparr>
      else r)"

definition prometheusSteps :: "collaborators \<Rightarrow> coroot \<Rightarrow> (CorootReconciler \<Rightarrow> CorootReconciler) list" where
  "prometheusSteps c cr =
     [CreateOrUpdateServiceAccount c cr ''prometheus'' sccNonroot,
      CreateOrUpdatePVC c cr (prometheusPVC c cr) (storageReclaimPolicy (PrometheusStorage (crSpec cr))),
      CreateOrUpdateDeployment c cr (prometheusDeployment c cr),
      CreateOrUpdateService c cr (prometheusService c cr)]"

definition clickhouseSteps :: "collaborators \<Rightarrow> coroot \<Rightarrow> (CorootReconciler \<Rightarrow> CorootReconciler) list" where
  "clickhouseSteps c cr =
     [(\<lambda>r. snd (CreateOrUpdateSecret c cr ''clickhouse'' (crName cr @ ''-clickhouse'') ''password'' 16 r)),
      CreateOrUpdateServiceAccount c cr ''clickhouse-keeper'' sccNonroot,
      CreateOrUpdateService c cr (clickhouseKeeperServiceHeadless c cr),
      run (map (\<lambda>pvc. CreateOrUpdatePVC c cr pvc
                    (storageReclaimPolicy (ClickhouseKeeperStorage (crSpec cr))))
             (clickhouseKeeperPVCs c cr)),
      CreateOrUpdateStatefulSet c cr (clickhouseKeeperStatefulSet c cr),
      CreateOrUpdateServiceAccount c cr ''clickhouse'' sccNonroot,
      CreateOrUpdateService c cr (clickhouseServiceHeadless c cr),
      run (map (\<lambda>pvc. CreateOrUpdatePVC c cr pvc
                    (storageReclaimPolicy (ClickhouseStorage (crSpec cr))))
             (clickhousePVCs c cr)),
      run (map (CreateOrUpdateStatefulSet c cr) (clickhouseStatefulSets c cr)),
      CreateOrUpdateService c cr (clickhouseService c cr)]"

definition storageSteps :: "collaborators \<Rightarrow> coroot \<Rightarrow> (CorootReconciler \<Rightarrow> CorootReconciler) list" where
  "storageSteps c cr =
     [CreateOrUpdateIngress c cr (corootIngress cr) (IngressCfg (crSpec cr) = None),
      (\<lambda>r. if ExternalPrometheus (crSpec cr) = None then run (prometheusSteps c cr) r else r),
      (\<lambda>r. if ExternalClickhouse (crSpec cr) = None then run (clickhouseSteps c cr) r else r)]"

text \<open>The two statements of \<^verbatim>\<open>Reconcile\<close> under the lock, when the instance is not found.\<close>

definition registryStep :: "request \<Rightarrow> CorootReconciler \<Rightarrow> CorootReconciler" where
  "registryStep req r =
     (if instances r req = Some True
      then r\<lparr>logs := logs r @ [LogInfo ''Coroot has been deleted''],
             instances := (instances r)(req := None)\<rparr>
      else r)"

definition sharedStep :: "collaborators \<Rightarrow> request \<Rightarrow> CorootReconciler \<Rightarrow> CorootReconciler" where
  "sharedStep c req r =
     (if dom (instances r) = {}
      then Delete ClusterRole (clusterAgentClusterRole c (emptyCoroot\<lparr>crName := snd req, crNamespace := fst req\<rparr>))
             (Delete ClusterRoleBinding
                (clusterAgentClusterRoleBinding c (emptyCoroot\<lparr>crName := snd req, crNamespace := fst req\<rparr>)) r)
      else r)"

text \<open>
  Passes one after another. Before a pass starts the cluster may have changed in any
  way: the pass finds the objects, the instances and the answers to its calls as the
  world of the pass gives them. What stays is the reconciler and the record of calls.
\<close>

type_synonym world =
  "(kind \<times> string \<times> string \<rightharpoonup> object) \<times> (request \<rightharpoonup> coroot) \<times> error option list"

definition arrive :: "world \<Rightarrow> CorootReconciler \<Rightarrow> CorootReconciler" where
  "arrive w r = r\<lparr>Client := (Client r)\<lparr>objects := fst w, coroots := fst (snd w), faults := snd (snd w)\<rparr>\<rparr>"

definition pass :: "collaborators \<Rightarrow> request \<times> world \<Rightarrow> CorootReconciler \<Rightarrow> CorootReconciler" where
  "pass c p r = snd (Reconcile c (fst p) (arrive (snd p) r))"

definition passes :: "collaborators \<Rightarrow> (request \<times> world) list \<Rightarrow> CorootReconciler \<Rightarrow> CorootReconciler" where
  "passes c ps r = fold (pass c) ps r"

text \<open>What the instance fetch of a pass answers, and whether the pass is a full one.\<close>

definition answer :: "request \<times> world \<Rightarrow> error + coroot" where
  "answer p =
     (case snd (snd (snd p)) of
        Some e # fs \<Rightarrow> Inl e
      | _ \<Rightarrow> (case fst (snd (snd p)) (fst p) of None \<Rightarrow> Inl NotFound | Some cr \<Rightarrow> Inr cr))"

definition fullPass :: "request \<times> world \<Rightarrow> bool" where
  "fullPass p \<longleftrightarrow> (case answer p of Inl e \<Rightarrow> False | Inr cr \<Rightarrow> AgentsOnly (crSpec cr) = None)"

text \<open>
  The delete of the legacy deployment of an instance, and the deletes of the shared
  cluster-scoped objects that the pass for a request issues.
\<close>

definition legacyDelete :: "coroot \<Rightarrow> call" where
  "legacyDelete cr = CallDelete Deployment (crNamespace cr) (crName cr @ ''-coroot'')"

definition sharedDeletes :: "collaborators \<Rightarrow> request \<Rightarrow> call list" where
  "sharedDeletes c req =
     (let cr = emptyCoroot\<lparr>crName := snd req, crNamespace := fst req\<rparr>
      in [CallDelete ClusterRoleBinding (objNamespace (clusterAgentClusterRoleBinding c cr))
            (objName (clusterAgentClusterRoleBinding c cr)),
          CallDelete ClusterRole (objNamespace (clusterAgentClusterRole c cr))
            (objName (clusterAgentClusterRole c cr))])"

definition shared :: "call \<Rightarrow> bool" where
  "shared x \<longleftrightarrow> deletes ClusterRoleBinding x \<or> deletes ClusterRole x"

section \<open>Example inputs\<close>

text \<open>
  Stand-ins for the collaborators and a small cluster, on which the theorems below are
  instantiated.
\<close>

definition demoObject :: "string \<Rightarrow> coroot \<Rightarrow> object" where
  "demoObject suffix cr = emptyObject\<lparr>objNamespace := crNamespace cr, objName := crName cr @ suffix\<rparr>"

definition demoClusterObject :: "coroot \<Rightarrow> object" where
  "demoClusterObject cr = emptyObject\<lparr>objName := crName cr @ ''-cluster-agent''\<rparr>"

definition demoSCCRole :: "coroot \<Rightarrow> string \<Rightarrow> object" where
  "demoSCCRole cr scc = demoObject (''-'' @ scc) cr"

definition demoSCCRoleBinding :: "coroot \<Rightarrow> string \<Rightarrow> string \<Rightarrow> object" where
  "demoSCCRoleBinding cr component scc = demoObject (''-'' @ component) cr"

definition demoMergeSpecs :: "object \<Rightarrow> objectSpec \<Rightarrow> (string \<rightharpoonup> string) \<Rightarrow> error option \<times> object" where
  "demoMergeSpecs ob spec annotations = (None, ob\<lparr>objSpec := spec\<rparr>)"

definition demoRandomString :: "nat \<Rightarrow> int \<Rightarrow> string" where
  "demoRandomString n len = replicate (nat len) (digit (n mod 10))"

definition demoValidate :: "coroot \<Rightarrow> string list" where
  "demoValidate cr = [''postgres is required for replicas > 1'']"

definition demoTemplate :: "coroot \<Rightarrow> string" where
  "demoTemplate cr = ''pod''"

definition demoNone :: "coroot \<Rightarrow> object list" where
  "demoNone cr = []"

definition demoShards :: "coroot \<Rightarrow> object list" where
  "demoShards cr = [demoObject ''-clickhouse-shard-0'' cr]"

definition demoCollaborators :: collaborators where
  "demoCollaborators = \<lparr>
     MergeSpecs = demoMergeSpecs,
     RandomString = demoRandomString,
     corootValidate = demoValidate,
     openshiftSCCRole = demoSCCRole,
     openshiftSCCRoleBinding = demoSCCRoleBinding,
     clusterAgentClusterRole = demoClusterObject,
     clusterAgentClusterRoleBinding = demoClusterObject,
     clusterAgentDeployment = demoObject ''-cluster-agent'',
     nodeAgentPodTemplate = demoTemplate,
     corootPodTemplate = demoTemplate,
     prometheusPVC = demoObject ''-prometheus'',
     prometheusDeployment = demoObject ''-prometheus'',
     prometheusService = demoObject ''-prometheus'',
     clickhouseKeeperServiceHeadless = demoObject ''-clickhouse-keeper'',
     clickhouseKeeperPVCs = demoNone,
     clickhouseKeeperStatefulSet = demoObject ''-clickhouse-keeper'',
     clickhouseServiceHeadless = demoObject ''-clickhouse-headless'',
     clickhousePVCs = demoNone,
     clickhouseStatefulSets = demoShards,
     clickhouseService = demoObject ''-clickhouse''\<rparr>"

definition demoCoroot :: coroot where
  "demoCoroot = emptyCoroot\<lparr>crNamespace := ''ns'', crName := ''example'', crUID := ''uid-1''\<rparr>"

definition demoReconciler :: "error option list \<Rightarrow> CorootReconciler" where
  "demoReconciler fs = \<lparr>Client = \<lparr>objects = Map.empty, coroots = Map.empty, faults = fs, calls = []\<rparr>,
     instances = Map.empty, deploymentDeleted = False, logs = [], entropy = 0\<rparr>"

definition demoSecretCall :: "int \<Rightarrow> CorootReconciler \<Rightarrow> string \<times> CorootReconciler" where
  "demoSecretCall len r =
     CreateOrUpdateSecret demoCollaborators demoCoroot ''clickhouse'' ''example-clickhouse'' ''password'' len r"

definition demoCorootReplicas :: "64 word \<Rightarrow> coroot" where
  "demoCorootReplicas n = demoCoroot\<lparr>crSpec := (crSpec demoCoroot)\<lparr>Replicas := n\<rparr>\<rparr>"


definition demoReconcilerWith :: "kind \<Rightarrow> object \<Rightarrow> error option list \<Rightarrow> CorootReconciler" where
  "demoReconcilerWith t ob fs =
     \<lparr>Client = \<lparr>objects = [(t, objNamespace ob, objName ob) \<mapsto> ob], coroots = Map.empty,
        faults = fs, calls = []\<rparr>,
      instances = Map.empty, deploymentDeleted = False, logs = [], entropy = 0\<rparr>"

definition demoLiveRole :: object where
  "demoLiveRole = demoObject ''-nonroot'' demoCoroot"

definition demoRole :: object where
  "demoRole = (demoObject ''-nonroot'' demoCoroot)\<lparr>roleRules := [''use securitycontextconstraints nonroot'']\<rparr>"

definition demoMergedRole :: object where
  "demoMergedRole = (ownerStep demoCoroot False demoLiveRole)\<lparr>roleRules := roleRules demoRole\<rparr>"

definition demoConflict :: CorootReconciler where
  "demoConflict = demoReconcilerWith Role demoLiveRole [None, Some Conflict]"

definition demoIngressGone :: CorootReconciler where
  "demoIngressGone = demoReconciler []"

definition demoIngressLive :: CorootReconciler where
  "demoIngressLive = demoReconcilerWith Ingress (corootIngress demoCoroot) []"

definition demoIngressFailing :: CorootReconciler where
  "demoIngressFailing = demoReconcilerWith Ingress (corootIngress demoCoroot) [Some (Transport ''timeout'')]"


definition demoStatefulSet :: object where
  "demoStatefulSet = corootStatefulSet demoCollaborators demoCoroot"

definition demoLiveTemplates :: "claimTemplate list" where
  "demoLiveTemplates = [\<lparr>ctName = ''data'', ctNamespace = ''ns'', ctSpec = ''storage: 10Gi''\<rparr>]"

definition demoLiveStatefulSet :: object where
  "demoLiveStatefulSet = demoStatefulSet\<lparr>objSpec := (objSpec demoStatefulSet)
     \<lparr>specReplicas := Some 3, specVolumeClaimTemplates := demoLiveTemplates\<rparr>\<rparr>"

definition demoMergedStatefulSet :: object where
  "demoMergedStatefulSet = (ownerStep demoCoroot False demoLiveStatefulSet)
     \<lparr>objSpec := (objSpec demoStatefulSet)\<lparr>specVolumeClaimTemplates := demoLiveTemplates\<rparr>\<rparr>"

definition demoStatefulSetCluster :: CorootReconciler where
  "demoStatefulSetCluster = demoReconcilerWith StatefulSet demoLiveStatefulSet []"

definition demoForeignRef :: ownerReference where
  "demoForeignRef = \<lparr>refGroup = ''apps'', refKind = ''Deployment'', refName = ''platform-rbac'',
     refUID = ''uid-9'', refController = Some True, refBlockOwnerDeletion = Some True\<rparr>"

definition demoOwnedRole :: object where
  "demoOwnedRole = demoLiveRole\<lparr>ownerReferences := [demoForeignRef]\<rparr>"

definition demoOwnedCluster :: CorootReconciler where
  "demoOwnedCluster = demoReconcilerWith Role demoOwnedRole []"

definition demoClusterRole :: object where
  "demoClusterRole = (demoClusterObject demoCoroot)\<lparr>roleRules := [''get nodes'']\<rparr>"

definition demoPlainRef :: ownerReference where
  "demoPlainRef = \<lparr>refGroup = ''rbac.example.io'', refKind = ''Bundle'', refName = ''cluster-rbac'',
     refUID = ''uid-7'', refController = None, refBlockOwnerDeletion = None\<rparr>"

definition demoLiveClusterRole :: object where
  "demoLiveClusterRole =
     (demoClusterObject demoCoroot)\<lparr>ownerReferences := [demoPlainRef, controllerRef demoCoroot]\<rparr>"

definition demoClusterRoleCluster :: CorootReconciler where
  "demoClusterRoleCluster = demoReconcilerWith ClusterRole demoLiveClusterRole []"

definition demoWrittenRole :: object where
  "demoWrittenRole = demoOwnedRole\<lparr>roleRules := roleRules demoRole\<rparr>"

definition demoWrittenClusterRole :: object where
  "demoWrittenClusterRole =
     demoLiveClusterRole\<lparr>ownerReferences := [demoPlainRef], roleRules := roleRules demoClusterRole\<rparr>"

text \<open>
  A live cluster role with two references that name the instance: the first is not a
  controller reference, the second is.
\<close>

definition demoShadowRef :: ownerReference where
  "demoShadowRef = (controllerRef demoCoroot)\<lparr>refController := None, refBlockOwnerDeletion := None\<rparr>"

definition demoShadowedClusterRole :: object where
  "demoShadowedClusterRole =
     (demoClusterObject demoCoroot)\<lparr>ownerReferences := [demoShadowRef, controllerRef demoCoroot]\<rparr>"

definition demoShadowedCluster :: CorootReconciler where
  "demoShadowedCluster = demoReconcilerWith ClusterRole demoShadowedClusterRole []"

definition demoWrittenShadowed :: object where
  "demoWrittenShadowed = demoShadowedClusterRole\<lparr>roleRules := roleRules demoClusterRole\<rparr>"

definition demoCreatedRole :: object where
  "demoCreatedRole = demoRole\<lparr>ownerReferences := [controllerRef demoCoroot]\<rparr>"



text \<open>A live secret that lacks the key, and calls on it with two lengths.\<close>

definition demoLiveSecret :: object where
  "demoLiveSecret = (secretObject demoCoroot ''clickhouse'' ''example-clickhouse'')
     \<lparr>secretData := [''user'' \<mapsto> ''default'']\<rparr>"

definition demoSecretCluster :: CorootReconciler where
  "demoSecretCluster = demoReconcilerWith Secret demoLiveSecret []"

definition demoKeyedSecret :: object where
  "demoKeyedSecret = (ownerStep demoCoroot False demoLiveSecret)
     \<lparr>secretData := [''user'' \<mapsto> ''default'', ''password'' \<mapsto> ''000'']\<rparr>"

definition demoFailedCreate :: CorootReconciler where
  "demoFailedCreate = demoReconciler [None, Some (Transport ''timeout'')]"

definition demoFailedFetch :: CorootReconciler where
  "demoFailedFetch = demoReconcilerWith Secret demoKeyedSecret [Some (Transport ''timeout'')]"
section \<open>Properties of the client and of the apply step\<close>


lemma advance_sel [simp]:
  "calls (advance c k) = calls k @ [c]"
  "objects (advance c k) = objects k"
  "coroots (advance c k) = coroots k"
  "faults (advance c k) = tl (faults k)"
  by (simp_all add: advance_def)

lemma client_Get_cases:
  "client_Get t ns n k =
     (case nextFault k of
        Some e \<Rightarrow> (Inl e, advance (CallGet t ns n) k)
      | None \<Rightarrow> (case objects k (t, ns, n) of
            None \<Rightarrow> (Inl NotFound, advance (CallGet t ns n) k)
          | Some ob \<Rightarrow> (Inr ob, advance (CallGet t ns n) k)))"
  by (simp add: client_Get_def issue_def split: option.splits)

lemma client_Get_snd [simp]: "snd (client_Get t ns n k) = advance (CallGet t ns n) k"
  by (simp add: client_Get_cases split: option.splits)

lemma client_Get_found:
  "fst (client_Get t ns n k) = Inr ob \<longleftrightarrow> nextFault k = None \<and> objects k (t, ns, n) = Some ob"
  by (auto simp add: client_Get_cases split: option.splits)

lemma client_Create_cases:
  "client_Create t ob k =
     (case nextFault k of
        Some e \<Rightarrow> (Some e, advance (CallCreate t ob) k)
      | None \<Rightarrow> (case objects k (t, objNamespace ob, objName ob) of
            Some _ \<Rightarrow> (Some AlreadyExists, advance (CallCreate t ob) k)
          | None \<Rightarrow> (None, (advance (CallCreate t ob) k)
                \<lparr>objects := (objects k)((t, objNamespace ob, objName ob) \<mapsto> ob)\<rparr>)))"
  by (simp add: client_Create_def issue_def split: option.splits)

lemma client_Update_cases:
  "client_Update t ob k =
     (case nextFault k of
        Some e \<Rightarrow> (Some e, advance (CallUpdate t ob) k)
      | None \<Rightarrow> (case objects k (t, objNamespace ob, objName ob) of
            None \<Rightarrow> (Some NotFound, advance (CallUpdate t ob) k)
          | Some _ \<Rightarrow> (None, (advance (CallUpdate t ob) k)
                \<lparr>objects := (objects k)((t, objNamespace ob, objName ob) \<mapsto> ob)\<rparr>)))"
  by (simp add: client_Update_def issue_def split: option.splits)

lemma client_Delete_cases:
  "client_Delete t ob k =
     (case nextFault k of
        Some e \<Rightarrow> (Some e, advance (CallDelete t (objNamespace ob) (objName ob)) k)
      | None \<Rightarrow> (case objects k (t, objNamespace ob, objName ob) of
            None \<Rightarrow> (Some NotFound, advance (CallDelete t (objNamespace ob) (objName ob)) k)
          | Some _ \<Rightarrow> (None, (advance (CallDelete t (objNamespace ob) (objName ob)) k)
                \<lparr>objects := (objects k)((t, objNamespace ob, objName ob) := None)\<rparr>)))"
  by (simp add: client_Delete_def issue_def split: option.splits)

lemma ownerStep_frame [simp]:
  "secretData (ownerStep cr retain ob) = secretData ob"
  "objNamespace (ownerStep cr retain ob) = objNamespace ob"
  "objName (ownerStep cr retain ob) = objName ob"
  "objSpec (ownerStep cr retain ob) = objSpec ob"
  "roleRules (ownerStep cr retain ob) = roleRules ob"
  "objLabels (ownerStep cr retain ob) = objLabels ob"
  "objAnnotations (ownerStep cr retain ob) = objAnnotations ob"
  by (simp_all add: ownerStep_def RemoveControllerReference_def SetControllerReference_def
      upsertOwnerRef_def split: option.splits)

lemma cou_fetch_error:
  assumes "fst (client_Get t (objNamespace ob) (objName ob) k) = Inl e" "e \<noteq> NotFound"
  shows "controllerutil_CreateOrUpdate t ob f v k = ((Inl e, v), advance (CallGet t (objNamespace ob) (objName ob)) k)"
proof -
  obtain res k1 where g: "client_Get t (objNamespace ob) (objName ob) k = (res, k1)"
    by (cases "client_Get t (objNamespace ob) (objName ob) k")
  with assms have "res = Inl e" by simp
  moreover from g have "k1 = advance (CallGet t (objNamespace ob) (objName ob)) k"
    using client_Get_snd [of t "objNamespace ob" "objName ob" k] by simp
  ultimately show ?thesis using g assms(2)
    by (simp add: controllerutil_CreateOrUpdate_def)
qed

lemma cou_absent:
  assumes "fst (client_Get t (objNamespace ob) (objName ob) k) = Inl NotFound"
  shows "controllerutil_CreateOrUpdate t ob f v k =
     (case mutate f ob v of
        (Some e', ob', v') \<Rightarrow> ((Inl e', v'), advance (CallGet t (objNamespace ob) (objName ob)) k)
      | (None, ob', v') \<Rightarrow>
          (case client_Create t ob' (advance (CallGet t (objNamespace ob) (objName ob)) k) of
             (Some e', k2) \<Rightarrow> ((Inl e', v'), k2)
           | (None, k2) \<Rightarrow> ((Inr OperationResultCreated, v'), k2)))"
proof -
  obtain res k1 where g: "client_Get t (objNamespace ob) (objName ob) k = (res, k1)"
    by (cases "client_Get t (objNamespace ob) (objName ob) k")
  with assms have "res = Inl NotFound" by simp
  moreover from g have "k1 = advance (CallGet t (objNamespace ob) (objName ob)) k"
    using client_Get_snd [of t "objNamespace ob" "objName ob" k] by simp
  ultimately show ?thesis using g
    by (simp add: controllerutil_CreateOrUpdate_def)
qed

lemma cou_found:
  assumes "fst (client_Get t (objNamespace ob) (objName ob) k) = Inr live"
  shows "controllerutil_CreateOrUpdate t ob f v k =
     (case mutate f live v of
        (Some e', ob', v') \<Rightarrow> ((Inl e', v'), advance (CallGet t (objNamespace ob) (objName ob)) k)
      | (None, ob', v') \<Rightarrow>
          (if live = ob' then ((Inr OperationResultNone, v'), advance (CallGet t (objNamespace ob) (objName ob)) k)
           else (case client_Update t ob' (advance (CallGet t (objNamespace ob) (objName ob)) k) of
               (Some e', k2) \<Rightarrow> ((Inl e', v'), k2)
             | (None, k2) \<Rightarrow> ((Inr OperationResultUpdated, v'), k2))))"
proof -
  obtain res k1 where g: "client_Get t (objNamespace ob) (objName ob) k = (res, k1)"
    by (cases "client_Get t (objNamespace ob) (objName ob) k")
  with assms have "res = Inr live" by simp
  moreover from g have "k1 = advance (CallGet t (objNamespace ob) (objName ob)) k"
    using client_Get_snd [of t "objNamespace ob" "objName ob" k] by simp
  ultimately show ?thesis using g
    by (simp add: controllerutil_CreateOrUpdate_def)
qed

lemma mutate_secret:
  "mutate (applyF cr retain (Some (secretMutate c key len))) ob (d0, n) =
     (case secretData ob key of
        Some d \<Rightarrow> (None, ownerStep cr retain ob, (d, n))
      | None \<Rightarrow> (None, (ownerStep cr retain ob)\<lparr>secretData := (secretData ob)(key \<mapsto> RandomString c n len)\<rparr>,
                 (RandomString c n len, Suc n)))"
  by (simp add: mutate_def applyF_def secretMutate_def Let_def split: option.splits)


lemma CreateOrUpdate_fetch_error:
  assumes "fst (client_Get t (objNamespace ob) (objName ob) (Client r)) = Inl e" "e \<noteq> NotFound"
  shows "CreateOrUpdate cr t ob False retain mf v r =
     (v, r\<lparr>Client := advance (CallGet t (objNamespace ob) (objName ob)) (Client r),
           logs := logs r @ [LogError e ''failed to create or update'']\<rparr>)"
  by (simp add: CreateOrUpdate_def cou_fetch_error [OF assms])

lemma CreateOrUpdate_absent_mutate_error:
  assumes "fst (client_Get t (objNamespace ob) (objName ob) (Client r)) = Inl NotFound"
    and "mutate (applyF cr retain mf) ob v = (Some e, ob', v')"
  shows "CreateOrUpdate cr t ob False retain mf v r =
     (v', r\<lparr>Client := advance (CallGet t (objNamespace ob) (objName ob)) (Client r),
           logs := logs r @ [LogError e ''failed to create or update'']\<rparr>)"
  by (simp add: CreateOrUpdate_def cou_absent [OF assms(1)] assms(2))

lemma CreateOrUpdate_absent:
  assumes "fst (client_Get t (objNamespace ob) (objName ob) (Client r)) = Inl NotFound"
    and "mutate (applyF cr retain mf) ob v = (None, ob', v')"
  shows "CreateOrUpdate cr t ob False retain mf v r =
     (case client_Create t ob' (advance (CallGet t (objNamespace ob) (objName ob)) (Client r)) of
        (Some e, k2) \<Rightarrow> (v', r\<lparr>Client := k2, logs := logs r @ [LogError e ''failed to create or update'']\<rparr>)
      | (None, k2) \<Rightarrow> (v', r\<lparr>Client := k2, logs := logs r @ [LogInfo ''created'']\<rparr>))"
  by (simp add: CreateOrUpdate_def cou_absent [OF assms(1)] assms(2) string_of_result_def
      split: prod.splits option.splits)

lemma CreateOrUpdate_found_mutate_error:
  assumes "fst (client_Get t (objNamespace ob) (objName ob) (Client r)) = Inr live"
    and "mutate (applyF cr retain mf) live v = (Some e, ob', v')"
  shows "CreateOrUpdate cr t ob False retain mf v r =
     (v', r\<lparr>Client := advance (CallGet t (objNamespace ob) (objName ob)) (Client r),
           logs := logs r @ [LogError e ''failed to create or update'']\<rparr>)"
  by (simp add: CreateOrUpdate_def cou_found [OF assms(1)] assms(2))

lemma CreateOrUpdate_found_unchanged:
  assumes "fst (client_Get t (objNamespace ob) (objName ob) (Client r)) = Inr live"
    and "mutate (applyF cr retain mf) live v = (None, live, v')"
  shows "CreateOrUpdate cr t ob False retain mf v r =
     (v', r\<lparr>Client := advance (CallGet t (objNamespace ob) (objName ob)) (Client r)\<rparr>)"
  by (simp add: CreateOrUpdate_def cou_found [OF assms(1)] assms(2))

lemma CreateOrUpdate_found_changed:
  assumes "fst (client_Get t (objNamespace ob) (objName ob) (Client r)) = Inr live"
    and "mutate (applyF cr retain mf) live v = (None, ob', v')" and "live \<noteq> ob'"
  shows "CreateOrUpdate cr t ob False retain mf v r =
     (case client_Update t ob' (advance (CallGet t (objNamespace ob) (objName ob)) (Client r)) of
        (Some e, k2) \<Rightarrow> (v', r\<lparr>Client := k2, logs := logs r @ [LogError e ''failed to create or update'']\<rparr>)
      | (None, k2) \<Rightarrow> (v', r\<lparr>Client := k2, logs := logs r @ [LogInfo ''updated'']\<rparr>))"
  by (simp add: CreateOrUpdate_def cou_found [OF assms(1)] assms(2,3) string_of_result_def
      split: prod.splits option.splits)

lemma secretObject_sel [simp]:
  "objName (secretObject cr component name) = name"
  "objNamespace (secretObject cr component name) = crNamespace cr"
  "secretData (secretObject cr component name) = Map.empty"
  by (simp_all add: secretObject_def emptyObject_def)

lemma CreateOrUpdateSecret_alt:
  "CreateOrUpdateSecret c cr component name key len r =
     (case CreateOrUpdate cr Secret (secretObject cr component name) False False
             (Some (secretMutate c key len)) ([], entropy r) r of
        ((d, n), r') \<Rightarrow> (d, r'\<lparr>entropy := n\<rparr>))"
  by (simp add: CreateOrUpdateSecret_def secretObject_def)

lemma secret_present:
  assumes f: "fst (client_Get Secret (crNamespace cr) name (Client r)) = Inr live"
    and v: "secretData live key = Some v"
    and id: "objNamespace live = crNamespace cr" "objName live = name"
  shows "fst (CreateOrUpdateSecret c cr component name key len r) = v
    \<and> entropy (snd (CreateOrUpdateSecret c cr component name key len r)) = entropy r
    \<and> (\<exists>ob. objects (Client (snd (CreateOrUpdateSecret c cr component name key len r)))
                 (Secret, crNamespace cr, name) = Some ob \<and> secretData ob = secretData live
               \<and> objNamespace ob = crNamespace cr \<and> objName ob = name)"
proof -
  let ?s = "secretObject cr component name"
  have f': "fst (client_Get Secret (objNamespace ?s) (objName ?s) (Client r)) = Inr live"
    using f by simp
  have m: "mutate (applyF cr False (Some (secretMutate c key len))) live ([], entropy r)
             = (None, ownerStep cr False live, (v, entropy r))"
    by (simp add: mutate_secret v)
  have st: "objects (Client r) (Secret, crNamespace cr, name) = Some live"
    using f by (simp add: client_Get_found)
  show ?thesis
  proof (cases "live = ownerStep cr False live")
    case True
    with m have m': "mutate (applyF cr False (Some (secretMutate c key len))) live ([], entropy r)
             = (None, live, (v, entropy r))" by simp
    show ?thesis
      using st id by (simp add: CreateOrUpdateSecret_alt CreateOrUpdate_found_unchanged [OF f' m'])
  next
    case False
    show ?thesis
      using st id
      by (simp add: CreateOrUpdateSecret_alt CreateOrUpdate_found_changed [OF f' m False]
          client_Update_cases split: option.splits)
  qed
qed

lemma client_Get_absent:
  "nextFault k = None \<Longrightarrow> objects k (t, ns, n) = None \<Longrightarrow> fst (client_Get t ns n k) = Inl NotFound"
  by (simp add: client_Get_cases)

lemma secret_absent_notfound:
  assumes f: "fst (client_Get Secret (crNamespace cr) name (Client r)) = Inl NotFound"
  shows "fst (CreateOrUpdateSecret c cr component name key len r) = RandomString c (entropy r) len
    \<and> entropy (snd (CreateOrUpdateSecret c cr component name key len r)) = Suc (entropy r)
    \<and> (\<exists>ob. calls (Client (snd (CreateOrUpdateSecret c cr component name key len r)))
               = calls (Client r) @ [CallGet Secret (crNamespace cr) name, CallCreate Secret ob]
            \<and> objNamespace ob = crNamespace cr \<and> objName ob = name
            \<and> secretData ob = [key \<mapsto> RandomString c (entropy r) len]
            \<and> (nextFault (advance (CallGet Secret (crNamespace cr) name) (Client r)) = None
                 \<and> objects (Client r) (Secret, crNamespace cr, name) = None
               \<longrightarrow> objects (Client (snd (CreateOrUpdateSecret c cr component name key len r)))
                     (Secret, crNamespace cr, name) = Some ob))"
proof -
  let ?s = "secretObject cr component name"
  let ?d = "RandomString c (entropy r) len"
  let ?ob = "(ownerStep cr False ?s)\<lparr>secretData := (secretData ?s)(key \<mapsto> ?d)\<rparr>"
  have f': "fst (client_Get Secret (objNamespace ?s) (objName ?s) (Client r)) = Inl NotFound"
    using f by simp
  have m: "mutate (applyF cr False (Some (secretMutate c key len))) ?s ([], entropy r)
             = (None, ?ob, (?d, Suc (entropy r)))"
    by (simp add: mutate_secret)
  show ?thesis
    by (simp add: CreateOrUpdateSecret_alt CreateOrUpdate_absent [OF f' m]
          client_Create_cases split: option.splits)
qed

lemma secret_absent_found:
  assumes f: "fst (client_Get Secret (crNamespace cr) name (Client r)) = Inr live"
    and v: "secretData live key = None"
    and id: "objNamespace live = crNamespace cr" "objName live = name"
  shows "fst (CreateOrUpdateSecret c cr component name key len r) = RandomString c (entropy r) len
    \<and> entropy (snd (CreateOrUpdateSecret c cr component name key len r)) = Suc (entropy r)
    \<and> (\<exists>ob. calls (Client (snd (CreateOrUpdateSecret c cr component name key len r)))
               = calls (Client r) @ [CallGet Secret (crNamespace cr) name, CallUpdate Secret ob]
            \<and> objNamespace ob = crNamespace cr \<and> objName ob = name
            \<and> secretData ob = (secretData live)(key \<mapsto> RandomString c (entropy r) len)
            \<and> (nextFault (advance (CallGet Secret (crNamespace cr) name) (Client r)) = None
               \<longrightarrow> objects (Client (snd (CreateOrUpdateSecret c cr component name key len r)))
                     (Secret, crNamespace cr, name) = Some ob))"
proof -
  let ?s = "secretObject cr component name"
  let ?d = "RandomString c (entropy r) len"
  let ?ob = "(ownerStep cr False live)\<lparr>secretData := (secretData live)(key \<mapsto> ?d)\<rparr>"
  have f': "fst (client_Get Secret (objNamespace ?s) (objName ?s) (Client r)) = Inr live"
    using f by simp
  have m: "mutate (applyF cr False (Some (secretMutate c key len))) live ([], entropy r)
             = (None, ?ob, (?d, Suc (entropy r)))"
    by (simp add: mutate_secret v)
  have "secretData ?ob key \<noteq> secretData live key"
    using v by simp
  then have ne: "live \<noteq> ?ob" by metis
  have st: "objects (Client r) (Secret, crNamespace cr, name) = Some live"
    using f by (simp add: client_Get_found)
  show ?thesis
    using st id
    by (simp add: CreateOrUpdateSecret_alt CreateOrUpdate_found_changed [OF f' m ne]
          client_Update_cases split: option.splits)
qed


lemma failures_simps [simp]:
  "failures (r\<lparr>Client := k\<rparr>) = failures r"
  "failures (r\<lparr>entropy := n\<rparr>) = failures r"
  "failures (r\<lparr>logs := logs r @ [LogInfo m]\<rparr>) = failures r"
  "failures (r\<lparr>logs := logs r @ [LogError e m]\<rparr>) \<noteq> failures r"
  "failures (r\<lparr>Client := k, logs := logs r @ [LogInfo m]\<rparr>) = failures r"
  "failures (r\<lparr>Client := k, logs := logs r @ [LogError e m]\<rparr>) \<noteq> failures r"
  by (simp_all add: failures_def)

lemma secret_kept_errorfree:
  assumes ok: "failures (snd (CreateOrUpdateSecret c cr component name key len r)) = failures r"
    and wf: "\<forall>ob. objects (Client r) (Secret, crNamespace cr, name) = Some ob
                 \<longrightarrow> objNamespace ob = crNamespace cr \<and> objName ob = name"
  shows "\<exists>ob. objects (Client (snd (CreateOrUpdateSecret c cr component name key len r)))
                 (Secret, crNamespace cr, name) = Some ob
            \<and> secretData ob key = Some (fst (CreateOrUpdateSecret c cr component name key len r))
            \<and> objNamespace ob = crNamespace cr \<and> objName ob = name"
proof -
  let ?s = "secretObject cr component name"
  let ?g = "CallGet Secret (crNamespace cr) name"
  let ?d = "RandomString c (entropy r) len"
  show ?thesis
  proof (cases "fst (client_Get Secret (crNamespace cr) name (Client r))")
    case (Inl e)
    show ?thesis
    proof (cases "e = NotFound")
      case False
      have fe: "fst (client_Get Secret (objNamespace ?s) (objName ?s) (Client r)) = Inl e"
        using Inl by simp
      show ?thesis using ok
        by (simp add: CreateOrUpdateSecret_alt CreateOrUpdate_fetch_error [OF fe False])
    next
      case True
      let ?ob = "(ownerStep cr False ?s)\<lparr>secretData := (secretData ?s)(key \<mapsto> ?d)\<rparr>"
      have f': "fst (client_Get Secret (objNamespace ?s) (objName ?s) (Client r)) = Inl NotFound"
        using Inl True by simp
      have m: "mutate (applyF cr False (Some (secretMutate c key len))) ?s ([], entropy r)
             = (None, ?ob, (?d, Suc (entropy r)))"
        by (simp add: mutate_secret)
      show ?thesis using ok
        by (simp add: CreateOrUpdateSecret_alt CreateOrUpdate_absent [OF f' m]
            client_Create_cases split: option.splits)
    qed
  next
    case (Inr live)
    then have st: "objects (Client r) (Secret, crNamespace cr, name) = Some live"
      by (simp add: client_Get_found)
    with wf have id: "objNamespace live = crNamespace cr" "objName live = name" by simp_all
    have f': "fst (client_Get Secret (objNamespace ?s) (objName ?s) (Client r)) = Inr live"
      using Inr by simp
    show ?thesis
    proof (cases "secretData live key")
      case (Some v)
      from secret_present [OF Inr Some id, of c component len]
      show ?thesis using Some by auto
    next
      case None
      let ?ob = "(ownerStep cr False live)\<lparr>secretData := (secretData live)(key \<mapsto> ?d)\<rparr>"
      have m: "mutate (applyF cr False (Some (secretMutate c key len))) live ([], entropy r)
             = (None, ?ob, (?d, Suc (entropy r)))"
        by (simp add: mutate_secret None)
      have "secretData ?ob key \<noteq> secretData live key"
        using None by simp
      then have ne: "live \<noteq> ?ob" by metis
      show ?thesis using ok st id
        by (simp add: CreateOrUpdateSecret_alt CreateOrUpdate_found_changed [OF f' m ne]
            client_Update_cases split: option.splits)
    qed
  qed
qed

lemma secret_second_call:
  assumes ok: "failures (snd (CreateOrUpdateSecret c cr component name key len r)) = failures r"
    and st: "objects (Client r) (Secret, crNamespace cr, name) = Some ob"
    and v: "secretData ob key = Some v"
    and id: "objNamespace ob = crNamespace cr" "objName ob = name"
  shows "fst (CreateOrUpdateSecret c cr component name key len r) = v"
proof -
  let ?s = "secretObject cr component name"
  let ?d = "RandomString c (entropy r) len"
  show ?thesis
  proof (cases "fst (client_Get Secret (crNamespace cr) name (Client r))")
    case (Inl e)
    show ?thesis
    proof (cases "e = NotFound")
      case False
      have fe: "fst (client_Get Secret (objNamespace ?s) (objName ?s) (Client r)) = Inl e"
        using Inl by simp
      show ?thesis using ok
        by (simp add: CreateOrUpdateSecret_alt CreateOrUpdate_fetch_error [OF fe False])
    next
      case True
      let ?ob = "(ownerStep cr False ?s)\<lparr>secretData := (secretData ?s)(key \<mapsto> ?d)\<rparr>"
      have f': "fst (client_Get Secret (objNamespace ?s) (objName ?s) (Client r)) = Inl NotFound"
        using Inl True by simp
      have m: "mutate (applyF cr False (Some (secretMutate c key len))) ?s ([], entropy r)
             = (None, ?ob, (?d, Suc (entropy r)))"
        by (simp add: mutate_secret)
      show ?thesis using ok st
        by (simp add: CreateOrUpdateSecret_alt CreateOrUpdate_absent [OF f' m]
            client_Create_cases split: option.splits)
    qed
  next
    case (Inr live)
    then have "objects (Client r) (Secret, crNamespace cr, name) = Some live"
      by (simp add: client_Get_found)
    with st have "live = ob" by simp
    with secret_present [OF Inr _ _ _, of key v c component len] v id
    show ?thesis by simp
  qed
qed


lemma CreateOrUpdateSecret_absent_eq:
  assumes f: "fst (client_Get Secret (crNamespace cr) name (Client r)) = Inl NotFound"
  shows "CreateOrUpdateSecret c cr component name key len r =
     (RandomString c (entropy r) len,
      case client_Create Secret
             ((ownerStep cr False (secretObject cr component name))
                \<lparr>secretData := [key \<mapsto> RandomString c (entropy r) len]\<rparr>)
             (advance (CallGet Secret (crNamespace cr) name) (Client r)) of
        (Some e, k2) \<Rightarrow> r\<lparr>Client := k2, logs := logs r @ [LogError e ''failed to create or update''],
                           entropy := Suc (entropy r)\<rparr>
      | (None, k2) \<Rightarrow> r\<lparr>Client := k2, logs := logs r @ [LogInfo ''created''],
                         entropy := Suc (entropy r)\<rparr>)"
proof -
  let ?s = "secretObject cr component name"
  let ?d = "RandomString c (entropy r) len"
  let ?ob = "(ownerStep cr False ?s)\<lparr>secretData := (secretData ?s)(key \<mapsto> ?d)\<rparr>"
  have f': "fst (client_Get Secret (objNamespace ?s) (objName ?s) (Client r)) = Inl NotFound"
    using f by simp
  have m: "mutate (applyF cr False (Some (secretMutate c key len))) ?s ([], entropy r)
             = (None, ?ob, (?d, Suc (entropy r)))"
    by (simp add: mutate_secret)
  show ?thesis
    by (simp add: CreateOrUpdateSecret_alt CreateOrUpdate_absent [OF f' m]
          split: prod.splits option.splits)
qed

lemma demoCollaborators_sel [simp]:
  "MergeSpecs demoCollaborators = demoMergeSpecs"
  "RandomString demoCollaborators = demoRandomString"
  "corootValidate demoCollaborators = demoValidate"
  by (simp_all add: demoCollaborators_def)

lemma demoCoroot_sel [simp]:
  "crNamespace demoCoroot = ''ns''" "crName demoCoroot = ''example''" "crUID demoCoroot = ''uid-1''"
  by (simp_all add: demoCoroot_def)

lemma demoReconciler_sel [simp]:
  "Client (demoReconciler fs) = \<lparr>objects = Map.empty, coroots = Map.empty, faults = fs, calls = []\<rparr>"
  "instances (demoReconciler fs) = Map.empty"
  "deploymentDeleted (demoReconciler fs) = False"
  "logs (demoReconciler fs) = []"
  "entropy (demoReconciler fs) = 0"
  by (simp_all add: demoReconciler_def)

lemma digit_simps: "digit 0 = CHR ''0''" "digit (Suc 0) = CHR ''1''"
  by (simp_all add: digit_def)

lemma r1: "demoRandomString 0 3 = ''000''"
  by (simp add: demoRandomString_def digit_simps numeral_3_eq_3)

lemma r2: "demoRandomString 1 3 = ''111''"
  by (simp add: demoRandomString_def digit_simps numeral_3_eq_3)

lemma demo_first_call:
  "demoSecretCall 3 (demoReconciler [None, Some (Transport ''timeout'')]) =
     (''000'',
      \<lparr>Client = \<lparr>objects = Map.empty, coroots = Map.empty, faults = [],
         calls = [CallGet Secret ''ns'' ''example-clickhouse'',
                  CallCreate Secret ((ownerStep demoCoroot False (secretObject demoCoroot ''clickhouse'' ''example-clickhouse''))
                \<lparr>secretData := [''password'' \<mapsto> ''000'']\<rparr>)]\<rparr>,
       instances = Map.empty, deploymentDeleted = False,
       logs = [LogError (Transport ''timeout'') ''failed to create or update''], entropy = Suc 0\<rparr>)"
proof -
  have "fst (client_Get Secret (crNamespace demoCoroot) ''example-clickhouse''
          (Client (demoReconciler [None, Some (Transport ''timeout'')]))) = Inl NotFound"
    by (simp add: client_Get_cases nextFault_def)
  from CreateOrUpdateSecret_absent_eq [OF this] show ?thesis
    by (simp add: demoSecretCall_def client_Create_cases nextFault_def advance_def r1 demoReconciler_def)
qed



subsection \<open>Replica counts\<close>

lemma sint_int32_conversion:
  fixes w :: "64 word"
  shows "sint (ucast w :: 32 word) = signed_take_bit 31 (sint w)"
proof -
  have "sint (ucast w :: 32 word) = signed_take_bit 31 (uint w)"
    by (simp add: signed_ucast_eq)
  also have "\<dots> = signed_take_bit 31 (take_bit 64 (sint w))"
    by (simp add: uint_sint)
  also have "\<dots> = signed_take_bit 31 (sint w)"
    by (simp add: signed_take_bit_take_bit)
  finally show ?thesis .
qed

lemma sint_int32_in_range:
  fixes w :: "64 word"
  assumes "- (2 ^ 31) \<le> sint w" "sint w < 2 ^ 31"
  shows "sint (ucast w :: 32 word) = sint w"
  using assms by (simp add: sint_int32_conversion signed_take_bit_int_eq_self)

lemma statefulSet_replicas:
  "specReplicas (objSpec (corootStatefulSet c cr)) =
     Some (if sint (ucast (Replicas (crSpec cr)) :: 32 word) \<le> 0 then 1 else ucast (Replicas (crSpec cr)))"
  by (simp add: corootStatefulSet_def Let_def emptyObject_def emptySpec_def)

lemma length_corootPVCs:
  "length (corootPVCs cr) =
     (if Replicas (crSpec cr) = 0 then 1 else nat (sint (Replicas (crSpec cr))))"
  by (simp add: corootPVCs_def Let_def)

lemma demoCorootReplicas_sel [simp]: "Replicas (crSpec (demoCorootReplicas n)) = n"
  by (simp add: demoCorootReplicas_def)


subsection \<open>Owner references\<close>

lemma indexOwnerRef_None: "indexOwnerRef rs ref = None \<longleftrightarrow> (\<forall>x\<in>set rs. \<not> referSameObject x ref)"
  by (induction rs) auto

lemma indexOwnerRef_Some:
  "indexOwnerRef rs ref = Some i \<Longrightarrow>
     i < length rs \<and> referSameObject (rs ! i) ref \<and> (\<forall>j<i. \<not> referSameObject (rs ! j) ref)"
proof (induction rs arbitrary: i)
  case Nil
  then show ?case by simp
next
  case (Cons a rs)
  show ?case
  proof (cases "referSameObject a ref")
    case True
    with Cons.prems show ?thesis by simp
  next
    case False
    with Cons.prems obtain i' where i': "indexOwnerRef rs ref = Some i'" "i = Suc i'"
      by auto
    from Cons.IH [OF i'(1)] False i'(2) show ?thesis
      by (auto simp: less_Suc_eq_0_disj)
  qed
qed


lemma ownerStep_only_refs:
  "ownerStep cr retain ob = ob\<lparr>ownerReferences := ownerReferences (ownerStep cr retain ob)\<rparr>"
  by (simp add: ownerStep_def RemoveControllerReference_def SetControllerReference_def
      upsertOwnerRef_def split: option.splits)


lemma refer_self [simp]: "referSameObject x x"
  by (simp add: referSameObject_def)

lemma controllerRef_isController [simp]: "isController (controllerRef cr)"
  by (simp add: isController_def controllerRef_def)

text \<open>Setting the controller reference.\<close>

lemma set_reference_ok:
  assumes "validateOwner cr ob = None"
    and "\<forall>e. GetControllerOf ob = Some e \<longrightarrow> referSameObject e (controllerRef cr)"
  shows "controllerRef cr \<in> set (ownerReferences (ownerStep cr False ob))"
proof -
  have st: "ownerStep cr False ob = upsertOwnerRef (controllerRef cr) ob"
    using assms by (auto simp: ownerStep_def SetControllerReference_def split: option.splits)
  show ?thesis
  proof (cases "indexOwnerRef (ownerReferences ob) (controllerRef cr)")
    case None
    then show ?thesis by (simp add: st upsertOwnerRef_def)
  next
    case (Some i)
    from indexOwnerRef_Some [OF Some] have "i < length (ownerReferences ob)" by simp
    then show ?thesis using Some by (simp add: st upsertOwnerRef_def set_update_memI)
  qed
qed

lemma set_reference_refused:
  assumes "validateOwner cr ob \<noteq> None
    \<or> (\<exists>e. GetControllerOf ob = Some e \<and> \<not> referSameObject e (controllerRef cr))"
  shows "ownerStep cr False ob = ob"
  using assms by (auto simp: ownerStep_def SetControllerReference_def split: option.splits)





lemma validateOwner_upsert [simp]: "validateOwner cr (upsertOwnerRef ref ob) = validateOwner cr ob"
  by (simp add: validateOwner_def upsertOwnerRef_def split: option.splits)




text \<open>Removing the controller reference.\<close>

lemma single_match_elsewhere:
  assumes "length (filter P xs) \<le> 1" "i < length xs" "P (xs ! i)"
  shows "filter P (take i xs) = [] \<and> filter P (drop (Suc i) xs) = []"
proof -
  have "xs = take i xs @ xs ! i # drop (Suc i) xs"
    using assms(2) by (rule id_take_nth_drop)
  then have "filter P xs = filter P (take i xs) @ xs ! i # filter P (drop (Suc i) xs)"
    using assms(3) by (metis filter.simps(2) filter_append)
  with assms(1) show ?thesis by auto
qed

lemma remove_reference_cases:
  "ownerStep cr True ob = ob
   \<or> (\<exists>i. indexOwnerRef (ownerReferences ob) (controllerRef cr) = Some i
          \<and> isController (ownerReferences ob ! i)
          \<and> ownerStep cr True ob =
              ob\<lparr>ownerReferences := take i (ownerReferences ob) @ drop (Suc i) (ownerReferences ob)\<rparr>)"
  by (auto simp: ownerStep_def RemoveControllerReference_def split: option.splits)

lemma remove_reference_absent:
  "indexOwnerRef (ownerReferences x) (controllerRef cr) = None \<Longrightarrow> ownerStep cr True x = x"
  by (simp add: ownerStep_def RemoveControllerReference_def)

lemma remove_reference_subset:
  "set (ownerReferences (ownerStep cr True ob)) \<subseteq> set (ownerReferences ob)"
  using remove_reference_cases [of cr ob]
  by (auto dest: in_set_takeD in_set_dropD)

lemma remove_reference_none_left:
  assumes single: "singleOwnerRef cr ob"
  shows "\<not> (\<exists>x\<in>set (ownerReferences (ownerStep cr True ob)).
            isController x \<and> referSameObject x (controllerRef cr))"
proof
  let ?rs = "ownerReferences ob"
  let ?P = "\<lambda>x. referSameObject x (controllerRef cr)"
  assume "\<exists>x\<in>set (ownerReferences (ownerStep cr True ob)). isController x \<and> ?P x"
  then obtain x where x: "x \<in> set (ownerReferences (ownerStep cr True ob))" "isController x" "?P x"
    by blast
  from x(1) remove_reference_subset have xin: "x \<in> set ?rs" by blast
  with x(3) obtain i where i: "indexOwnerRef ?rs (controllerRef cr) = Some i"
    by (cases "indexOwnerRef ?rs (controllerRef cr)") (auto simp: indexOwnerRef_None)
  note ix = indexOwnerRef_Some [OF i]
  from single ix single_match_elsewhere [of ?P ?rs i]
  have el: "filter ?P (take i ?rs) = []" "filter ?P (drop (Suc i) ?rs) = []"
    by (simp_all add: singleOwnerRef_def)
  have has: "HasControllerReference ob"
    using xin x(2) by (auto simp: HasControllerReference_def list_ex_iff)
  show False
  proof (cases "isController (?rs ! i)")
    case True
    with has i have "ownerReferences (ownerStep cr True ob) = take i ?rs @ drop (Suc i) ?rs"
      by (simp add: ownerStep_def RemoveControllerReference_def)
    with x(1) x(3) el show False by (auto simp: filter_empty_conv)
  next
    case False
    have "?rs = take i ?rs @ ?rs ! i # drop (Suc i) ?rs"
      using ix by (intro id_take_nth_drop) simp
    with xin have "x \<in> set (take i ?rs) \<or> x = ?rs ! i \<or> x \<in> set (drop (Suc i) ?rs)"
      by (metis Un_iff set_ConsD set_append)
    with x(2,3) False el show False by (auto simp: filter_empty_conv)
  qed
qed

lemma remove_reference_idem:
  assumes single: "singleOwnerRef cr ob"
  shows "ownerStep cr True (ownerStep cr True ob) = ownerStep cr True ob"
proof -
  let ?rs = "ownerReferences ob"
  let ?P = "\<lambda>x. referSameObject x (controllerRef cr)"
  from remove_reference_cases [of cr ob] show ?thesis
  proof
    assume "ownerStep cr True ob = ob"
    then show ?thesis by simp
  next
    assume "\<exists>i. indexOwnerRef ?rs (controllerRef cr) = Some i \<and> isController (?rs ! i)
          \<and> ownerStep cr True ob = ob\<lparr>ownerReferences := take i ?rs @ drop (Suc i) ?rs\<rparr>"
    then obtain i where i: "indexOwnerRef ?rs (controllerRef cr) = Some i"
      and st: "ownerStep cr True ob = ob\<lparr>ownerReferences := take i ?rs @ drop (Suc i) ?rs\<rparr>"
      by blast
    note ix = indexOwnerRef_Some [OF i]
    from single ix single_match_elsewhere [of ?P ?rs i]
    have "filter ?P (take i ?rs) = []" "filter ?P (drop (Suc i) ?rs) = []"
      by (simp_all add: singleOwnerRef_def)
    then have "indexOwnerRef (take i ?rs @ drop (Suc i) ?rs) (controllerRef cr) = None"
      by (auto simp: indexOwnerRef_None filter_empty_conv)
    then have "indexOwnerRef (ownerReferences (ob\<lparr>ownerReferences := take i ?rs @ drop (Suc i) ?rs\<rparr>))
                 (controllerRef cr) = None"
      by simp
    from remove_reference_absent [OF this] show ?thesis
      by (simp only: st)
  qed
qed



subsection \<open>The calls of one apply\<close>

lemma calls_client_Create [simp]: "calls (snd (client_Create t ob k)) = calls k @ [CallCreate t ob]"
  by (simp add: client_Create_cases split: option.splits)

lemma calls_client_Update [simp]: "calls (snd (client_Update t ob k)) = calls k @ [CallUpdate t ob]"
  by (simp add: client_Update_cases split: option.splits)

lemma calls_client_Delete [simp]:
  "calls (snd (client_Delete t ob k)) = calls k @ [CallDelete t (objNamespace ob) (objName ob)]"
  by (simp add: client_Delete_cases split: option.splits)

lemma calls_CreateOrUpdate:
  "calls (Client (snd (CreateOrUpdate cr t ob False retain mf v r))) =
     calls (Client r) @ CallGet t (objNamespace ob) (objName ob)
       # attemptedWrite cr t ob retain mf v (Client r)"
proof (cases "fst (client_Get t (objNamespace ob) (objName ob) (Client r))")
  case (Inl e)
  show ?thesis
  proof (cases "e = NotFound")
    case False
    with Inl show ?thesis
      by (simp add: CreateOrUpdate_fetch_error [OF Inl False] attemptedWrite_def)
  next
    case True
    with Inl have nf: "fst (client_Get t (objNamespace ob) (objName ob) (Client r)) = Inl NotFound"
      by simp
    obtain me w v' where m: "mutate (applyF cr retain mf) ob v = (me, w, v')"
      by (cases "mutate (applyF cr retain mf) ob v")
    show ?thesis
    proof (cases me)
      case None
      with m have m': "mutate (applyF cr retain mf) ob v = (None, w, v')" by simp
      obtain ce k2 where c: "client_Create t w (advance (CallGet t (objNamespace ob) (objName ob)) (Client r)) = (ce, k2)"
        by (cases "client_Create t w (advance (CallGet t (objNamespace ob) (objName ob)) (Client r))")
      then have "calls k2 = calls (Client r) @ [CallGet t (objNamespace ob) (objName ob), CallCreate t w]"
        using calls_client_Create [of t w "advance (CallGet t (objNamespace ob) (objName ob)) (Client r)"]
        by simp
      then show ?thesis
        by (simp add: CreateOrUpdate_absent [OF nf m'] attemptedWrite_def nf m' c split: option.splits)
    next
      case (Some e')
      with m have m': "mutate (applyF cr retain mf) ob v = (Some e', w, v')" by simp
      show ?thesis
        by (simp add: CreateOrUpdate_absent_mutate_error [OF nf m'] attemptedWrite_def nf m')
    qed
  qed
next
  case (Inr live)
  obtain me w v' where m: "mutate (applyF cr retain mf) live v = (me, w, v')"
    by (cases "mutate (applyF cr retain mf) live v")
  show ?thesis
  proof (cases me)
    case (Some e')
    with m have m': "mutate (applyF cr retain mf) live v = (Some e', w, v')" by simp
    show ?thesis
      by (simp add: CreateOrUpdate_found_mutate_error [OF Inr m'] attemptedWrite_def Inr m')
  next
    case None
    with m have m': "mutate (applyF cr retain mf) live v = (None, w, v')" by simp
    show ?thesis
    proof (cases "live = w")
      case True
      with m' have m'': "mutate (applyF cr retain mf) live v = (None, live, v')" by simp
      show ?thesis
        by (simp add: CreateOrUpdate_found_unchanged [OF Inr m''] attemptedWrite_def Inr m'')
    next
      case False
      obtain ce k2 where c: "client_Update t w (advance (CallGet t (objNamespace ob) (objName ob)) (Client r)) = (ce, k2)"
        by (cases "client_Update t w (advance (CallGet t (objNamespace ob) (objName ob)) (Client r))")
      then have "calls k2 = calls (Client r) @ [CallGet t (objNamespace ob) (objName ob), CallUpdate t w]"
        using calls_client_Update [of t w "advance (CallGet t (objNamespace ob) (objName ob)) (Client r)"]
        by simp
      then show ?thesis using False
        by (simp add: CreateOrUpdate_found_changed [OF Inr m' False] attemptedWrite_def Inr m' c
            split: option.splits)
    qed
  qed
qed

lemma issued_CreateOrUpdate:
  "issued r (snd (CreateOrUpdate cr t ob False retain mf v r)) =
     CallGet t (objNamespace ob) (objName ob) # attemptedWrite cr t ob retain mf v (Client r)"
  by (simp add: issued_def calls_CreateOrUpdate)

lemma length_attemptedWrite: "length (attemptedWrite cr t ob retain mf v k) \<le> 1"
  by (simp add: attemptedWrite_def split: sum.splits prod.splits option.splits)



subsection \<open>The example inputs\<close>

lemma demoObject_sel [simp]:
  "objNamespace (demoObject suffix cr) = crNamespace cr"
  "objName (demoObject suffix cr) = crName cr @ suffix"
  "ownerReferences (demoObject suffix cr) = []"
  "roleRules (demoObject suffix cr) = []"
  "secretData (demoObject suffix cr) = Map.empty"
  by (simp_all add: demoObject_def emptyObject_def)

lemma demoReconcilerWith_sel [simp]:
  "objects (Client (demoReconcilerWith t ob fs)) = [(t, objNamespace ob, objName ob) \<mapsto> ob]"
  "faults (Client (demoReconcilerWith t ob fs)) = fs"
  "calls (Client (demoReconcilerWith t ob fs)) = []"
  "logs (demoReconcilerWith t ob fs) = []"
  "entropy (demoReconcilerWith t ob fs) = 0"
  "instances (demoReconcilerWith t ob fs) = Map.empty"
  "deploymentDeleted (demoReconcilerWith t ob fs) = False"
  by (simp_all add: demoReconcilerWith_def)

lemma demoRole_sel [simp]:
  "objNamespace demoRole = ''ns''" "objName demoRole = ''example-nonroot''"
  "roleRules demoRole = [''use securitycontextconstraints nonroot'']"
  "objNamespace demoLiveRole = ''ns''" "objName demoLiveRole = ''example-nonroot''"
  "roleRules demoLiveRole = []" "ownerReferences demoLiveRole = []"
  by (simp_all add: demoRole_def demoLiveRole_def)

lemma mutate_rules:
  "mutate (applyF cr retain (Some (rulesMutate rules))) ob v =
     (None, (ownerStep cr retain ob)\<lparr>roleRules := rules\<rparr>, v)"
  by (simp add: mutate_def applyF_def rulesMutate_def)

lemma mutate_none:
  "mutate (applyF cr retain None) ob v = (None, ownerStep cr retain ob, v)"
  by (simp add: mutate_def applyF_def)

lemma attemptedWrite_is_write:
  "c \<in> set (attemptedWrite cr t ob retain mf v k) \<Longrightarrow> \<exists>w. c = CallCreate t w \<or> c = CallUpdate t w"
proof -
  assume c: "c \<in> set (attemptedWrite cr t ob retain mf v k)"
  show ?thesis
  proof (cases "fst (client_Get t (objNamespace ob) (objName ob) k)")
    case (Inl e)
    obtain me w v' where m: "mutate (applyF cr retain mf) ob v = (me, w, v')"
      by (cases "mutate (applyF cr retain mf) ob v")
    with c Inl show ?thesis
      by (cases me; cases "e = NotFound") (simp_all add: attemptedWrite_def)
  next
    case (Inr live)
    obtain me w v' where m: "mutate (applyF cr retain mf) live v = (me, w, v')"
      by (cases "mutate (applyF cr retain mf) live v")
    with c Inr show ?thesis
      by (cases me; cases "live = w") (simp_all add: attemptedWrite_def)
  qed
qed


subsection \<open>One fetch and at most one write\<close>

lemma apply_once:
  "(fst (client_Get t (objNamespace ob) (objName ob) (Client r)) = Inr live
     \<and> mutate (applyF cr retain mf) live v = (None, w, v')
     \<and> live \<noteq> w
     \<and> nextFault (advance (CallGet t (objNamespace ob) (objName ob)) (Client r)) = Some Conflict
    \<longrightarrow> issued r (snd (CreateOrUpdate cr t ob False retain mf v r))
          = [CallGet t (objNamespace ob) (objName ob), CallUpdate t w]
      \<and> logs (snd (CreateOrUpdate cr t ob False retain mf v r))
          = logs r @ [LogError Conflict ''failed to create or update'']
      \<and> objects (Client (snd (CreateOrUpdate cr t ob False retain mf v r))) = objects (Client r))
   \<and> length (issued r (snd (CreateOrUpdate cr t ob False retain mf v r))) \<le> 2
   \<and> hd (issued r (snd (CreateOrUpdate cr t ob False retain mf v r)))
       = CallGet t (objNamespace ob) (objName ob)
   \<and> CallGet t (objNamespace ob) (objName ob)
       \<notin> set (tl (issued r (snd (CreateOrUpdate cr t ob False retain mf v r))))"
proof (intro conjI impI)
  assume a: "fst (client_Get t (objNamespace ob) (objName ob) (Client r)) = Inr live
     \<and> mutate (applyF cr retain mf) live v = (None, w, v')
     \<and> live \<noteq> w
     \<and> nextFault (advance (CallGet t (objNamespace ob) (objName ob)) (Client r)) = Some Conflict"
  then have f: "fst (client_Get t (objNamespace ob) (objName ob) (Client r)) = Inr live"
    and m: "mutate (applyF cr retain mf) live v = (None, w, v')" and ne: "live \<noteq> w"
    and c: "nextFault (advance (CallGet t (objNamespace ob) (objName ob)) (Client r)) = Some Conflict"
    by simp_all
  show "issued r (snd (CreateOrUpdate cr t ob False retain mf v r))
          = [CallGet t (objNamespace ob) (objName ob), CallUpdate t w]"
    using ne by (simp add: issued_CreateOrUpdate attemptedWrite_def f m)
  show "logs (snd (CreateOrUpdate cr t ob False retain mf v r))
          = logs r @ [LogError Conflict ''failed to create or update'']"
    by (simp add: CreateOrUpdate_found_changed [OF f m ne] client_Update_cases c)
  show "objects (Client (snd (CreateOrUpdate cr t ob False retain mf v r))) = objects (Client r)"
    by (simp add: CreateOrUpdate_found_changed [OF f m ne] client_Update_cases c)
next
  show "length (issued r (snd (CreateOrUpdate cr t ob False retain mf v r))) \<le> 2"
    using length_attemptedWrite [of cr t ob retain mf v "Client r"]
    by (simp add: issued_CreateOrUpdate)
  show "hd (issued r (snd (CreateOrUpdate cr t ob False retain mf v r)))
       = CallGet t (objNamespace ob) (objName ob)"
    by (simp add: issued_CreateOrUpdate)
  show "CallGet t (objNamespace ob) (objName ob)
       \<notin> set (tl (issued r (snd (CreateOrUpdate cr t ob False retain mf v r))))"
    using attemptedWrite_is_write [of "CallGet t (objNamespace ob) (objName ob)" cr t ob retain mf v "Client r"]
    by (auto simp add: issued_CreateOrUpdate)
qed



lemma demoMergedRole_ne: "demoLiveRole \<noteq> demoMergedRole"
proof
  assume "demoLiveRole = demoMergedRole"
  then have "roleRules demoLiveRole = roleRules demoMergedRole" by simp
  then show False by (simp add: demoMergedRole_def)
qed

lemma demoConflict_fetch:
  "fst (client_Get Role ''ns'' ''example-nonroot'' (Client demoConflict)) = Inr demoLiveRole"
  by (simp add: client_Get_found demoConflict_def nextFault_def)

lemma demoConflict_next:
  "nextFault (advance (CallGet Role ''ns'' ''example-nonroot'') (Client demoConflict)) = Some Conflict"
  by (simp add: demoConflict_def nextFault_def)

lemma demoConflict_mutate:
  "mutate (applyF demoCoroot False (Some (rulesMutate (roleRules demoRole)))) demoLiveRole ()
     = (None, demoMergedRole, ())"
  by (simp add: mutate_rules demoMergedRole_def)


subsection \<open>Applying with the delete flag\<close>

lemma corootIngress_sel [simp]:
  "objNamespace (corootIngress cr) = crNamespace cr"
  "objName (corootIngress cr) = crName cr"
  by (simp_all add: corootIngress_def Let_def emptyObject_def split: option.splits)

lemma delete_once:
  "issued r (snd (CreateOrUpdate cr t ob True retain mf v r))
     = [CallDelete t (objNamespace ob) (objName ob)]
   \<and> fst (CreateOrUpdate cr t ob True retain mf v r) = v
   \<and> failures (snd (CreateOrUpdate cr t ob True retain mf v r)) = failures r
   \<and> (fst (client_Delete t ob (Client r)) = None
        \<longrightarrow> logs (snd (CreateOrUpdate cr t ob True retain mf v r)) = logs r @ [LogInfo ''deleted'']
          \<and> objects (Client (snd (CreateOrUpdate cr t ob True retain mf v r)))
              = (objects (Client r))((t, objNamespace ob, objName ob) := None))
   \<and> (fst (client_Delete t ob (Client r)) \<noteq> None
        \<longrightarrow> logs (snd (CreateOrUpdate cr t ob True retain mf v r)) = logs r
          \<and> objects (Client (snd (CreateOrUpdate cr t ob True retain mf v r))) = objects (Client r))"
  by (simp add: CreateOrUpdate_def issued_def client_Delete_cases failures_def
      split: option.splits)


lemma demo_delete_results:
  "fst (client_Delete Ingress (corootIngress demoCoroot) (Client demoIngressGone)) = Some NotFound"
  "fst (client_Delete Ingress (corootIngress demoCoroot) (Client demoIngressLive)) = None"
  "fst (client_Delete Ingress (corootIngress demoCoroot) (Client demoIngressFailing)) = Some (Transport ''timeout'')"
  by (simp_all add: client_Delete_cases nextFault_def demoIngressGone_def demoIngressLive_def
      demoIngressFailing_def)


subsection \<open>What a write carries\<close>

lemma attemptedWrite_update:
  assumes "CallUpdate t' w \<in> set (attemptedWrite cr t ob retain mf v k)"
  shows "t' = t \<and> (\<exists>live v'. fst (client_Get t (objNamespace ob) (objName ob) k) = Inr live
            \<and> mutate (applyF cr retain mf) live v = (None, w, v') \<and> live \<noteq> w)"
proof (cases "fst (client_Get t (objNamespace ob) (objName ob) k)")
  case (Inl e)
  obtain me w' v' where m: "mutate (applyF cr retain mf) ob v = (me, w', v')"
    by (cases "mutate (applyF cr retain mf) ob v")
  with assms Inl show ?thesis
    by (cases me; cases "e = NotFound") (simp_all add: attemptedWrite_def)
next
  case (Inr live)
  obtain me w' v' where m: "mutate (applyF cr retain mf) live v = (me, w', v')"
    by (cases "mutate (applyF cr retain mf) live v")
  with assms Inr show ?thesis
    by (cases me; cases "live = w'") (simp_all add: attemptedWrite_def)
qed

lemma attemptedWrite_create:
  assumes "CallCreate t' w \<in> set (attemptedWrite cr t ob retain mf v k)"
  shows "t' = t \<and> fst (client_Get t (objNamespace ob) (objName ob) k) = Inl NotFound
            \<and> (\<exists>v'. mutate (applyF cr retain mf) ob v = (None, w, v'))"
proof (cases "fst (client_Get t (objNamespace ob) (objName ob) k)")
  case (Inl e)
  obtain me w' v' where m: "mutate (applyF cr retain mf) ob v = (me, w', v')"
    by (cases "mutate (applyF cr retain mf) ob v")
  with assms Inl show ?thesis
    by (cases me; cases "e = NotFound") (simp_all add: attemptedWrite_def)
next
  case (Inr live)
  obtain me w' v' where m: "mutate (applyF cr retain mf) live v = (me, w', v')"
    by (cases "mutate (applyF cr retain mf) live v")
  with assms Inr show ?thesis
    by (cases me; cases "live = w'") (simp_all add: attemptedWrite_def)
qed

lemma statefulSetMutate_spec:
  assumes "statefulSetMutate c spec ob v = (err, ob', v')"
  shows "objSpec ob' = (objSpec (snd (MergeSpecs c ob spec Map.empty)))
           \<lparr>specVolumeClaimTemplates := specVolumeClaimTemplates (objSpec ob)\<rparr>"
  using assms by (auto simp: statefulSetMutate_def Let_def split: prod.splits)

lemma mutate_statefulSet_spec:
  assumes "mutate (applyF cr retain (Some (statefulSetMutate c spec))) ob v = (err, w, v')"
  shows "objSpec w = (objSpec (snd (MergeSpecs c (ownerStep cr retain ob) spec Map.empty)))
           \<lparr>specVolumeClaimTemplates := specVolumeClaimTemplates (objSpec ob)\<rparr>"
proof -
  obtain e1 o1 v1 where s: "statefulSetMutate c spec (ownerStep cr retain ob) v = (e1, o1, v1)"
    by (cases "statefulSetMutate c spec (ownerStep cr retain ob) v")
  with assms have "w = o1"
    by (cases e1) (auto simp: mutate_def applyF_def split: if_splits)
  with statefulSetMutate_spec [OF s] show ?thesis by simp
qed

lemma statefulSet_writes:
  "(statefulSetMutate c spec ob v = (err, ob', v')
      \<longrightarrow> specVolumeClaimTemplates (objSpec ob') = specVolumeClaimTemplates (objSpec ob)
        \<and> objSpec ob' = (objSpec (snd (MergeSpecs c ob spec Map.empty)))
             \<lparr>specVolumeClaimTemplates := specVolumeClaimTemplates (objSpec ob)\<rparr>)
   \<and> (fst (client_Get StatefulSet (objNamespace ss) (objName ss) (Client r)) = Inr live
       \<and> CallUpdate StatefulSet w \<in> set (issued r (CreateOrUpdateStatefulSet c cr ss r))
      \<longrightarrow> specVolumeClaimTemplates (objSpec w) = specVolumeClaimTemplates (objSpec live)
        \<and> objSpec w = (objSpec (snd (MergeSpecs c (ownerStep cr False live) (objSpec ss) Map.empty)))
             \<lparr>specVolumeClaimTemplates := specVolumeClaimTemplates (objSpec live)\<rparr>)
   \<and> (fst (client_Get StatefulSet (objNamespace ss) (objName ss) (Client r)) = Inr live
      \<longrightarrow> CallCreate StatefulSet w' \<notin> set (issued r (CreateOrUpdateStatefulSet c cr ss r)))"
proof (intro conjI impI)
  assume "statefulSetMutate c spec ob v = (err, ob', v')"
  from statefulSetMutate_spec [OF this]
  show "objSpec ob' = (objSpec (snd (MergeSpecs c ob spec Map.empty)))
             \<lparr>specVolumeClaimTemplates := specVolumeClaimTemplates (objSpec ob)\<rparr>" .
  then show "specVolumeClaimTemplates (objSpec ob') = specVolumeClaimTemplates (objSpec ob)"
    by simp
next
  assume a: "fst (client_Get StatefulSet (objNamespace ss) (objName ss) (Client r)) = Inr live
       \<and> CallUpdate StatefulSet w \<in> set (issued r (CreateOrUpdateStatefulSet c cr ss r))"
  then have "CallUpdate StatefulSet w \<in> set (attemptedWrite cr StatefulSet ss False
               (Some (statefulSetMutate c (objSpec ss))) () (Client r))"
    by (simp add: CreateOrUpdateStatefulSet_def Let_def issued_CreateOrUpdate)
  from attemptedWrite_update [OF this] a
  obtain v' where "mutate (applyF cr False (Some (statefulSetMutate c (objSpec ss)))) live () = (None, w, v')"
    by auto
  from mutate_statefulSet_spec [OF this]
  show "objSpec w = (objSpec (snd (MergeSpecs c (ownerStep cr False live) (objSpec ss) Map.empty)))
             \<lparr>specVolumeClaimTemplates := specVolumeClaimTemplates (objSpec live)\<rparr>" .
  then show "specVolumeClaimTemplates (objSpec w) = specVolumeClaimTemplates (objSpec live)"
    by simp
next
  assume f: "fst (client_Get StatefulSet (objNamespace ss) (objName ss) (Client r)) = Inr live"
  show "CallCreate StatefulSet w' \<notin> set (issued r (CreateOrUpdateStatefulSet c cr ss r))"
  proof
    assume "CallCreate StatefulSet w' \<in> set (issued r (CreateOrUpdateStatefulSet c cr ss r))"
    then have "CallCreate StatefulSet w' \<in> set (attemptedWrite cr StatefulSet ss False
               (Some (statefulSetMutate c (objSpec ss))) () (Client r))"
      by (simp add: CreateOrUpdateStatefulSet_def Let_def issued_CreateOrUpdate)
    from attemptedWrite_create [OF this] f show False by simp
  qed
qed



subsection \<open>The example StatefulSet\<close>

lemma corootStatefulSet_sel [simp]:
  "objNamespace (corootStatefulSet c cr) = crNamespace cr"
  "objName (corootStatefulSet c cr) = crName cr @ ''-coroot''"
  "ownerReferences (corootStatefulSet c cr) = []"
  "specVolumeClaimTemplates (objSpec (corootStatefulSet c cr))
     = [\<lparr>ctName = ''data'', ctNamespace = crNamespace cr, ctSpec = []\<rparr>]"
  by (simp_all add: corootStatefulSet_def Let_def emptyObject_def emptySpec_def)

lemma demoCoroot_Replicas [simp]: "Replicas (crSpec demoCoroot) = 0"
  by (simp add: demoCoroot_def emptyCoroot_def)

lemma demoStatefulSet_sel [simp]:
  "objNamespace demoStatefulSet = ''ns''" "objName demoStatefulSet = ''example-coroot''"
  "specReplicas (objSpec demoStatefulSet) = Some 1"
  "specVolumeClaimTemplates (objSpec demoStatefulSet) = [\<lparr>ctName = ''data'', ctNamespace = ''ns'', ctSpec = []\<rparr>]"
  "objNamespace demoLiveStatefulSet = ''ns''" "objName demoLiveStatefulSet = ''example-coroot''"
  "specReplicas (objSpec demoLiveStatefulSet) = Some 3"
  "specVolumeClaimTemplates (objSpec demoLiveStatefulSet) = demoLiveTemplates"
  by (simp_all add: demoStatefulSet_def demoLiveStatefulSet_def statefulSet_replicas)

lemma demoStatefulSet_mutate:
  "mutate (applyF demoCoroot False (Some (statefulSetMutate demoCollaborators (objSpec demoStatefulSet))))
      demoLiveStatefulSet () = (None, demoMergedStatefulSet, ())"
  by (simp add: mutate_def applyF_def statefulSetMutate_def Let_def demoMergeSpecs_def
      demoMergedStatefulSet_def)

lemma demoMergedStatefulSet_ne: "demoLiveStatefulSet \<noteq> demoMergedStatefulSet"
proof
  assume "demoLiveStatefulSet = demoMergedStatefulSet"
  then have "specReplicas (objSpec demoLiveStatefulSet) = specReplicas (objSpec demoMergedStatefulSet)"
    by simp
  then show False by (simp add: demoMergedStatefulSet_def)
qed

lemma demoStatefulSet_fetch:
  "fst (client_Get StatefulSet ''ns'' ''example-coroot'' (Client demoStatefulSetCluster))
     = Inr demoLiveStatefulSet"
  by (simp add: client_Get_found demoStatefulSetCluster_def nextFault_def)

lemma demoStatefulSet_issued:
  "issued demoStatefulSetCluster
     (CreateOrUpdateStatefulSet demoCollaborators demoCoroot demoStatefulSet demoStatefulSetCluster)
   = [CallGet StatefulSet ''ns'' ''example-coroot'', CallUpdate StatefulSet demoMergedStatefulSet]"
  using demoMergedStatefulSet_ne
  by (simp add: CreateOrUpdateStatefulSet_def Let_def issued_CreateOrUpdate attemptedWrite_def
      demoStatefulSet_fetch demoStatefulSet_mutate)

lemma demoStatefulSet_mutate_raw:
  "statefulSetMutate demoCollaborators (objSpec demoStatefulSet) demoLiveStatefulSet ()
     = (None, demoLiveStatefulSet\<lparr>objSpec := (objSpec demoStatefulSet)
                \<lparr>specVolumeClaimTemplates := demoLiveTemplates\<rparr>\<rparr>, ())"
  by (simp add: statefulSetMutate_def Let_def demoMergeSpecs_def)


subsection \<open>Ownership of what is written\<close>

lemma written_by_plain_apply:
  assumes "CallCreate t w \<in> set (issued r (snd (CreateOrUpdate cr t ob False retain (None :: 'v mutateFn option) v r)))
         \<or> CallUpdate t w \<in> set (issued r (snd (CreateOrUpdate cr t ob False retain (None :: 'v mutateFn option) v r)))"
  shows "w = ownerStep cr retain ob
    \<or> (\<exists>live. fst (client_Get t (objNamespace ob) (objName ob) (Client r)) = Inr live
           \<and> w = ownerStep cr retain live)"
  using assms
proof
  assume "CallCreate t w \<in> set (issued r (snd (CreateOrUpdate cr t ob False retain (None :: 'v mutateFn option) v r)))"
  then have "CallCreate t w \<in> set (attemptedWrite cr t ob retain (None :: 'v mutateFn option) v (Client r))"
    by (simp add: issued_CreateOrUpdate)
  from attemptedWrite_create [OF this] show ?thesis
    by (simp add: mutate_none)
next
  assume "CallUpdate t w \<in> set (issued r (snd (CreateOrUpdate cr t ob False retain (None :: 'v mutateFn option) v r)))"
  then have "CallUpdate t w \<in> set (attemptedWrite cr t ob retain (None :: 'v mutateFn option) v (Client r))"
    by (simp add: issued_CreateOrUpdate)
  from attemptedWrite_update [OF this] show ?thesis
    by (auto simp add: mutate_none)
qed

lemma written_by_rules_apply:
  assumes "CallCreate t w \<in> set (issued r (snd (CreateOrUpdate cr t ob False retain (Some (rulesMutate rules)) v r)))
         \<or> CallUpdate t w \<in> set (issued r (snd (CreateOrUpdate cr t ob False retain (Some (rulesMutate rules)) v r)))"
  shows "w = (ownerStep cr retain ob)\<lparr>roleRules := rules\<rparr>
    \<or> (\<exists>live. fst (client_Get t (objNamespace ob) (objName ob) (Client r)) = Inr live
           \<and> w = (ownerStep cr retain live)\<lparr>roleRules := rules\<rparr>)"
  using assms
proof
  assume "CallCreate t w \<in> set (issued r (snd (CreateOrUpdate cr t ob False retain (Some (rulesMutate rules)) v r)))"
  then have "CallCreate t w \<in> set (attemptedWrite cr t ob retain (Some (rulesMutate rules)) v (Client r))"
    by (simp add: issued_CreateOrUpdate)
  from attemptedWrite_create [OF this] show ?thesis
    by (simp add: mutate_rules)
next
  assume "CallUpdate t w \<in> set (issued r (snd (CreateOrUpdate cr t ob False retain (Some (rulesMutate rules)) v r)))"
  then have "CallUpdate t w \<in> set (attemptedWrite cr t ob retain (Some (rulesMutate rules)) v (Client r))"
    by (simp add: issued_CreateOrUpdate)
  from attemptedWrite_update [OF this] show ?thesis
    by (auto simp add: mutate_rules)
qed

lemma demoClusterObject_sel [simp]:
  "objNamespace (demoClusterObject cr) = []"
  "objName (demoClusterObject cr) = crName cr @ ''-cluster-agent''"
  "ownerReferences (demoClusterObject cr) = []"
  by (simp_all add: demoClusterObject_def emptyObject_def)

lemma demoClusterRole_sel [simp]:
  "objNamespace demoClusterRole = []" "objName demoClusterRole = ''example-cluster-agent''"
  "roleRules demoClusterRole = [''get nodes'']"
  "objNamespace demoLiveClusterRole = []" "objName demoLiveClusterRole = ''example-cluster-agent''"
  "ownerReferences demoLiveClusterRole = [demoPlainRef, controllerRef demoCoroot]"
  by (simp_all add: demoClusterRole_def demoLiveClusterRole_def)

lemma demoOwnedRole_sel [simp]:
  "objNamespace demoOwnedRole = ''ns''" "objName demoOwnedRole = ''example-nonroot''"
  "ownerReferences demoOwnedRole = [demoForeignRef]" "roleRules demoOwnedRole = []"
  by (simp_all add: demoOwnedRole_def)

lemma demo_validate:
  "validateOwner demoCoroot demoLiveRole = None"
  "validateOwner demoCoroot demoOwnedRole = None"
  "validateOwner demoCoroot demoLiveClusterRole \<noteq> None"
  by (simp_all add: validateOwner_def)

lemma demo_controllers:
  "GetControllerOf demoLiveRole = None"
  "GetControllerOf demoOwnedRole = Some demoForeignRef"
  "\<not> referSameObject demoForeignRef (controllerRef demoCoroot)"
  by (simp_all add: GetControllerOf_def isController_def demoForeignRef_def referSameObject_def
      controllerRef_def)

lemma demoPlainRef_foreign [simp]:
  "\<not> referSameObject demoPlainRef (controllerRef demoCoroot)" "\<not> isController demoPlainRef"
  by (simp_all add: referSameObject_def demoPlainRef_def controllerRef_def isController_def)

lemma demo_single: "singleOwnerRef demoCoroot demoLiveClusterRole"
  by (simp add: singleOwnerRef_def)

lemma demo_removed:
  "ownerStep demoCoroot True demoLiveClusterRole = demoLiveClusterRole\<lparr>ownerReferences := [demoPlainRef]\<rparr>"
  by (simp add: ownerStep_def RemoveControllerReference_def HasControllerReference_def)

lemma demo_refused: "ownerStep demoCoroot False demoOwnedRole = demoOwnedRole"
  using demo_validate demo_controllers by (intro set_reference_refused) simp



lemma demoOwned_issued:
  "issued demoOwnedCluster (CreateOrUpdateRole demoCoroot demoRole demoOwnedCluster)
     = [CallGet Role ''ns'' ''example-nonroot'', CallUpdate Role demoWrittenRole]"
proof -
  have f: "fst (client_Get Role ''ns'' ''example-nonroot'' (Client demoOwnedCluster)) = Inr demoOwnedRole"
    by (simp add: client_Get_found demoOwnedCluster_def nextFault_def)
  have m: "mutate (applyF demoCoroot False (Some (rulesMutate (roleRules demoRole)))) demoOwnedRole ()
             = (None, demoWrittenRole, ())"
    by (simp add: mutate_rules demo_refused demoWrittenRole_def)
  have "roleRules demoOwnedRole \<noteq> roleRules demoWrittenRole"
    by (simp add: demoWrittenRole_def)
  then have ne: "demoOwnedRole \<noteq> demoWrittenRole" by metis
  show ?thesis using ne f m
    by (simp add: CreateOrUpdateRole_def Let_def issued_CreateOrUpdate attemptedWrite_def)
qed

lemma demoClusterRole_issued:
  "issued demoClusterRoleCluster (CreateOrUpdateClusterRole demoCoroot demoClusterRole demoClusterRoleCluster)
     = [CallGet ClusterRole [] ''example-cluster-agent'', CallUpdate ClusterRole demoWrittenClusterRole]"
proof -
  have f: "fst (client_Get ClusterRole [] ''example-cluster-agent'' (Client demoClusterRoleCluster))
             = Inr demoLiveClusterRole"
    by (simp add: client_Get_found demoClusterRoleCluster_def nextFault_def)
  have m: "mutate (applyF demoCoroot True (Some (rulesMutate (roleRules demoClusterRole)))) demoLiveClusterRole ()
             = (None, demoWrittenClusterRole, ())"
    by (simp add: mutate_rules demo_removed demoWrittenClusterRole_def)
  have "ownerReferences demoLiveClusterRole \<noteq> ownerReferences demoWrittenClusterRole"
    by (simp add: demoWrittenClusterRole_def)
  then have ne: "demoLiveClusterRole \<noteq> demoWrittenClusterRole" by metis
  show ?thesis using ne f m
    by (simp add: CreateOrUpdateClusterRole_def Let_def issued_CreateOrUpdate attemptedWrite_def)
qed

lemma demoClusterRole_fetch:
  "fst (client_Get ClusterRole [] ''example-cluster-agent'' (Client demoClusterRoleCluster))
             = Inr demoLiveClusterRole"
  by (simp add: client_Get_found demoClusterRoleCluster_def nextFault_def)


subsection \<open>Applying twice\<close>

lemma mutate_None:
  assumes "mutate f ob v = (None, w, v')"
  shows "f ob v = (None, w, v')" "objNamespace w = objNamespace ob" "objName w = objName ob"
proof -
  obtain e w0 v0 where f: "f ob v = (e, w0, v0)" by (cases "f ob v")
  with assms show "f ob v = (None, w, v')" "objNamespace w = objNamespace ob" "objName w = objName ob"
    by (cases e; auto simp: mutate_def split: if_splits)+
qed









lemma apply_detects_no_change:
  assumes f: "fst (client_Get t (objNamespace ob) (objName ob) (Client r)) = Inr live"
    and m: "mutate (applyF cr retain mf) live v = (None, live, v')"
  shows "applied cr t ob retain mf v r = r\<lparr>Client := advance (CallGet t (objNamespace ob) (objName ob)) (Client r)\<rparr>"
    and "outcome cr t ob retain mf v r = Inr OperationResultNone"
  by (simp_all add: applied_def outcome_def CreateOrUpdate_found_unchanged [OF f m] cou_found [OF f] m)

lemma apply_on_converged:
  assumes ok: "failures (applied cr t ob retain mf v r) = failures r"
    and st: "objects (Client r) (t, objNamespace ob, objName ob) = Some w"
    and m: "mutate (applyF cr retain mf) w v = (None, w, v')"
  shows "applied cr t ob retain mf v r = r\<lparr>Client := advance (CallGet t (objNamespace ob) (objName ob)) (Client r)\<rparr>
    \<and> outcome cr t ob retain mf v r = Inr OperationResultNone"
proof (cases "fst (client_Get t (objNamespace ob) (objName ob) (Client r))")
  case (Inl e)
  show ?thesis
  proof (cases "e = NotFound")
    case False
    from ok have False
      by (simp add: applied_def CreateOrUpdate_fetch_error [OF Inl False])
    then show ?thesis ..
  next
    case True
    with Inl have nf: "fst (client_Get t (objNamespace ob) (objName ob) (Client r)) = Inl NotFound"
      by simp
    obtain me w0 v0 where m0: "mutate (applyF cr retain mf) ob v = (me, w0, v0)"
      by (cases "mutate (applyF cr retain mf) ob v")
    have False
    proof (cases me)
      case (Some e')
      with m0 have m': "mutate (applyF cr retain mf) ob v = (Some e', w0, v0)" by simp
      from ok show False
        by (simp add: applied_def CreateOrUpdate_absent_mutate_error [OF nf m'])
    next
      case None
      with m0 have m': "mutate (applyF cr retain mf) ob v = (None, w0, v0)" by simp
      note id = mutate_None(2,3) [OF m']
      from ok st id show False
        by (simp add: applied_def CreateOrUpdate_absent [OF nf m'] client_Create_cases
            split: option.splits)
    qed
    then show ?thesis ..
  qed
next
  case (Inr live)
  then have "objects (Client r) (t, objNamespace ob, objName ob) = Some live"
    by (simp add: client_Get_found)
  with st have "live = w" by simp
  with Inr have f: "fst (client_Get t (objNamespace ob) (objName ob) (Client r)) = Inr w" by simp
  from apply_detects_no_change [OF f m] show ?thesis by simp
qed









subsection \<open>The owner references of what is written\<close>

lemma filter_update_out:
  assumes "i < length xs" "\<not> P (xs ! i)" "\<not> P y"
  shows "filter P (xs[i := y]) = filter P xs"
proof -
  have a: "xs[i := y] = take i xs @ y # drop (Suc i) xs"
    using assms(1) by (rule upd_conv_take_nth_drop)
  have b: "xs = take i xs @ xs ! i # drop (Suc i) xs"
    using assms(1) by (rule id_take_nth_drop)
  have "filter P (xs[i := y]) = filter P (take i xs) @ filter P (drop (Suc i) xs)"
    using assms(3) by (simp add: a)
  also have "\<dots> = filter P (take i xs @ xs ! i # drop (Suc i) xs)"
    using assms(2) by simp
  finally show ?thesis using b by simp
qed

lemma filter_remove_out:
  assumes "i < length xs" "\<not> P (xs ! i)"
  shows "filter P (take i xs @ drop (Suc i) xs) = filter P xs"
proof -
  have b: "xs = take i xs @ xs ! i # drop (Suc i) xs"
    using assms(1) by (rule id_take_nth_drop)
  have "filter P (take i xs @ xs ! i # drop (Suc i) xs) = filter P (take i xs @ drop (Suc i) xs)"
    using assms(2) by simp
  with b show ?thesis by simp
qed

lemma set_reference_cases:
  "ownerAccepted cr ob \<Longrightarrow> ownerStep cr False ob = upsertOwnerRef (controllerRef cr) ob"
  "\<not> ownerAccepted cr ob \<Longrightarrow> ownerStep cr False ob = ob"
  by (auto simp: ownerAccepted_def ownerStep_def SetControllerReference_def split: option.splits)

lemma set_reference_member:
  "ownerAccepted cr ob \<Longrightarrow> controllerRef cr \<in> set (ownerReferences (ownerStep cr False ob))"
  by (rule set_reference_ok) (auto simp: ownerAccepted_def split: option.splits)

lemma upsert_foreign_kept:
  "foreignRefs cr (upsertOwnerRef (controllerRef cr) ob) = foreignRefs cr ob"
proof (cases "indexOwnerRef (ownerReferences ob) (controllerRef cr)")
  case None
  then show ?thesis by (simp add: upsertOwnerRef_def foreignRefs_def)
next
  case (Some i)
  note ix = indexOwnerRef_Some [OF Some]
  from ix have "filter (\<lambda>x. \<not> referSameObject x (controllerRef cr)) ((ownerReferences ob)[i := controllerRef cr])
      = filter (\<lambda>x. \<not> referSameObject x (controllerRef cr)) (ownerReferences ob)"
    by (intro filter_update_out) simp_all
  with Some show ?thesis by (simp add: upsertOwnerRef_def foreignRefs_def)
qed

lemma foreign_kept: "foreignRefs cr (ownerStep cr retain ob) = foreignRefs cr ob"
proof (cases retain)
  case False
  show ?thesis
  proof (cases "ownerAccepted cr ob")
    case True
    with False show ?thesis by (simp add: set_reference_cases upsert_foreign_kept)
  next
    case no: False
    with False show ?thesis by (simp add: set_reference_cases)
  qed
next
  case True
  from remove_reference_cases [of cr ob] show ?thesis
  proof
    assume "ownerStep cr True ob = ob"
    with True show ?thesis by simp
  next
    assume "\<exists>i. indexOwnerRef (ownerReferences ob) (controllerRef cr) = Some i
          \<and> isController (ownerReferences ob ! i)
          \<and> ownerStep cr True ob =
              ob\<lparr>ownerReferences := take i (ownerReferences ob) @ drop (Suc i) (ownerReferences ob)\<rparr>"
    then obtain i where i: "indexOwnerRef (ownerReferences ob) (controllerRef cr) = Some i"
      and st: "ownerStep cr True ob =
              ob\<lparr>ownerReferences := take i (ownerReferences ob) @ drop (Suc i) (ownerReferences ob)\<rparr>"
      by blast
    note ix = indexOwnerRef_Some [OF i]
    from ix have "filter (\<lambda>x. \<not> referSameObject x (controllerRef cr))
          (take i (ownerReferences ob) @ drop (Suc i) (ownerReferences ob))
        = filter (\<lambda>x. \<not> referSameObject x (controllerRef cr)) (ownerReferences ob)"
      by (intro filter_remove_out) simp_all
    with True st show ?thesis by (simp add: foreignRefs_def)
  qed
qed

lemma remove_not_controlled:
  assumes "\<not> controlledBy cr ob"
  shows "ownerStep cr True ob = ob"
proof -
  from remove_reference_cases [of cr ob] show ?thesis
  proof
    assume "ownerStep cr True ob = ob" then show ?thesis .
  next
    assume "\<exists>i. indexOwnerRef (ownerReferences ob) (controllerRef cr) = Some i
          \<and> isController (ownerReferences ob ! i)
          \<and> ownerStep cr True ob =
              ob\<lparr>ownerReferences := take i (ownerReferences ob) @ drop (Suc i) (ownerReferences ob)\<rparr>"
    then obtain i where i: "indexOwnerRef (ownerReferences ob) (controllerRef cr) = Some i"
      and c: "isController (ownerReferences ob ! i)" by blast
    note ix = indexOwnerRef_Some [OF i]
    from ix c have "controlledBy cr ob"
      by (auto simp: controlledBy_def list_ex_iff intro!: bexI [of _ "ownerReferences ob ! i"])
    with assms show ?thesis by simp
  qed
qed

lemma remove_none_left: "singleOwnerRef cr ob \<Longrightarrow> \<not> controlledBy cr (ownerStep cr True ob)"
  using remove_reference_none_left [of cr ob] by (simp add: controlledBy_def list_ex_iff)

lemma remove_exact:
  assumes c: "controlledBy cr ob" and single: "singleOwnerRef cr ob"
  shows "ownerReferences (ownerStep cr True ob) = foreignRefs cr ob"
proof -
  have "ownerStep cr True ob \<noteq> ob"
    using c remove_none_left [OF single] by auto
  with remove_reference_cases [of cr ob]
  obtain i where i: "indexOwnerRef (ownerReferences ob) (controllerRef cr) = Some i"
      and st: "ownerStep cr True ob =
              ob\<lparr>ownerReferences := take i (ownerReferences ob) @ drop (Suc i) (ownerReferences ob)\<rparr>"
    by blast
  let ?rs = "ownerReferences ob"
  let ?P = "\<lambda>x. referSameObject x (controllerRef cr)"
  note ix = indexOwnerRef_Some [OF i]
  from single ix single_match_elsewhere [of ?P ?rs i]
  have el: "filter ?P (take i ?rs) = []" "filter ?P (drop (Suc i) ?rs) = []"
    by (simp_all add: singleOwnerRef_def)
  then have "filter (\<lambda>x. \<not> ?P x) (take i ?rs @ drop (Suc i) ?rs) = take i ?rs @ drop (Suc i) ?rs"
    by (auto simp: filter_empty_conv filter_id_conv)
  moreover have "foreignRefs cr (ownerStep cr True ob) = foreignRefs cr ob"
    by (rule foreign_kept)
  ultimately show ?thesis by (simp add: st foreignRefs_def)
qed

lemma keepsOwnerRefs_applyF:
  assumes k: "keepsOwnerRefs mf" and a: "applyF cr retain mf ob v = (None, w, v')"
  shows "ownerReferences w = ownerReferences (ownerStep cr retain ob)"
proof (cases mf)
  case None
  with a show ?thesis by (simp add: applyF_def)
next
  case (Some m)
  with k have "ownerReferences (fst (snd (m (ownerStep cr retain ob) v))) = ownerReferences (ownerStep cr retain ob)"
    by (simp add: keepsOwnerRefs_def)
  with a Some show ?thesis by (simp add: applyF_def)
qed

lemma applyF_cases:
  "applyF cr retain mf ob v = (None, w, v') \<Longrightarrow>
     (case mf of None \<Rightarrow> w = ownerStep cr retain ob
      | Some m \<Rightarrow> (\<exists>u. m (ownerStep cr retain ob) v = (None, w, u)))"
  by (cases mf) (auto simp: applyF_def)

lemma written_create:
  assumes "CallCreate t w \<in> set (issued r (applied cr t d retain mf v r))"
  shows "fst (client_Get t (objNamespace d) (objName d) (Client r)) = Inl NotFound
    \<and> (case mf of None \<Rightarrow> w = ownerStep cr retain d
        | Some m \<Rightarrow> (\<exists>u. m (ownerStep cr retain d) v = (None, w, u)))
    \<and> (keepsOwnerRefs mf \<longrightarrow> ownerReferences w = ownerReferences (ownerStep cr retain d))"
proof -
  from assms have "CallCreate t w \<in> set (attemptedWrite cr t d retain mf v (Client r))"
    by (simp add: applied_def issued_CreateOrUpdate)
  from attemptedWrite_create [OF this]
  obtain v' where f: "fst (client_Get t (objNamespace d) (objName d) (Client r)) = Inl NotFound"
    and m: "mutate (applyF cr retain mf) d v = (None, w, v')" by blast
  note a = mutate_None(1) [OF m]
  from f applyF_cases [OF a] keepsOwnerRefs_applyF [OF _ a] show ?thesis by blast
qed

lemma written_update:
  assumes "CallUpdate t w \<in> set (issued r (applied cr t d retain mf v r))"
  shows "\<exists>live. fst (client_Get t (objNamespace d) (objName d) (Client r)) = Inr live
    \<and> (case mf of None \<Rightarrow> w = ownerStep cr retain live
        | Some m \<Rightarrow> (\<exists>u. m (ownerStep cr retain live) v = (None, w, u)))
    \<and> (keepsOwnerRefs mf \<longrightarrow> ownerReferences w = ownerReferences (ownerStep cr retain live))"
proof -
  from assms have "CallUpdate t w \<in> set (attemptedWrite cr t d retain mf v (Client r))"
    by (simp add: applied_def issued_CreateOrUpdate)
  from attemptedWrite_update [OF this]
  obtain live v' where f: "fst (client_Get t (objNamespace d) (objName d) (Client r)) = Inr live"
    and m: "mutate (applyF cr retain mf) live v = (None, w, v')" by blast
  note a = mutate_None(1) [OF m]
  from f applyF_cases [OF a] keepsOwnerRefs_applyF [OF _ a] show ?thesis by blast
qed

lemma keepsOwnerRefs_simps [simp]:
  "keepsOwnerRefs None" "keepsOwnerRefs (Some (rulesMutate rules))"
  "keepsOwnerRefs (Some (secretMutate c key len))"
  by (simp_all add: keepsOwnerRefs_def rulesMutate_def secretMutate_def Let_def split: option.splits)

lemma wrappers_applied:
  "CreateOrUpdateRole cr role r = applied cr Role role False (Some (rulesMutate (roleRules role))) () r"
  "CreateOrUpdateClusterRole cr role r = applied cr ClusterRole role True (Some (rulesMutate (roleRules role))) () r"
  "CreateOrUpdateClusterRoleBinding cr b r = applied cr ClusterRoleBinding b True (None :: unit mutateFn option) () r"
  by (simp_all add: CreateOrUpdateRole_def CreateOrUpdateClusterRole_def
      CreateOrUpdateClusterRoleBinding_def applied_def Let_def)

lemma keepsOwnerRefs_merge:
  assumes "\<forall>ob. ownerReferences (snd (MergeSpecs c ob spec ann)) = ownerReferences ob"
  shows "keepsOwnerRefs (Some (mergeMutate c spec ann))"
    and "keepsOwnerRefs (Some (serviceMutate c spec ann))"
  using assms
  by (simp_all add: keepsOwnerRefs_def mergeMutate_def serviceMutate_def split: prod.splits)
     (metis snd_conv)+

lemma keepsOwnerRefs_statefulSet:
  assumes "\<forall>ob. ownerReferences (snd (MergeSpecs c ob spec Map.empty)) = ownerReferences ob"
  shows "keepsOwnerRefs (Some (statefulSetMutate c spec))"
  using assms
  by (simp add: keepsOwnerRefs_def statefulSetMutate_def Let_def split: prod.splits)
     (metis snd_conv)

lemma demo_accepted:
  "ownerAccepted demoCoroot demoLiveRole" "\<not> ownerAccepted demoCoroot demoOwnedRole"
  "ownerAccepted demoCoroot demoRole"
  using demo_validate demo_controllers
  by (simp_all add: ownerAccepted_def validateOwner_def GetControllerOf_def demoRole_def)

lemma demo_controlled:
  "controlledBy demoCoroot demoLiveClusterRole" "\<not> controlledBy demoCoroot demoOwnedRole"
  "foreignRefs demoCoroot demoLiveClusterRole = [demoPlainRef]"
  using demo_controllers by (simp_all add: controlledBy_def foreignRefs_def)

lemma demo_set:
  "ownerStep demoCoroot False demoRole = demoCreatedRole"
  using demo_accepted(3)
  by (simp add: set_reference_cases upsertOwnerRef_def demoCreatedRole_def demoRole_def)

lemma demoRole_created:
  "issued (demoReconciler []) (applied demoCoroot Role demoRole False
       (Some (rulesMutate (roleRules demoRole))) () (demoReconciler []))
     = [CallGet Role ''ns'' ''example-nonroot'', CallCreate Role demoCreatedRole]"
proof -
  have f: "fst (client_Get Role ''ns'' ''example-nonroot'' (Client (demoReconciler []))) = Inl NotFound"
    by (simp add: client_Get_cases nextFault_def)
  have m: "mutate (applyF demoCoroot False (Some (rulesMutate (roleRules demoRole)))) demoRole ()
             = (None, demoCreatedRole, ())"
    by (simp add: mutate_rules demo_set demoCreatedRole_def)
  show ?thesis using f m
    by (simp add: applied_def issued_CreateOrUpdate attemptedWrite_def)
qed

lemma demoBinding_created:
  "issued (demoReconciler []) (CreateOrUpdateClusterRoleBinding demoCoroot (demoClusterObject demoCoroot)
       (demoReconciler []))
     = [CallGet ClusterRoleBinding [] ''example-cluster-agent'',
        CallCreate ClusterRoleBinding (demoClusterObject demoCoroot)]"
proof -
  have f: "fst (client_Get ClusterRoleBinding [] ''example-cluster-agent'' (Client (demoReconciler [])))
             = Inl NotFound"
    by (simp add: client_Get_cases nextFault_def)
  have "\<not> controlledBy demoCoroot (demoClusterObject demoCoroot)"
    by (simp add: controlledBy_def)
  then have s: "ownerStep demoCoroot True (demoClusterObject demoCoroot) = demoClusterObject demoCoroot"
    by (rule remove_not_controlled)
  have m: "mutate (applyF demoCoroot True (None :: unit mutateFn option)) (demoClusterObject demoCoroot) ()
             = (None, demoClusterObject demoCoroot, ())"
    by (simp add: mutate_none s)
  show ?thesis using f m
    by (simp add: wrappers_applied applied_def issued_CreateOrUpdate attemptedWrite_def)
qed

lemma demoShadowed_issued:
  "issued demoShadowedCluster (CreateOrUpdateClusterRole demoCoroot demoClusterRole demoShadowedCluster)
     = [CallGet ClusterRole [] ''example-cluster-agent'', CallUpdate ClusterRole demoWrittenShadowed]"
proof -
  have sel: "objNamespace demoShadowedClusterRole = []"
    "objName demoShadowedClusterRole = ''example-cluster-agent''"
    "roleRules demoShadowedClusterRole = []"
    by (simp_all add: demoShadowedClusterRole_def demoClusterObject_def emptyObject_def)
  have f: "fst (client_Get ClusterRole [] ''example-cluster-agent'' (Client demoShadowedCluster))
             = Inr demoShadowedClusterRole"
    by (simp add: client_Get_found demoShadowedCluster_def nextFault_def sel)
  have s: "ownerStep demoCoroot True demoShadowedClusterRole = demoShadowedClusterRole"
    by (simp add: ownerStep_def RemoveControllerReference_def HasControllerReference_def
        demoShadowedClusterRole_def demoShadowRef_def referSameObject_def isController_def
        controllerRef_def)
  have m: "mutate (applyF demoCoroot True (Some (rulesMutate (roleRules demoClusterRole)))) demoShadowedClusterRole ()
             = (None, demoWrittenShadowed, ())"
    by (simp add: mutate_rules s demoWrittenShadowed_def)
  have "roleRules demoShadowedClusterRole \<noteq> roleRules demoWrittenShadowed"
    by (simp add: demoWrittenShadowed_def sel)
  then have ne: "demoShadowedClusterRole \<noteq> demoWrittenShadowed" by metis
  show ?thesis using ne f m
    by (simp add: CreateOrUpdateClusterRole_def Let_def issued_CreateOrUpdate attemptedWrite_def)
qed

lemma demoOwned_applied:
  "issued demoOwnedCluster (applied demoCoroot Role demoRole False
       (Some (rulesMutate (roleRules demoRole))) () demoOwnedCluster)
     = [CallGet Role ''ns'' ''example-nonroot'', CallUpdate Role demoWrittenRole]"
  using demoOwned_issued by (simp add: wrappers_applied)

lemma demoOwned_fetch:
  "fst (client_Get Role ''ns'' ''example-nonroot'' (Client demoOwnedCluster)) = Inr demoOwnedRole"
  by (simp add: client_Get_found demoOwnedCluster_def nextFault_def)

lemma demo_merge_keeps:
  "\<forall>ob. ownerReferences (snd (MergeSpecs demoCollaborators ob spec ann)) = ownerReferences ob"
  by (simp add: demoMergeSpecs_def)


subsection \<open>The cluster role applied twice\<close>



lemma demoWrittenClusterRole_sel [simp]:
  "objNamespace demoWrittenClusterRole = []" "objName demoWrittenClusterRole = ''example-cluster-agent''"
  "ownerReferences demoWrittenClusterRole = [demoPlainRef]"
  by (simp_all add: demoWrittenClusterRole_def)








subsection \<open>Two calls for one secret\<close>

lemma CreateOrUpdateSecret_update_eq:
  assumes f: "fst (client_Get Secret (crNamespace cr) name (Client r)) = Inr live"
    and v: "secretData live key = None"
  shows "CreateOrUpdateSecret c cr component name key len r =
     (RandomString c (entropy r) len,
      case client_Update Secret
             ((ownerStep cr False live)
                \<lparr>secretData := (secretData live)(key \<mapsto> RandomString c (entropy r) len)\<rparr>)
             (advance (CallGet Secret (crNamespace cr) name) (Client r)) of
        (Some e, k2) \<Rightarrow> r\<lparr>Client := k2, logs := logs r @ [LogError e ''failed to create or update''],
                           entropy := Suc (entropy r)\<rparr>
      | (None, k2) \<Rightarrow> r\<lparr>Client := k2, logs := logs r @ [LogInfo ''updated''],
                         entropy := Suc (entropy r)\<rparr>)"
proof -
  let ?s = "secretObject cr component name"
  let ?d = "RandomString c (entropy r) len"
  let ?ob = "(ownerStep cr False live)\<lparr>secretData := (secretData live)(key \<mapsto> ?d)\<rparr>"
  have f': "fst (client_Get Secret (objNamespace ?s) (objName ?s) (Client r)) = Inr live"
    using f by simp
  have m: "mutate (applyF cr False (Some (secretMutate c key len))) live ([], entropy r)
             = (None, ?ob, (?d, Suc (entropy r)))"
    by (simp add: mutate_secret v)
  have "secretData ?ob key \<noteq> secretData live key"
    using v by simp
  then have ne: "live \<noteq> ?ob" by metis
  show ?thesis
    by (simp add: CreateOrUpdateSecret_alt CreateOrUpdate_found_changed [OF f' m ne]
          split: prod.splits option.splits)
qed

lemma secret_fetch_error:
  assumes f: "fst (client_Get Secret (crNamespace cr) name (Client r)) = Inl e" and ne: "e \<noteq> NotFound"
  shows "CreateOrUpdateSecret c cr component name key len r =
     ([], r\<lparr>Client := advance (CallGet Secret (crNamespace cr) name) (Client r),
            logs := logs r @ [LogError e ''failed to create or update''],
            entropy := entropy r\<rparr>)"
proof -
  let ?s = "secretObject cr component name"
  have fe: "fst (client_Get Secret (objNamespace ?s) (objName ?s) (Client r)) = Inl e"
    using f by simp
  show ?thesis
    by (simp add: CreateOrUpdateSecret_alt CreateOrUpdate_fetch_error [OF fe ne])
qed

lemma secret_two_calls:
  assumes ok: "failures (snd (CreateOrUpdateSecret c cr component name key len r)) = failures r"
    and wf: "\<forall>ob. objects (Client r) (Secret, crNamespace cr, name) = Some ob
                 \<longrightarrow> objNamespace ob = crNamespace cr \<and> objName ob = name"
    and same: "objects (Client r2) (Secret, crNamespace cr, name)
                 = objects (Client (snd (CreateOrUpdateSecret c cr component name key len r)))
                     (Secret, crNamespace cr, name)"
    and nf: "nextFault (Client r2) = None"
  shows "fst (CreateOrUpdateSecret c cr component2 name key len2 r2)
           = fst (CreateOrUpdateSecret c cr component name key len r)"
proof -
  from secret_kept_errorfree [OF ok wf]
  obtain ob where st: "objects (Client (snd (CreateOrUpdateSecret c cr component name key len r)))
                 (Secret, crNamespace cr, name) = Some ob"
    and v: "secretData ob key = Some (fst (CreateOrUpdateSecret c cr component name key len r))"
    and id: "objNamespace ob = crNamespace cr" "objName ob = name"
    by blast
  from st same nf have f: "fst (client_Get Secret (crNamespace cr) name (Client r2)) = Inr ob"
    by (simp add: client_Get_found)
  from secret_present [OF f v id, of c component2 len2] show ?thesis by simp
qed

lemma demoLiveSecret_sel [simp]:
  "objNamespace demoLiveSecret = ''ns''" "objName demoLiveSecret = ''example-clickhouse''"
  "secretData demoLiveSecret = [''user'' \<mapsto> ''default'']"
  "ownerReferences demoLiveSecret = []"
  by (simp_all add: demoLiveSecret_def secretObject_def emptyObject_def)

lemma demoKeyedSecret_sel [simp]:
  "objNamespace demoKeyedSecret = ''ns''" "objName demoKeyedSecret = ''example-clickhouse''"
  "secretData demoKeyedSecret = [''user'' \<mapsto> ''default'', ''password'' \<mapsto> ''000'']"
  by (simp_all add: demoKeyedSecret_def)

lemma demoSecret_fetch:
  "fst (client_Get Secret (crNamespace demoCoroot) ''example-clickhouse'' (Client demoSecretCluster))
     = Inr demoLiveSecret"
  by (simp add: client_Get_found demoSecretCluster_def nextFault_def)

lemma demoSecret_first:
  "demoSecretCall 3 demoSecretCluster =
     (''000'', demoSecretCluster
        \<lparr>Client := \<lparr>objects = [(Secret, ''ns'', ''example-clickhouse'') \<mapsto> demoKeyedSecret],
             coroots = Map.empty, faults = [],
             calls = [CallGet Secret ''ns'' ''example-clickhouse'', CallUpdate Secret demoKeyedSecret]\<rparr>,
          logs := [LogInfo ''updated''], entropy := Suc 0\<rparr>)"
proof -
  have v: "secretData demoLiveSecret ''password'' = None" by simp
  from CreateOrUpdateSecret_update_eq [OF demoSecret_fetch v] show ?thesis
    by (simp add: demoSecretCall_def client_Update_cases nextFault_def advance_def r1
        demoSecretCluster_def demoReconcilerWith_def demoKeyedSecret_def)
qed

lemma demoSecret_once:
  "fst (demoSecretCall 3 demoSecretCluster) = ''000''"
  "failures (snd (demoSecretCall 3 demoSecretCluster)) = []"
  "nextFault (Client (snd (demoSecretCall 3 demoSecretCluster))) = None"
  "objects (Client (snd (demoSecretCall 3 demoSecretCluster))) (Secret, ''ns'', ''example-clickhouse'')
     = Some demoKeyedSecret"
  "entropy (snd (demoSecretCall 3 demoSecretCluster)) = Suc 0"
  by (simp_all add: demoSecret_first failures_def nextFault_def)

lemma demoSecret_refetch:
  "fst (client_Get Secret (crNamespace demoCoroot) ''example-clickhouse''
         (Client (snd (demoSecretCall 3 demoSecretCluster)))) = Inr demoKeyedSecret"
  by (simp add: client_Get_found demoSecret_once)

lemma demoFailedFetch_fetch:
  "fst (client_Get Secret (crNamespace demoCoroot) ''example-clickhouse'' (Client demoFailedFetch))
     = Inl (Transport ''timeout'')"
  by (simp add: client_Get_cases demoFailedFetch_def nextFault_def)

lemma demoEmpty_fetch:
  "fst (client_Get Secret (crNamespace demoCoroot) ''example-clickhouse'' (Client (demoReconciler [])))
     = Inl NotFound"
  by (simp add: client_Get_cases nextFault_def)

lemma demo_second_call:
  "fst (demoSecretCall 3 (snd (demoSecretCall 3 demoFailedCreate))) = ''111''"
proof -
  let ?r = "snd (demoSecretCall 3 demoFailedCreate)"
  have nf: "fst (client_Get Secret (crNamespace demoCoroot) ''example-clickhouse'' (Client ?r)) = Inl NotFound"
    by (simp add: demoFailedCreate_def demo_first_call client_Get_cases nextFault_def)
  have e: "entropy ?r = Suc 0"
    by (simp add: demoFailedCreate_def demo_first_call)
  have "demoRandomString (Suc 0) 3 = ''111''"
    using r2 by simp
  with secret_absent_notfound [OF nf, of demoCollaborators "''clickhouse''" "''password''" 3] e
  show ?thesis
    by (simp add: demoSecretCall_def [of 3 ?r])
qed


subsection \<open>Quiet steps\<close>

lemma coroots_client [simp]:
  "coroots (snd (client_Create t ob k)) = coroots k"
  "coroots (snd (client_Update t ob k)) = coroots k"
  "coroots (snd (client_Delete t ob k)) = coroots k"
  by (simp_all add: client_Create_cases client_Update_cases client_Delete_cases split: option.splits)

lemma CreateOrUpdate_shape:
  "snd (CreateOrUpdate cr t ob False retain mf v r)
     = r\<lparr>Client := Client (snd (CreateOrUpdate cr t ob False retain mf v r)),
         logs := logs (snd (CreateOrUpdate cr t ob False retain mf v r))\<rparr>
   \<and> coroots (Client (snd (CreateOrUpdate cr t ob False retain mf v r))) = coroots (Client r)"
proof (cases "fst (client_Get t (objNamespace ob) (objName ob) (Client r))")
  case (Inl e)
  show ?thesis
  proof (cases "e = NotFound")
    case False
    show ?thesis
      by (simp add: CreateOrUpdate_fetch_error [OF Inl False])
  next
    case True
    with Inl have nf: "fst (client_Get t (objNamespace ob) (objName ob) (Client r)) = Inl NotFound"
      by simp
    obtain me w v' where m: "mutate (applyF cr retain mf) ob v = (me, w, v')"
      by (cases "mutate (applyF cr retain mf) ob v")
    show ?thesis
    proof (cases me)
      case None
      with m have m': "mutate (applyF cr retain mf) ob v = (None, w, v')" by simp
      let ?k1 = "advance (CallGet t (objNamespace ob) (objName ob)) (Client r)"
      obtain ce k2 where c: "client_Create t w ?k1 = (ce, k2)"
        by (cases "client_Create t w ?k1")
      then have "coroots k2 = coroots (Client r)"
        using coroots_client(1) [of t w ?k1] by simp
      then show ?thesis
        by (cases ce) (simp_all add: CreateOrUpdate_absent [OF nf m'] c)
    next
      case (Some e')
      with m have m': "mutate (applyF cr retain mf) ob v = (Some e', w, v')" by simp
      show ?thesis
        by (simp add: CreateOrUpdate_absent_mutate_error [OF nf m'])
    qed
  qed
next
  case (Inr live)
  obtain me w v' where m: "mutate (applyF cr retain mf) live v = (me, w, v')"
    by (cases "mutate (applyF cr retain mf) live v")
  show ?thesis
  proof (cases me)
    case (Some e')
    with m have m': "mutate (applyF cr retain mf) live v = (Some e', w, v')" by simp
    show ?thesis
      by (simp add: CreateOrUpdate_found_mutate_error [OF Inr m'])
  next
    case None
    with m have m': "mutate (applyF cr retain mf) live v = (None, w, v')" by simp
    show ?thesis
    proof (cases "live = w")
      case True
      with m' have m'': "mutate (applyF cr retain mf) live v = (None, live, v')" by simp
      show ?thesis
        by (simp add: CreateOrUpdate_found_unchanged [OF Inr m''])
    next
      case False
      let ?k1 = "advance (CallGet t (objNamespace ob) (objName ob)) (Client r)"
      obtain ce k2 where c: "client_Update t w ?k1 = (ce, k2)"
        by (cases "client_Update t w ?k1")
      then have "coroots k2 = coroots (Client r)"
        using coroots_client(2) [of t w ?k1] by simp
      then show ?thesis
        by (cases ce) (simp_all add: CreateOrUpdate_found_changed [OF Inr m' False] c)
    qed
  qed
qed

lemma quiet_refl [simp]: "quiet r r"
  by (simp add: quiet_def)

lemma quiet_trans: "quiet a b \<Longrightarrow> quiet b c \<Longrightarrow> quiet a c"
  by (auto simp add: quiet_def)

lemma quiet_fields [simp]:
  "quiet r (r'\<lparr>entropy := n\<rparr>) = quiet r r'"
  "quiet r (r'\<lparr>logs := lg\<rparr>) = quiet r r'"
  by (simp_all add: quiet_def)

lemma guarded_simps [simp]:
  "\<not> guarded (CallGet t ns n)" "\<not> guarded (CallCreate t ob)" "\<not> guarded (CallUpdate t ob)"
  "\<not> guarded (CallGetCoroot q)"
  "guarded (CallDelete t ns n) \<longleftrightarrow> t = Deployment \<or> t = ClusterRole \<or> t = ClusterRoleBinding"
  by (auto simp add: guarded_def)

lemma quiet_apply: "quiet r (snd (CreateOrUpdate cr t ob False retain mf v r))"
proof -
  let ?r' = "snd (CreateOrUpdate cr t ob False retain mf v r)"
  from CreateOrUpdate_shape [of cr t ob retain mf v r]
  have s: "?r' = r\<lparr>Client := Client ?r', logs := logs ?r'\<rparr>"
    and c: "coroots (Client ?r') = coroots (Client r)" by simp_all
  have i: "instances ?r' = instances r" "deploymentDeleted ?r' = deploymentDeleted r"
    by (subst s, simp)+
  have "calls (Client ?r') =
     calls (Client r) @ CallGet t (objNamespace ob) (objName ob)
       # attemptedWrite cr t ob retain mf v (Client r)"
    by (rule calls_CreateOrUpdate)
  moreover have "filter guarded (CallGet t (objNamespace ob) (objName ob)
       # attemptedWrite cr t ob retain mf v (Client r)) = []"
    by (auto simp add: filter_empty_conv dest!: attemptedWrite_is_write)
  ultimately have "\<exists>xs. calls (Client ?r') = calls (Client r) @ xs \<and> filter guarded xs = []"
    by blast
  then show ?thesis using c i by (simp add: quiet_def)
qed

lemma quiet_delete:
  assumes "t \<noteq> Deployment" "t \<noteq> ClusterRole" "t \<noteq> ClusterRoleBinding"
  shows "quiet r (snd (CreateOrUpdate cr t ob True retain mf v r))"
  using assms
  by (simp add: quiet_def CreateOrUpdate_def client_Delete_cases split: option.splits)

lemma quiet_wrappers [simp]:
  "quiet r (CreateOrUpdateRole cr role r)"
  "quiet r (CreateOrUpdateClusterRole cr role r)"
  "quiet r (CreateOrUpdateClusterRoleBinding cr b r)"
  "quiet r (CreateOrUpdateDeployment c cr d r)"
  "quiet r (CreateOrUpdateDaemonSet c cr d r)"
  "quiet r (CreateOrUpdateStatefulSet c cr d r)"
  "quiet r (CreateOrUpdatePVC c cr d policy r)"
  "quiet r (CreateOrUpdateService c cr d r)"
  "quiet r (CreateOrUpdateIngress c cr d del r)"
  by (simp_all add: CreateOrUpdateRole_def CreateOrUpdateClusterRole_def
      CreateOrUpdateClusterRoleBinding_def CreateOrUpdateDeployment_def CreateOrUpdateDaemonSet_def
      CreateOrUpdateStatefulSet_def CreateOrUpdatePVC_def CreateOrUpdateService_def
      CreateOrUpdateIngress_def Let_def quiet_apply)
     (cases del; simp add: quiet_apply quiet_delete)

lemma quiet_serviceAccount [simp]: "quiet r (CreateOrUpdateServiceAccount c cr component scc r)"
  unfolding CreateOrUpdateServiceAccount_def Let_def
  by (rule quiet_trans [OF quiet_apply quiet_apply])

lemma quiet_secret [simp]: "quiet r (snd (CreateOrUpdateSecret c cr component name key len r))"
proof -
  obtain d n r' where x: "CreateOrUpdate cr Secret (secretObject cr component name) False False
             (Some (secretMutate c key len)) ([], entropy r) r = ((d, n), r')"
    by (metis surj_pair)
  then have "r' = snd (CreateOrUpdate cr Secret (secretObject cr component name) False False
             (Some (secretMutate c key len)) ([], entropy r) r)" by simp
  then have "quiet r r'" by (simp add: quiet_apply)
  then show ?thesis by (simp add: CreateOrUpdateSecret_alt x)
qed

lemma run_simps: "run [] r = r" "run (s # ss) r = run ss (s r)"
  by (simp_all add: run_def)

lemma run_append: "run (xs @ ys) r = run ys (run xs r)"
  by (simp add: run_def)

lemma quiet_run:
  "(\<And>s r. s \<in> set steps \<Longrightarrow> quiet r (s r)) \<Longrightarrow> quiet r (run steps r)"
proof (induction steps arbitrary: r)
  case Nil
  then show ?case by (simp add: run_simps)
next
  case (Cons s steps)
  have "quiet r (s r)" by (rule Cons.prems) simp
  moreover have "quiet (s r) (run steps (s r))"
    by (rule Cons.IH) (rule Cons.prems, simp)
  ultimately show ?case by (simp add: run_simps quiet_trans)
qed


subsection \<open>One pass of Reconcile\<close>

lemma client_GetCoroot_cases:
  "client_GetCoroot req k =
     (case nextFault k of
        Some e \<Rightarrow> (Inl e, advance (CallGetCoroot req) k)
      | None \<Rightarrow> (case coroots k req of
            None \<Rightarrow> (Inl NotFound, advance (CallGetCoroot req) k)
          | Some cr \<Rightarrow> (Inr cr, advance (CallGetCoroot req) k)))"
  by (simp add: client_GetCoroot_def issue_def split: option.splits)

lemma client_GetCoroot_snd [simp]: "snd (client_GetCoroot req k) = advance (CallGetCoroot req) k"
  by (simp add: client_GetCoroot_cases split: option.splits)

lemma client_GetCoroot_eq:
  "fst (client_GetCoroot req k) = x \<Longrightarrow> client_GetCoroot req k = (x, advance (CallGetCoroot req) k)"
  by (metis client_GetCoroot_snd prod.collapse)

lemma Reconcile_error:
  assumes "fst (client_GetCoroot req (Client r)) = Inl e" "e \<noteq> NotFound"
  shows "Reconcile c req r = ((emptyResult, Some e), r\<lparr>Client := advance (CallGetCoroot req) (Client r)\<rparr>)"
  using assms(2) by (simp add: Reconcile_def client_GetCoroot_eq [OF assms(1)])

lemma Reconcile_found_eq:
  assumes f: "fst (client_GetCoroot req (Client r)) = Inr cr"
  shows "Reconcile c req r =
     ((emptyResult, None),
      (if AgentsOnly (crSpec cr) \<noteq> None
       then run (agentSteps c cr)
              (r\<lparr>Client := advance (CallGetCoroot req) (Client r),
                 instances := (instances r)(req \<mapsto> True)\<rparr>)
       else run (storageSteps c cr)
              (legacyStep cr
                 (run (corootSteps c cr)
                    (run (agentSteps c cr)
                       (r\<lparr>Client := advance (CallGetCoroot req) (Client r),
                          instances := (instances r)(req \<mapsto> True)\<rparr>))))))"
  by (simp add: Reconcile_def client_GetCoroot_eq [OF f] Let_def run_def agentSteps_def
      corootSteps_def storageSteps_def legacyStep_def prometheusSteps_def clickhouseSteps_def)
section \<open>The claims\<close>

text \<open>
  Claim C10. The two defaulting rules for \<open>Replicas\<close> disagree on negative values. As the
  claim is worded, \<^verbatim>\<open>corootStatefulSet\<close> would set one replica for every \<open>Replicas\<close> that is
  0 or negative. The code first converts the 64-bit \<^verbatim>\<open>int\<close> to \<^verbatim>\<open>int32\<close>, so this holds for
  the values that fit 32 bits: every \<open>Replicas\<close> from \<open>-2^31\<close> to 0 gives one StatefulSet
  replica, \<open>Replicas = 0\<close> gives one storage claim, and every negative \<open>Replicas\<close> gives no
  storage claim.
\<close>

theorem replicas_defaulting:
  "(- (2 ^ 31) \<le> sint (Replicas (crSpec cr)) \<and> sint (Replicas (crSpec cr)) \<le> 0
      \<longrightarrow> specReplicas (objSpec (corootStatefulSet c cr)) = Some 1)
   \<and> (Replicas (crSpec cr) = 0 \<longrightarrow> length (corootPVCs cr) = 1)
   \<and> (sint (Replicas (crSpec cr)) < 0 \<longrightarrow> corootPVCs cr = [])"
proof (intro conjI impI)
  assume "- (2 ^ 31) \<le> sint (Replicas (crSpec cr)) \<and> sint (Replicas (crSpec cr)) \<le> 0"
  then have "sint (ucast (Replicas (crSpec cr)) :: 32 word) = sint (Replicas (crSpec cr))"
    by (intro sint_int32_in_range) simp_all
  with \<open>_ \<and> sint (Replicas (crSpec cr)) \<le> 0\<close>
  show "specReplicas (objSpec (corootStatefulSet c cr)) = Some 1"
    by (simp add: statefulSet_replicas)
next
  assume "Replicas (crSpec cr) = 0"
  then show "length (corootPVCs cr) = 1" by (simp add: length_corootPVCs)
next
  assume neg: "sint (Replicas (crSpec cr)) < 0"
  then have "Replicas (crSpec cr) \<noteq> 0" by auto
  with neg have "length (corootPVCs cr) = 0" by (simp add: length_corootPVCs)
  then show "corootPVCs cr = []" by simp
qed

text \<open>At \<open>Replicas = -3\<close>: one StatefulSet replica and no storage claim.\<close>

theorem replicas_defaulting_witness:
  "- (2 ^ 31) \<le> sint (Replicas (crSpec (demoCorootReplicas (- 3))))
   \<and> sint (Replicas (crSpec (demoCorootReplicas (- 3)))) \<le> 0
   \<and> sint (Replicas (crSpec (demoCorootReplicas (- 3)))) < 0
   \<and> specReplicas (objSpec (corootStatefulSet demoCollaborators (demoCorootReplicas (- 3)))) = Some 1
   \<and> corootPVCs (demoCorootReplicas (- 3)) = []"
  using replicas_defaulting [of "demoCorootReplicas (- 3)" demoCollaborators]
  by simp

text \<open>
  At \<open>Replicas = -4294967294\<close> the conversion to \<^verbatim>\<open>int32\<close> leaves 2: the StatefulSet gets two
  replicas, not one, and there is still no storage claim.
\<close>

theorem replicas_defaulting_counterexample:
  "sint (Replicas (crSpec (demoCorootReplicas (- 4294967294)))) \<le> 0
   \<and> specReplicas (objSpec (corootStatefulSet demoCollaborators (demoCorootReplicas (- 4294967294)))) = Some 2
   \<and> specReplicas (objSpec (corootStatefulSet demoCollaborators (demoCorootReplicas (- 4294967294)))) \<noteq> Some 1
   \<and> corootPVCs (demoCorootReplicas (- 4294967294)) = []"
proof -
  have "length (corootPVCs (demoCorootReplicas (- 4294967294))) = 0"
    by (simp add: length_corootPVCs)
  then show ?thesis by (simp add: statefulSet_replicas)
qed



text \<open>
  Claim C6. As worded, a conflict on update would make the apply fetch again and retry the
  merge once. \<^verbatim>\<open>CreateOrUpdate\<close> does neither: one call issues the fetch first, at most one
  write after it and no further fetch. When the update fails with a conflict, the calls
  are exactly the fetch and that update, the conflict is logged as
  \<^verbatim>\<open>failed to create or update\<close>, the cluster is left as it was and the call returns. The
  merge is tried again only when a later pass applies the descriptor again.
\<close>

theorem no_retry_on_conflict:
  "(fst (client_Get t (objNamespace ob) (objName ob) (Client r)) = Inr live
     \<and> mutate (applyF cr retain mf) live v = (None, w, v')
     \<and> live \<noteq> w
     \<and> nextFault (advance (CallGet t (objNamespace ob) (objName ob)) (Client r)) = Some Conflict
    \<longrightarrow> issued r (snd (CreateOrUpdate cr t ob False retain mf v r))
          = [CallGet t (objNamespace ob) (objName ob), CallUpdate t w]
      \<and> logs (snd (CreateOrUpdate cr t ob False retain mf v r))
          = logs r @ [LogError Conflict ''failed to create or update'']
      \<and> objects (Client (snd (CreateOrUpdate cr t ob False retain mf v r))) = objects (Client r))
   \<and> length (issued r (snd (CreateOrUpdate cr t ob False retain mf v r))) \<le> 2
   \<and> hd (issued r (snd (CreateOrUpdate cr t ob False retain mf v r)))
       = CallGet t (objNamespace ob) (objName ob)
   \<and> CallGet t (objNamespace ob) (objName ob)
       \<notin> set (tl (issued r (snd (CreateOrUpdate cr t ob False retain mf v r))))"
  by (rule apply_once)

text \<open>A role whose update meets a conflict: the hypotheses hold and the calls are two.\<close>

theorem no_retry_on_conflict_witness:
  "fst (client_Get Role (objNamespace demoRole) (objName demoRole) (Client demoConflict)) = Inr demoLiveRole
   \<and> mutate (applyF demoCoroot False (Some (rulesMutate (roleRules demoRole)))) demoLiveRole ()
        = (None, demoMergedRole, ())
   \<and> demoLiveRole \<noteq> demoMergedRole
   \<and> nextFault (advance (CallGet Role (objNamespace demoRole) (objName demoRole)) (Client demoConflict))
        = Some Conflict
   \<and> issued demoConflict
        (snd (CreateOrUpdate demoCoroot Role demoRole False False
                (Some (rulesMutate (roleRules demoRole))) () demoConflict))
        = [CallGet Role ''ns'' ''example-nonroot'', CallUpdate Role demoMergedRole]
   \<and> logs (snd (CreateOrUpdate demoCoroot Role demoRole False False
                (Some (rulesMutate (roleRules demoRole))) () demoConflict))
        = [LogError Conflict ''failed to create or update'']"
  using no_retry_on_conflict [of Role demoRole demoConflict demoLiveRole demoCoroot False
      "Some (rulesMutate (roleRules demoRole))" "()" demoMergedRole "()"]
    demoMergedRole_ne demoConflict_fetch demoConflict_next demoConflict_mutate
  by (simp add: demoConflict_def)

text \<open>
  \<^verbatim>\<open>CreateOrUpdateRole\<close> on a live role, the update answered by a conflict: one fetch, one
  update, one logged failure. There is no second fetch and no second update.
\<close>

theorem retry_on_conflict_counterexample:
  "issued demoConflict (CreateOrUpdateRole demoCoroot demoRole demoConflict)
     = [CallGet Role ''ns'' ''example-nonroot'', CallUpdate Role demoMergedRole]
   \<and> logs (CreateOrUpdateRole demoCoroot demoRole demoConflict)
     = [LogError Conflict ''failed to create or update'']
   \<and> objects (Client (CreateOrUpdateRole demoCoroot demoRole demoConflict))
     = objects (Client demoConflict)"
  using apply_once [of Role demoRole demoConflict demoLiveRole demoCoroot False
      "Some (rulesMutate (roleRules demoRole))" "()" demoMergedRole "()"]
    demoMergedRole_ne demoConflict_fetch demoConflict_next demoConflict_mutate
  by (simp add: CreateOrUpdateRole_def demoConflict_def)



text \<open>
  Claim C8. As worded, an apply with the delete flag would log and report every delete
  error other than "not found". \<^verbatim>\<open>CreateOrUpdate\<close> issues exactly one delete by identity and
  nothing else, hands the caller's variables back untouched and never logs a failure: when
  the delete succeeds it logs \<^verbatim>\<open>deleted\<close> and the object is gone; on every error, "not found"
  or any other, it logs nothing and leaves the cluster as it was. The caller's pass goes on
  in both cases.
\<close>

theorem delete_errors_dropped:
  "issued r (snd (CreateOrUpdate cr t ob True retain mf v r))
     = [CallDelete t (objNamespace ob) (objName ob)]
   \<and> fst (CreateOrUpdate cr t ob True retain mf v r) = v
   \<and> failures (snd (CreateOrUpdate cr t ob True retain mf v r)) = failures r
   \<and> (fst (client_Delete t ob (Client r)) = None
        \<longrightarrow> logs (snd (CreateOrUpdate cr t ob True retain mf v r)) = logs r @ [LogInfo ''deleted'']
          \<and> objects (Client (snd (CreateOrUpdate cr t ob True retain mf v r)))
              = (objects (Client r))((t, objNamespace ob, objName ob) := None))
   \<and> (fst (client_Delete t ob (Client r)) \<noteq> None
        \<longrightarrow> logs (snd (CreateOrUpdate cr t ob True retain mf v r)) = logs r
          \<and> objects (Client (snd (CreateOrUpdate cr t ob True retain mf v r))) = objects (Client r))"
  by (rule delete_once)

text \<open>Deleting a live ingress, and deleting one that is already gone.\<close>

theorem delete_errors_dropped_witness:
  "fst (client_Delete Ingress (corootIngress demoCoroot) (Client demoIngressLive)) = None
   \<and> logs (snd (CreateOrUpdate demoCoroot Ingress (corootIngress demoCoroot) True False
                  (None :: unit mutateFn option) () demoIngressLive)) = [LogInfo ''deleted'']
   \<and> objects (Client (snd (CreateOrUpdate demoCoroot Ingress (corootIngress demoCoroot) True False
                  (None :: unit mutateFn option) () demoIngressLive))) = Map.empty
   \<and> fst (client_Delete Ingress (corootIngress demoCoroot) (Client demoIngressGone)) \<noteq> None
   \<and> logs (snd (CreateOrUpdate demoCoroot Ingress (corootIngress demoCoroot) True False
                  (None :: unit mutateFn option) () demoIngressGone)) = []
   \<and> issued demoIngressGone (snd (CreateOrUpdate demoCoroot Ingress (corootIngress demoCoroot) True False
                  (None :: unit mutateFn option) () demoIngressGone))
        = [CallDelete Ingress ''ns'' ''example'']"
  using delete_errors_dropped [of demoIngressLive demoCoroot Ingress "corootIngress demoCoroot" False
      "None :: unit mutateFn option" "()"]
    delete_errors_dropped [of demoIngressGone demoCoroot Ingress "corootIngress demoCoroot" False
      "None :: unit mutateFn option" "()"]
    demo_delete_results
  by (simp add: demoIngressLive_def demoIngressGone_def)

text \<open>
  \<^verbatim>\<open>CreateOrUpdateIngress\<close> with the delete flag, the delete answered by a transport error:
  nothing is logged.
\<close>

theorem delete_error_logged_counterexample:
  "fst (client_Delete Ingress (corootIngress demoCoroot) (Client demoIngressFailing))
     = Some (Transport ''timeout'')
   \<and> logs (CreateOrUpdateIngress demoCollaborators demoCoroot (corootIngress demoCoroot) True
             demoIngressFailing) = []
   \<and> objects (Client (CreateOrUpdateIngress demoCollaborators demoCoroot (corootIngress demoCoroot) True
             demoIngressFailing)) = objects (Client demoIngressFailing)"
  using delete_once [of demoIngressFailing demoCoroot Ingress "corootIngress demoCoroot" False
      "Some (mergeMutate demoCollaborators (objSpec (corootIngress demoCoroot))
               (objAnnotations (corootIngress demoCoroot)))" "()"]
    demo_delete_results
  by (simp add: CreateOrUpdateIngress_def Let_def demoIngressFailing_def)



text \<open>
  Claim C5. The volume claim templates of a StatefulSet survive the merge. Whatever object
  the mutate function of \<^verbatim>\<open>CreateOrUpdateStatefulSet\<close> runs on, and whatever \<^verbatim>\<open>MergeSpecs\<close>
  does and returns, the object leaves with the templates it came with, and the rest of
  its spec is what \<^verbatim>\<open>MergeSpecs\<close> made of it. When the StatefulSet is live, every update
  the apply issues carries the live templates and otherwise the merge of the desired spec
  into the live object, and nothing is created.
\<close>

theorem volumeClaimTemplates_preserved:
  "(statefulSetMutate c spec ob v = (err, ob', v')
      \<longrightarrow> specVolumeClaimTemplates (objSpec ob') = specVolumeClaimTemplates (objSpec ob)
        \<and> objSpec ob' = (objSpec (snd (MergeSpecs c ob spec Map.empty)))
             \<lparr>specVolumeClaimTemplates := specVolumeClaimTemplates (objSpec ob)\<rparr>)
   \<and> (fst (client_Get StatefulSet (objNamespace ss) (objName ss) (Client r)) = Inr live
       \<and> CallUpdate StatefulSet w \<in> set (issued r (CreateOrUpdateStatefulSet c cr ss r))
      \<longrightarrow> specVolumeClaimTemplates (objSpec w) = specVolumeClaimTemplates (objSpec live)
        \<and> objSpec w = (objSpec (snd (MergeSpecs c (ownerStep cr False live) (objSpec ss) Map.empty)))
             \<lparr>specVolumeClaimTemplates := specVolumeClaimTemplates (objSpec live)\<rparr>)
   \<and> (fst (client_Get StatefulSet (objNamespace ss) (objName ss) (Client r)) = Inr live
      \<longrightarrow> CallCreate StatefulSet w' \<notin> set (issued r (CreateOrUpdateStatefulSet c cr ss r)))"
  by (rule statefulSet_writes)

text \<open>
  A live StatefulSet scaled to three replicas, with a storage request in its template:
  the update carries the live template, not the desired one.
\<close>

theorem volumeClaimTemplates_preserved_witness:
  "statefulSetMutate demoCollaborators (objSpec demoStatefulSet) demoLiveStatefulSet ()
     = (None, demoLiveStatefulSet\<lparr>objSpec := (objSpec demoStatefulSet)
                \<lparr>specVolumeClaimTemplates := demoLiveTemplates\<rparr>\<rparr>, ())
   \<and> fst (client_Get StatefulSet (objNamespace demoStatefulSet) (objName demoStatefulSet)
          (Client demoStatefulSetCluster)) = Inr demoLiveStatefulSet
   \<and> CallUpdate StatefulSet demoMergedStatefulSet
        \<in> set (issued demoStatefulSetCluster
             (CreateOrUpdateStatefulSet demoCollaborators demoCoroot demoStatefulSet demoStatefulSetCluster))
   \<and> specVolumeClaimTemplates (objSpec demoMergedStatefulSet)
       = specVolumeClaimTemplates (objSpec demoLiveStatefulSet)
   \<and> specVolumeClaimTemplates (objSpec demoStatefulSet)
       \<noteq> specVolumeClaimTemplates (objSpec demoLiveStatefulSet)"
  using volumeClaimTemplates_preserved [where c = demoCollaborators and spec = "objSpec demoStatefulSet"
      and ob = demoLiveStatefulSet and v = "()" and err = None
      and ob' = "demoLiveStatefulSet\<lparr>objSpec := (objSpec demoStatefulSet)
                \<lparr>specVolumeClaimTemplates := demoLiveTemplates\<rparr>\<rparr>"
      and v' = "()"
      and ss = demoStatefulSet and r = demoStatefulSetCluster and live = demoLiveStatefulSet
      and w = demoMergedStatefulSet and cr = demoCoroot]
    demoStatefulSet_fetch demoStatefulSet_issued demoStatefulSet_mutate_raw
  by (simp add: demoLiveTemplates_def)



text \<open>
  Claim C4. As worded, every non-deleting apply with \<open>retain\<close> false would leave the object
  with a controller reference to the instance, and with \<open>retain\<close> true any controller
  reference to the instance would be removed. The closure of \<^verbatim>\<open>CreateOrUpdate\<close> discards
  the error of both library calls, so what holds is this.

  \<^item> With \<open>retain\<close> false: when \<^verbatim>\<open>SetControllerReference\<close> accepts the owner (the object
    passes the namespace check and is not controlled by another owner), the object carries
    the controller reference to the instance; when it refuses, the object is left as it was.
  \<^item> With \<open>retain\<close> true: an object not controlled by the instance is left as it was; an
    object controlled by the instance, in which at most one reference names the instance,
    leaves with exactly its foreign references, and no controller reference to the
    instance is left; no reference is ever added.
  \<^item> In both branches the references that name another owner are kept, in their order,
    and no field other than the owner references changes.
  \<^item> Every create carries what the mutate function made of the desired object after that
    step, and every update what it made of the fetched live object after that step; when
    the mutate function keeps the owner references, the write has the owner references of
    that step. The mutate functions for rules and for secret data keep them; those built
    on \<^verbatim>\<open>MergeSpecs\<close> keep them whenever \<^verbatim>\<open>MergeSpecs\<close> does.
  \<^item> \<^verbatim>\<open>CreateOrUpdateClusterRole\<close> and \<^verbatim>\<open>CreateOrUpdateClusterRoleBinding\<close> always take the
    \<open>retain\<close> branch.
\<close>

theorem ownership_by_retain:
  "(ownerAccepted cr ob \<longrightarrow> controllerRef cr \<in> set (ownerReferences (ownerStep cr False ob)))
   \<and> (\<not> ownerAccepted cr ob \<longrightarrow> ownerStep cr False ob = ob)
   \<and> (\<not> controlledBy cr ob \<longrightarrow> ownerStep cr True ob = ob)
   \<and> (controlledBy cr ob \<and> singleOwnerRef cr ob
        \<longrightarrow> ownerReferences (ownerStep cr True ob) = foreignRefs cr ob)
   \<and> (singleOwnerRef cr ob \<longrightarrow> \<not> controlledBy cr (ownerStep cr True ob))
   \<and> set (ownerReferences (ownerStep cr True ob)) \<subseteq> set (ownerReferences ob)
   \<and> foreignRefs cr (ownerStep cr retain ob) = foreignRefs cr ob
   \<and> ownerStep cr retain ob = ob\<lparr>ownerReferences := ownerReferences (ownerStep cr retain ob)\<rparr>
   \<and> (CallCreate t w \<in> set (issued r (applied cr t d retain mf v r))
        \<longrightarrow> fst (client_Get t (objNamespace d) (objName d) (Client r)) = Inl NotFound
          \<and> (case mf of None \<Rightarrow> w = ownerStep cr retain d
              | Some m \<Rightarrow> (\<exists>u. m (ownerStep cr retain d) v = (None, w, u)))
          \<and> (keepsOwnerRefs mf \<longrightarrow> ownerReferences w = ownerReferences (ownerStep cr retain d)))
   \<and> (CallUpdate t w \<in> set (issued r (applied cr t d retain mf v r))
        \<longrightarrow> (\<exists>live. fst (client_Get t (objNamespace d) (objName d) (Client r)) = Inr live
              \<and> (case mf of None \<Rightarrow> w = ownerStep cr retain live
                  | Some m \<Rightarrow> (\<exists>u. m (ownerStep cr retain live) v = (None, w, u)))
              \<and> (keepsOwnerRefs mf \<longrightarrow> ownerReferences w = ownerReferences (ownerStep cr retain live))))
   \<and> keepsOwnerRefs (Some (rulesMutate rules))
   \<and> keepsOwnerRefs (Some (secretMutate c key len))
   \<and> ((\<forall>x. ownerReferences (snd (MergeSpecs c x spec ann)) = ownerReferences x)
        \<longrightarrow> keepsOwnerRefs (Some (mergeMutate c spec ann))
          \<and> keepsOwnerRefs (Some (serviceMutate c spec ann)))
   \<and> ((\<forall>x. ownerReferences (snd (MergeSpecs c x spec Map.empty)) = ownerReferences x)
        \<longrightarrow> keepsOwnerRefs (Some (statefulSetMutate c spec)))
   \<and> (CallCreate ClusterRole w1 \<in> set (issued r (CreateOrUpdateClusterRole cr role r))
        \<longrightarrow> ownerReferences w1 = ownerReferences (ownerStep cr True role))
   \<and> (CallUpdate ClusterRole w1 \<in> set (issued r (CreateOrUpdateClusterRole cr role r))
        \<longrightarrow> (\<exists>live. fst (client_Get ClusterRole (objNamespace role) (objName role) (Client r)) = Inr live
              \<and> ownerReferences w1 = ownerReferences (ownerStep cr True live)))
   \<and> (CallCreate ClusterRoleBinding w2 \<in> set (issued r (CreateOrUpdateClusterRoleBinding cr b r))
        \<longrightarrow> w2 = ownerStep cr True b)
   \<and> (CallUpdate ClusterRoleBinding w2 \<in> set (issued r (CreateOrUpdateClusterRoleBinding cr b r))
        \<longrightarrow> (\<exists>live. fst (client_Get ClusterRoleBinding (objNamespace b) (objName b) (Client r)) = Inr live
              \<and> w2 = ownerStep cr True live))"
proof (intro conjI impI)
  assume "ownerAccepted cr ob"
  then show "controllerRef cr \<in> set (ownerReferences (ownerStep cr False ob))"
    by (rule set_reference_member)
next
  assume "\<not> ownerAccepted cr ob"
  then show "ownerStep cr False ob = ob" by (rule set_reference_cases)
next
  assume "\<not> controlledBy cr ob"
  then show "ownerStep cr True ob = ob" by (rule remove_not_controlled)
next
  assume "controlledBy cr ob \<and> singleOwnerRef cr ob"
  then show "ownerReferences (ownerStep cr True ob) = foreignRefs cr ob"
    by (intro remove_exact) simp_all
next
  assume "singleOwnerRef cr ob"
  then show "\<not> controlledBy cr (ownerStep cr True ob)" by (rule remove_none_left)
next
  show "set (ownerReferences (ownerStep cr True ob)) \<subseteq> set (ownerReferences ob)"
    by (rule remove_reference_subset)
next
  show "foreignRefs cr (ownerStep cr retain ob) = foreignRefs cr ob" by (rule foreign_kept)
next
  show "ownerStep cr retain ob = ob\<lparr>ownerReferences := ownerReferences (ownerStep cr retain ob)\<rparr>"
    by (rule ownerStep_only_refs)
next
  assume a: "CallCreate t w \<in> set (issued r (applied cr t d retain mf v r))"
  from written_create [OF a]
  show "fst (client_Get t (objNamespace d) (objName d) (Client r)) = Inl NotFound"
    and "case mf of None \<Rightarrow> w = ownerStep cr retain d
              | Some m \<Rightarrow> (\<exists>u. m (ownerStep cr retain d) v = (None, w, u))"
    by simp_all
  assume "keepsOwnerRefs mf"
  with written_create [OF a]
  show "ownerReferences w = ownerReferences (ownerStep cr retain d)" by simp
next
  assume "CallUpdate t w \<in> set (issued r (applied cr t d retain mf v r))"
  then show "\<exists>live. fst (client_Get t (objNamespace d) (objName d) (Client r)) = Inr live
              \<and> (case mf of None \<Rightarrow> w = ownerStep cr retain live
                  | Some m \<Rightarrow> (\<exists>u. m (ownerStep cr retain live) v = (None, w, u)))
              \<and> (keepsOwnerRefs mf \<longrightarrow> ownerReferences w = ownerReferences (ownerStep cr retain live))"
    by (rule written_update)
next
  show "keepsOwnerRefs (Some (rulesMutate rules))" by simp
next
  show "keepsOwnerRefs (Some (secretMutate c key len))" by simp
next
  assume a: "\<forall>x. ownerReferences (snd (MergeSpecs c x spec ann)) = ownerReferences x"
  from keepsOwnerRefs_merge [OF a]
  show "keepsOwnerRefs (Some (mergeMutate c spec ann))"
    and "keepsOwnerRefs (Some (serviceMutate c spec ann))" by simp_all
next
  assume "\<forall>x. ownerReferences (snd (MergeSpecs c x spec Map.empty)) = ownerReferences x"
  then show "keepsOwnerRefs (Some (statefulSetMutate c spec))" by (rule keepsOwnerRefs_statefulSet)
next
  assume "CallCreate ClusterRole w1 \<in> set (issued r (CreateOrUpdateClusterRole cr role r))"
  then have "CallCreate ClusterRole w1 \<in> set (issued r (applied cr ClusterRole role True
      (Some (rulesMutate (roleRules role))) () r))"
    by (simp add: wrappers_applied)
  from written_create [OF this]
  show "ownerReferences w1 = ownerReferences (ownerStep cr True role)" by simp
next
  assume "CallUpdate ClusterRole w1 \<in> set (issued r (CreateOrUpdateClusterRole cr role r))"
  then have "CallUpdate ClusterRole w1 \<in> set (issued r (applied cr ClusterRole role True
      (Some (rulesMutate (roleRules role))) () r))"
    by (simp add: wrappers_applied)
  from written_update [OF this]
  show "\<exists>live. fst (client_Get ClusterRole (objNamespace role) (objName role) (Client r)) = Inr live
              \<and> ownerReferences w1 = ownerReferences (ownerStep cr True live)"
    by auto
next
  assume "CallCreate ClusterRoleBinding w2 \<in> set (issued r (CreateOrUpdateClusterRoleBinding cr b r))"
  then have "CallCreate ClusterRoleBinding w2 \<in> set (issued r (applied cr ClusterRoleBinding b True
      (None :: unit mutateFn option) () r))"
    by (simp add: wrappers_applied)
  from written_create [OF this]
  show "w2 = ownerStep cr True b" by simp
next
  assume "CallUpdate ClusterRoleBinding w2 \<in> set (issued r (CreateOrUpdateClusterRoleBinding cr b r))"
  then have "CallUpdate ClusterRoleBinding w2 \<in> set (issued r (applied cr ClusterRoleBinding b True
      (None :: unit mutateFn option) () r))"
    by (simp add: wrappers_applied)
  from written_update [OF this]
  show "\<exists>live. fst (client_Get ClusterRoleBinding (objNamespace b) (objName b) (Client r)) = Inr live
              \<and> w2 = ownerStep cr True live"
    by auto
qed

text \<open>
  A role without owners gains the reference, on the fetched object and on a create; a role
  controlled by another owner is left alone by both branches; a live cluster role that
  carries a foreign reference and the instance's controller reference is written with the
  foreign reference only; a cluster role binding is created as desired.
\<close>

theorem ownership_by_retain_witness:
  "ownerAccepted demoCoroot demoLiveRole
   \<and> controllerRef demoCoroot \<in> set (ownerReferences (ownerStep demoCoroot False demoLiveRole))
   \<and> \<not> ownerAccepted demoCoroot demoOwnedRole
   \<and> ownerStep demoCoroot False demoOwnedRole = demoOwnedRole
   \<and> \<not> controlledBy demoCoroot demoOwnedRole
   \<and> ownerStep demoCoroot True demoOwnedRole = demoOwnedRole
   \<and> controlledBy demoCoroot demoLiveClusterRole \<and> singleOwnerRef demoCoroot demoLiveClusterRole
   \<and> ownerReferences demoLiveClusterRole = [demoPlainRef, controllerRef demoCoroot]
   \<and> ownerReferences (ownerStep demoCoroot True demoLiveClusterRole) = [demoPlainRef]
   \<and> \<not> controlledBy demoCoroot (ownerStep demoCoroot True demoLiveClusterRole)
   \<and> CallCreate Role demoCreatedRole
        \<in> set (issued (demoReconciler []) (applied demoCoroot Role demoRole False
                 (Some (rulesMutate (roleRules demoRole))) () (demoReconciler [])))
   \<and> ownerReferences demoCreatedRole = ownerReferences (ownerStep demoCoroot False demoRole)
   \<and> ownerReferences demoCreatedRole = [controllerRef demoCoroot]
   \<and> CallUpdate Role demoWrittenRole
        \<in> set (issued demoOwnedCluster (applied demoCoroot Role demoRole False
                 (Some (rulesMutate (roleRules demoRole))) () demoOwnedCluster))
   \<and> ownerReferences demoWrittenRole = ownerReferences (ownerStep demoCoroot False demoOwnedRole)
   \<and> (\<forall>x. ownerReferences (snd (MergeSpecs demoCollaborators x (objSpec demoStatefulSet) Map.empty))
            = ownerReferences x)
   \<and> keepsOwnerRefs (Some (mergeMutate demoCollaborators (objSpec demoStatefulSet) Map.empty))
   \<and> keepsOwnerRefs (Some (statefulSetMutate demoCollaborators (objSpec demoStatefulSet)))
   \<and> CallUpdate ClusterRole demoWrittenClusterRole
        \<in> set (issued demoClusterRoleCluster
                 (CreateOrUpdateClusterRole demoCoroot demoClusterRole demoClusterRoleCluster))
   \<and> ownerReferences demoWrittenClusterRole = ownerReferences (ownerStep demoCoroot True demoLiveClusterRole)
   \<and> ownerReferences demoWrittenClusterRole = [demoPlainRef]
   \<and> CallCreate ClusterRoleBinding (demoClusterObject demoCoroot)
        \<in> set (issued (demoReconciler [])
                 (CreateOrUpdateClusterRoleBinding demoCoroot (demoClusterObject demoCoroot) (demoReconciler [])))
   \<and> demoClusterObject demoCoroot = ownerStep demoCoroot True (demoClusterObject demoCoroot)"
proof -
  have 1: "controllerRef demoCoroot \<in> set (ownerReferences (ownerStep demoCoroot False demoLiveRole))"
    using ownership_by_retain [where cr = demoCoroot and ob = demoLiveRole, THEN conjunct1] demo_accepted
    by simp
  have 2: "ownerStep demoCoroot False demoOwnedRole = demoOwnedRole"
    using ownership_by_retain [where cr = demoCoroot and ob = demoOwnedRole, THEN conjunct2, THEN conjunct1] demo_accepted
    by simp
  have 3: "ownerStep demoCoroot True demoOwnedRole = demoOwnedRole"
    using ownership_by_retain [where cr = demoCoroot and ob = demoOwnedRole, THEN conjunct2, THEN conjunct2, THEN conjunct1] demo_controlled
    by simp
  have 4: "ownerReferences (ownerStep demoCoroot True demoLiveClusterRole) = [demoPlainRef]"
    using ownership_by_retain [where cr = demoCoroot and ob = demoLiveClusterRole, THEN conjunct2, THEN conjunct2, THEN conjunct2, THEN conjunct1]
      demo_controlled demo_single
    by simp
  have 5: "\<not> controlledBy demoCoroot (ownerStep demoCoroot True demoLiveClusterRole)"
    using ownership_by_retain [where cr = demoCoroot and ob = demoLiveClusterRole, THEN conjunct2, THEN conjunct2, THEN conjunct2, THEN conjunct2, THEN conjunct1] demo_single
    by simp
  have 6: "ownerReferences demoCreatedRole = ownerReferences (ownerStep demoCoroot False demoRole)"
    using ownership_by_retain [where cr = demoCoroot and r = "demoReconciler []" and t = Role
        and d = demoRole and retain = False and mf = "Some (rulesMutate (roleRules demoRole))"
        and v = "()" and w = demoCreatedRole, THEN conjunct2, THEN conjunct2, THEN conjunct2, THEN conjunct2, THEN conjunct2, THEN conjunct2, THEN conjunct2, THEN conjunct2, THEN conjunct1]
      demoRole_created
    by simp
  have 7: "ownerReferences demoWrittenRole = ownerReferences (ownerStep demoCoroot False demoOwnedRole)"
    using ownership_by_retain [where cr = demoCoroot and r = demoOwnedCluster and t = Role
        and d = demoRole and retain = False and mf = "Some (rulesMutate (roleRules demoRole))"
        and v = "()" and w = demoWrittenRole, THEN conjunct2, THEN conjunct2, THEN conjunct2, THEN conjunct2, THEN conjunct2, THEN conjunct2, THEN conjunct2, THEN conjunct2, THEN conjunct2, THEN conjunct1]
      demoOwned_applied demoOwned_fetch
    by simp
  have 8: "keepsOwnerRefs (Some (mergeMutate demoCollaborators (objSpec demoStatefulSet) Map.empty))"
    using ownership_by_retain [where c = demoCollaborators and spec = "objSpec demoStatefulSet"
        and ann = Map.empty, THEN conjunct2, THEN conjunct2, THEN conjunct2, THEN conjunct2, THEN conjunct2, THEN conjunct2, THEN conjunct2, THEN conjunct2, THEN conjunct2, THEN conjunct2, THEN conjunct2, THEN conjunct2, THEN conjunct1] demo_merge_keeps
    by simp
  have 9: "keepsOwnerRefs (Some (statefulSetMutate demoCollaborators (objSpec demoStatefulSet)))"
    using ownership_by_retain [where c = demoCollaborators and spec = "objSpec demoStatefulSet", THEN conjunct2, THEN conjunct2, THEN conjunct2, THEN conjunct2, THEN conjunct2, THEN conjunct2, THEN conjunct2, THEN conjunct2, THEN conjunct2, THEN conjunct2, THEN conjunct2, THEN conjunct2, THEN conjunct2, THEN conjunct1]
      demo_merge_keeps
    by simp
  have 10: "ownerReferences demoWrittenClusterRole
              = ownerReferences (ownerStep demoCoroot True demoLiveClusterRole)"
    using ownership_by_retain [where cr = demoCoroot and r = demoClusterRoleCluster
        and role = demoClusterRole and ?w1.0 = demoWrittenClusterRole, THEN conjunct2, THEN conjunct2, THEN conjunct2, THEN conjunct2, THEN conjunct2, THEN conjunct2, THEN conjunct2, THEN conjunct2, THEN conjunct2, THEN conjunct2, THEN conjunct2, THEN conjunct2, THEN conjunct2, THEN conjunct2, THEN conjunct2, THEN conjunct1]
      demoClusterRole_issued demoClusterRole_fetch
    by simp
  have 11: "demoClusterObject demoCoroot = ownerStep demoCoroot True (demoClusterObject demoCoroot)"
    using ownership_by_retain [where cr = demoCoroot and r = "demoReconciler []"
        and b = "demoClusterObject demoCoroot" and ?w2.0 = "demoClusterObject demoCoroot", THEN conjunct2, THEN conjunct2, THEN conjunct2, THEN conjunct2, THEN conjunct2, THEN conjunct2, THEN conjunct2, THEN conjunct2, THEN conjunct2, THEN conjunct2, THEN conjunct2, THEN conjunct2, THEN conjunct2, THEN conjunct2, THEN conjunct2, THEN conjunct2, THEN conjunct1]
      demoBinding_created
    by simp
  show ?thesis
    using 1 2 3 4 5 6 7 8 9 10 11 demo_accepted demo_controlled demo_single demo_merge_keeps
      demoRole_created demoOwned_applied demoClusterRole_issued demoBinding_created
    by (simp add: demoCreatedRole_def demoWrittenClusterRole_def)
qed

text \<open>
  \<^verbatim>\<open>CreateOrUpdateRole\<close>, \<open>retain\<close> false, on a live role that another owner controls: the
  update that is written carries that owner's reference only, and none to the instance.
  \<^verbatim>\<open>CreateOrUpdateClusterRole\<close>, \<open>retain\<close> true, on a live cluster role whose first reference
  to the instance is not a controller reference and whose second is: the update that is
  written still carries the controller reference to the instance.
\<close>

theorem owner_reference_counterexample:
  "issued demoOwnedCluster (CreateOrUpdateRole demoCoroot demoRole demoOwnedCluster)
     = [CallGet Role ''ns'' ''example-nonroot'', CallUpdate Role demoWrittenRole]
   \<and> ownerReferences demoWrittenRole = [demoForeignRef]
   \<and> \<not> referSameObject demoForeignRef (controllerRef demoCoroot)
   \<and> controllerRef demoCoroot \<notin> set (ownerReferences demoWrittenRole)
   \<and> issued demoShadowedCluster (CreateOrUpdateClusterRole demoCoroot demoClusterRole demoShadowedCluster)
     = [CallGet ClusterRole [] ''example-cluster-agent'', CallUpdate ClusterRole demoWrittenShadowed]
   \<and> ownerReferences demoWrittenShadowed = [demoShadowRef, controllerRef demoCoroot]
   \<and> isController (controllerRef demoCoroot)
   \<and> controlledBy demoCoroot demoWrittenShadowed"
  using demoOwned_issued demo_controllers demoShadowed_issued
  by (auto simp add: demoWrittenRole_def demoWrittenShadowed_def demoShadowedClusterRole_def
      controlledBy_def)





text \<open>
  Claim C1. As worded, two calls of \<^verbatim>\<open>CreateOrUpdateSecret\<close> for the same secret and key would
  always return the same value. The value that a call generates is returned whether or
  not the write that should store it succeeds, so this holds when the first call logged
  no failure. What one call does:

  \<^item> the fetched secret holds the key: the stored value is returned, whatever the
    requested length, no random string is drawn, and the data of the secret stays as it
    was;
  \<^item> the secret is absent, or is live without the key: \<^verbatim>\<open>RandomString\<close> is called with the
    requested length, its result is returned, and one create (or one update) is issued
    whose object holds it under the key; the object is stored when that write is not
    answered by an error;
  \<^item> the fetch fails with an error other than "not found": the empty string is returned,
    the error is logged and the cluster is left as it was.

  Two calls, with any two lengths: when the first call logged no failure, the secret is
  the same at the second call and the second fetch is answered, the second call returns
  the value of the first.
\<close>

theorem secret_stability:
  "(fst (client_Get Secret (crNamespace cr) name (Client r)) = Inr live
      \<and> secretData live key = Some v
      \<and> objNamespace live = crNamespace cr \<and> objName live = name
     \<longrightarrow> fst (CreateOrUpdateSecret c cr component name key len r) = v
       \<and> entropy (snd (CreateOrUpdateSecret c cr component name key len r)) = entropy r
       \<and> (\<exists>ob. objects (Client (snd (CreateOrUpdateSecret c cr component name key len r)))
                 (Secret, crNamespace cr, name) = Some ob \<and> secretData ob = secretData live
               \<and> objNamespace ob = crNamespace cr \<and> objName ob = name))
   \<and> (fst (client_Get Secret (crNamespace cr) name (Client r)) = Inl NotFound
     \<longrightarrow> fst (CreateOrUpdateSecret c cr component name key len r) = RandomString c (entropy r) len
       \<and> entropy (snd (CreateOrUpdateSecret c cr component name key len r)) = Suc (entropy r)
       \<and> (\<exists>ob. calls (Client (snd (CreateOrUpdateSecret c cr component name key len r)))
               = calls (Client r) @ [CallGet Secret (crNamespace cr) name, CallCreate Secret ob]
            \<and> objNamespace ob = crNamespace cr \<and> objName ob = name
            \<and> secretData ob = [key \<mapsto> RandomString c (entropy r) len]
            \<and> (nextFault (advance (CallGet Secret (crNamespace cr) name) (Client r)) = None
                 \<and> objects (Client r) (Secret, crNamespace cr, name) = None
               \<longrightarrow> objects (Client (snd (CreateOrUpdateSecret c cr component name key len r)))
                     (Secret, crNamespace cr, name) = Some ob)))
   \<and> (fst (client_Get Secret (crNamespace cr) name (Client r)) = Inr live
      \<and> secretData live key = None
      \<and> objNamespace live = crNamespace cr \<and> objName live = name
     \<longrightarrow> fst (CreateOrUpdateSecret c cr component name key len r) = RandomString c (entropy r) len
       \<and> entropy (snd (CreateOrUpdateSecret c cr component name key len r)) = Suc (entropy r)
       \<and> (\<exists>ob. calls (Client (snd (CreateOrUpdateSecret c cr component name key len r)))
               = calls (Client r) @ [CallGet Secret (crNamespace cr) name, CallUpdate Secret ob]
            \<and> objNamespace ob = crNamespace cr \<and> objName ob = name
            \<and> secretData ob = (secretData live)(key \<mapsto> RandomString c (entropy r) len)
            \<and> (nextFault (advance (CallGet Secret (crNamespace cr) name) (Client r)) = None
               \<longrightarrow> objects (Client (snd (CreateOrUpdateSecret c cr component name key len r)))
                     (Secret, crNamespace cr, name) = Some ob)))
   \<and> (fst (client_Get Secret (crNamespace cr) name (Client r)) = Inl e \<and> e \<noteq> NotFound
     \<longrightarrow> fst (CreateOrUpdateSecret c cr component name key len r) = []
       \<and> objects (Client (snd (CreateOrUpdateSecret c cr component name key len r))) = objects (Client r)
       \<and> logs (snd (CreateOrUpdateSecret c cr component name key len r))
           = logs r @ [LogError e ''failed to create or update''])
   \<and> (failures (snd (CreateOrUpdateSecret c cr component name key len r)) = failures r
      \<and> (\<forall>ob. objects (Client r) (Secret, crNamespace cr, name) = Some ob
                 \<longrightarrow> objNamespace ob = crNamespace cr \<and> objName ob = name)
      \<and> objects (Client r2) (Secret, crNamespace cr, name)
           = objects (Client (snd (CreateOrUpdateSecret c cr component name key len r)))
               (Secret, crNamespace cr, name)
      \<and> nextFault (Client r2) = None
     \<longrightarrow> fst (CreateOrUpdateSecret c cr component2 name key len2 r2)
           = fst (CreateOrUpdateSecret c cr component name key len r))"
proof -
  have a: "fst (client_Get Secret (crNamespace cr) name (Client r)) = Inr live
      \<and> secretData live key = Some v
      \<and> objNamespace live = crNamespace cr \<and> objName live = name
     \<longrightarrow> fst (CreateOrUpdateSecret c cr component name key len r) = v
       \<and> entropy (snd (CreateOrUpdateSecret c cr component name key len r)) = entropy r
       \<and> (\<exists>ob. objects (Client (snd (CreateOrUpdateSecret c cr component name key len r)))
                 (Secret, crNamespace cr, name) = Some ob \<and> secretData ob = secretData live
               \<and> objNamespace ob = crNamespace cr \<and> objName ob = name)"
    by (rule impI, (erule conjE)+) (rule secret_present)
  have b: "fst (client_Get Secret (crNamespace cr) name (Client r)) = Inl NotFound
     \<longrightarrow> fst (CreateOrUpdateSecret c cr component name key len r) = RandomString c (entropy r) len
       \<and> entropy (snd (CreateOrUpdateSecret c cr component name key len r)) = Suc (entropy r)
       \<and> (\<exists>ob. calls (Client (snd (CreateOrUpdateSecret c cr component name key len r)))
               = calls (Client r) @ [CallGet Secret (crNamespace cr) name, CallCreate Secret ob]
            \<and> objNamespace ob = crNamespace cr \<and> objName ob = name
            \<and> secretData ob = [key \<mapsto> RandomString c (entropy r) len]
            \<and> (nextFault (advance (CallGet Secret (crNamespace cr) name) (Client r)) = None
                 \<and> objects (Client r) (Secret, crNamespace cr, name) = None
               \<longrightarrow> objects (Client (snd (CreateOrUpdateSecret c cr component name key len r)))
                     (Secret, crNamespace cr, name) = Some ob))"
    by (rule impI) (rule secret_absent_notfound)
  have c: "fst (client_Get Secret (crNamespace cr) name (Client r)) = Inr live
      \<and> secretData live key = None
      \<and> objNamespace live = crNamespace cr \<and> objName live = name
     \<longrightarrow> fst (CreateOrUpdateSecret c cr component name key len r) = RandomString c (entropy r) len
       \<and> entropy (snd (CreateOrUpdateSecret c cr component name key len r)) = Suc (entropy r)
       \<and> (\<exists>ob. calls (Client (snd (CreateOrUpdateSecret c cr component name key len r)))
               = calls (Client r) @ [CallGet Secret (crNamespace cr) name, CallUpdate Secret ob]
            \<and> objNamespace ob = crNamespace cr \<and> objName ob = name
            \<and> secretData ob = (secretData live)(key \<mapsto> RandomString c (entropy r) len)
            \<and> (nextFault (advance (CallGet Secret (crNamespace cr) name) (Client r)) = None
               \<longrightarrow> objects (Client (snd (CreateOrUpdateSecret c cr component name key len r)))
                     (Secret, crNamespace cr, name) = Some ob))"
    by (rule impI, (erule conjE)+) (rule secret_absent_found)
  have d: "fst (client_Get Secret (crNamespace cr) name (Client r)) = Inl e \<and> e \<noteq> NotFound
     \<longrightarrow> fst (CreateOrUpdateSecret c cr component name key len r) = []
       \<and> objects (Client (snd (CreateOrUpdateSecret c cr component name key len r))) = objects (Client r)
       \<and> logs (snd (CreateOrUpdateSecret c cr component name key len r))
           = logs r @ [LogError e ''failed to create or update'']"
  proof (rule impI, erule conjE)
    assume f: "fst (client_Get Secret (crNamespace cr) name (Client r)) = Inl e" and ne: "e \<noteq> NotFound"
    show "fst (CreateOrUpdateSecret c cr component name key len r) = []
       \<and> objects (Client (snd (CreateOrUpdateSecret c cr component name key len r))) = objects (Client r)
       \<and> logs (snd (CreateOrUpdateSecret c cr component name key len r))
           = logs r @ [LogError e ''failed to create or update'']"
      by (simp add: secret_fetch_error [OF f ne])
  qed
  have e: "failures (snd (CreateOrUpdateSecret c cr component name key len r)) = failures r
      \<and> (\<forall>ob. objects (Client r) (Secret, crNamespace cr, name) = Some ob
                 \<longrightarrow> objNamespace ob = crNamespace cr \<and> objName ob = name)
      \<and> objects (Client r2) (Secret, crNamespace cr, name)
           = objects (Client (snd (CreateOrUpdateSecret c cr component name key len r)))
               (Secret, crNamespace cr, name)
      \<and> nextFault (Client r2) = None
     \<longrightarrow> fst (CreateOrUpdateSecret c cr component2 name key len2 r2)
           = fst (CreateOrUpdateSecret c cr component name key len r)"
    by (rule impI, (erule conjE)+) (rule secret_two_calls)
  show ?thesis
    by (rule conjI [OF a conjI [OF b conjI [OF c conjI [OF d e]]]])
qed

text \<open>
  A live secret without the key: the first call, length 3, stores and returns \<open>000\<close>; a
  second call, length 5, returns \<open>000\<close> and draws nothing. A call on an empty cluster
  and a call whose fetch times out.
\<close>

theorem secret_stability_witness:
  "fst (client_Get Secret (crNamespace demoCoroot) ''example-clickhouse'' (Client demoSecretCluster))
     = Inr demoLiveSecret
   \<and> secretData demoLiveSecret ''password'' = None
   \<and> fst (demoSecretCall 3 demoSecretCluster) = demoRandomString 0 3
   \<and> fst (demoSecretCall 3 demoSecretCluster) = ''000''
   \<and> failures (snd (demoSecretCall 3 demoSecretCluster)) = failures demoSecretCluster
   \<and> objects (Client demoSecretCluster) (Secret, ''ns'', ''example-clickhouse'') = Some demoLiveSecret
   \<and> nextFault (Client (snd (demoSecretCall 3 demoSecretCluster))) = None
   \<and> fst (demoSecretCall 5 (snd (demoSecretCall 3 demoSecretCluster))) = ''000''
   \<and> fst (client_Get Secret (crNamespace demoCoroot) ''example-clickhouse''
         (Client (snd (demoSecretCall 3 demoSecretCluster)))) = Inr demoKeyedSecret
   \<and> secretData demoKeyedSecret ''password'' = Some ''000''
   \<and> entropy (snd (demoSecretCall 5 (snd (demoSecretCall 3 demoSecretCluster)))) = Suc 0
   \<and> fst (client_Get Secret (crNamespace demoCoroot) ''example-clickhouse'' (Client (demoReconciler [])))
     = Inl NotFound
   \<and> fst (demoSecretCall 3 (demoReconciler [])) = ''000''
   \<and> fst (client_Get Secret (crNamespace demoCoroot) ''example-clickhouse'' (Client demoFailedFetch))
     = Inl (Transport ''timeout'')
   \<and> fst (demoSecretCall 3 demoFailedFetch) = []"
proof -
  have 1: "fst (demoSecretCall 5 (snd (demoSecretCall 3 demoSecretCluster))) = ''000''
     \<and> entropy (snd (demoSecretCall 5 (snd (demoSecretCall 3 demoSecretCluster)))) = Suc 0"
    using secret_stability [where cr = demoCoroot and name = "''example-clickhouse''"
        and r = "snd (demoSecretCall 3 demoSecretCluster)" and live = demoKeyedSecret
        and key = "''password''" and v = "''000''" and c = demoCollaborators
        and component = "''clickhouse''" and len = 5, THEN conjunct1, folded demoSecretCall_def]
      demoSecret_refetch demoSecret_once
    by simp
  have 2: "fst (demoSecretCall 3 (demoReconciler [])) = ''000''"
    using secret_stability [where cr = demoCoroot and name = "''example-clickhouse''"
        and r = "demoReconciler []" and key = "''password''" and c = demoCollaborators
        and component = "''clickhouse''" and len = 3, THEN conjunct2, THEN conjunct1,
        folded demoSecretCall_def]
      demoEmpty_fetch
    by (simp add: r1)
  have 3: "fst (demoSecretCall 3 demoSecretCluster) = demoRandomString 0 3"
    using secret_stability [where cr = demoCoroot and name = "''example-clickhouse''"
        and r = demoSecretCluster and live = demoLiveSecret and key = "''password''"
        and c = demoCollaborators and component = "''clickhouse''" and len = 3,
        THEN conjunct2, THEN conjunct2, THEN conjunct1, folded demoSecretCall_def]
      demoSecret_fetch
    by (simp add: demoSecretCluster_def)
  have 4: "fst (demoSecretCall 3 demoFailedFetch) = []"
    using secret_stability [where cr = demoCoroot and name = "''example-clickhouse''"
        and r = demoFailedFetch and e = "Transport ''timeout''" and key = "''password''"
        and c = demoCollaborators and component = "''clickhouse''" and len = 3,
        THEN conjunct2, THEN conjunct2, THEN conjunct2, THEN conjunct1, folded demoSecretCall_def]
      demoFailedFetch_fetch
    by simp
  have 5: "fst (demoSecretCall 5 (snd (demoSecretCall 3 demoSecretCluster)))
             = fst (demoSecretCall 3 demoSecretCluster)"
    using secret_stability [where cr = demoCoroot and name = "''example-clickhouse''"
        and r = demoSecretCluster and ?r2.0 = "snd (demoSecretCall 3 demoSecretCluster)"
        and key = "''password''" and c = demoCollaborators
        and component = "''clickhouse''" and ?component2.0 = "''clickhouse''" and len = 3 and ?len2.0 = 5,
        THEN conjunct2, THEN conjunct2, THEN conjunct2, THEN conjunct2, folded demoSecretCall_def]
      demoSecret_once
    by (simp add: demoSecretCluster_def failures_def)
  show ?thesis
    using 1 2 3 4 5 demoSecret_fetch demoSecret_once demoSecret_refetch demoEmpty_fetch
      demoFailedFetch_fetch
    by (simp add: demoSecretCluster_def failures_def r1)
qed

text \<open>
  The create of the first call is answered by a timeout: the call returns \<open>000\<close>, logs the
  failure, and nothing is stored. The next call, same secret, same key, same length,
  returns \<open>111\<close>.
\<close>

theorem secret_regenerated_counterexample:
  "fst (demoSecretCall 3 demoFailedCreate) = ''000''
   \<and> logs (snd (demoSecretCall 3 demoFailedCreate))
       = [LogError (Transport ''timeout'') ''failed to create or update'']
   \<and> objects (Client (snd (demoSecretCall 3 demoFailedCreate))) (Secret, ''ns'', ''example-clickhouse'') = None
   \<and> fst (demoSecretCall 3 (snd (demoSecretCall 3 demoFailedCreate))) = ''111''"
  using demo_second_call by (simp add: demoFailedCreate_def demo_first_call)

end
